(* ===== verification/Prelude.thy ===== *)
theory Prelude
  imports Main "HOL-Library.Sublist" "HOL-Library.Multiset" "HOL-Library.Char_ord"
    "HOL-Library.List_Lexorder"
begin

text \<open>
  Shared vocabulary of the development: the character classes of \<open>ctype.h\<close> in the C.UTF-8 locale
  that \<open>main.cpp\<close> selects, \<open>std::to_string\<close>, \<open>boost::algorithm::join\<close>, the ordered
  \<open>std::multimap\<close> as a sorted association list, \<open>std::stable_sort\<close>, and the propagation of
  exceptions through values of a sum type (\<open>Inl\<close> is a thrown exception, \<open>Inr\<close> a returned value).
\<close>

named_theorems x3_intros \<open>closure of the parser laws under the grammar operators\<close>
named_theorems exn_simps \<open>unfolding of exception propagation\<close>

type_synonym ('e, 'a) outcome = "'e + 'a"

section \<open>Exceptions as values\<close>

definition bindE :: "'e + 'a \<Rightarrow> ('a \<Rightarrow> 'e + 'b) \<Rightarrow> 'e + 'b" where
  "bindE m f = (case m of Inl e \<Rightarrow> Inl e | Inr a \<Rightarrow> f a)"

lemma bindE_Inl [simp, exn_simps]: "bindE (Inl e) f = Inl e"
  by (simp add: bindE_def)

lemma bindE_Inr [simp, exn_simps]: "bindE (Inr a) f = f a"
  by (simp add: bindE_def)

lemma bindE_eq_Inr_iff: "bindE m f = Inr b \<longleftrightarrow> (\<exists>a. m = Inr a \<and> f a = Inr b)"
  by (cases m) auto

lemma bindE_eq_Inl_iff: "bindE m f = Inl e \<longleftrightarrow> m = Inl e \<or> (\<exists>a. m = Inr a \<and> f a = Inl e)"
  by (cases m) auto

text \<open>A loop that stops at the first exception: \<open>for (x : xs) f(x);\<close> over an accumulator.\<close>

fun foldE :: "('s \<Rightarrow> 'a \<Rightarrow> 'e + 's) \<Rightarrow> 's \<Rightarrow> 'a list \<Rightarrow> 'e + 's" where
  "foldE f s [] = Inr s"
| "foldE f s (x # xs) = bindE (f s x) (\<lambda>s'. foldE f s' xs)"

lemma foldE_append: "foldE f s (xs @ ys) = bindE (foldE f s xs) (\<lambda>s'. foldE f s' ys)"
proof (induction xs arbitrary: s)
  case (Cons x xs)
  then show ?case by (cases "f s x") auto
qed simp

section \<open>Characters and numbers\<close>

definition is_upper :: "char \<Rightarrow> bool" where
  "is_upper c \<longleftrightarrow> CHR ''A'' \<le> c \<and> c \<le> CHR ''Z''"

definition is_lower :: "char \<Rightarrow> bool" where
  "is_lower c \<longleftrightarrow> CHR ''a'' \<le> c \<and> c \<le> CHR ''z''"

definition is_digit :: "char \<Rightarrow> bool" where
  "is_digit c \<longleftrightarrow> CHR ''0'' \<le> c \<and> c \<le> CHR ''9''"

definition is_alpha :: "char \<Rightarrow> bool" where
  "is_alpha c \<longleftrightarrow> is_upper c \<or> is_lower c"

definition is_alnum :: "char \<Rightarrow> bool" where
  "is_alnum c \<longleftrightarrow> is_alpha c \<or> is_digit c"

definition is_xdigit :: "char \<Rightarrow> bool" where
  "is_xdigit c \<longleftrightarrow> is_digit c \<or> (CHR ''a'' \<le> c \<and> c \<le> CHR ''f'') \<or> (CHR ''A'' \<le> c \<and> c \<le> CHR ''F'')"

definition is_space :: "char \<Rightarrow> bool" where
  "is_space c \<longleftrightarrow> c = CHR '' '' \<or> (CHR 0x09 \<le> c \<and> c \<le> CHR 0x0D)"

definition to_lower :: "char \<Rightarrow> char" where
  "to_lower c = (if is_upper c then char_of (of_char c + (32::nat)) else c)"

lemmas char_class_defs = is_upper_def is_lower_def is_digit_def is_alpha_def is_alnum_def
  is_xdigit_def is_space_def

text \<open>\<open>std::to_string\<close> on an unsigned value.\<close>

fun to_string :: "nat \<Rightarrow> string" where
  "to_string n = (if n < 10 then [char_of (48 + n)] else to_string (n div 10) @ [char_of (48 + n mod 10)])"

declare to_string.simps [simp del]

text \<open>The value of a run of decimal digits.\<close>

definition digit_val :: "char \<Rightarrow> nat" where
  "digit_val c = of_char c - 48"

definition decimal_val :: "string \<Rightarrow> nat" where
  "decimal_val ds = foldl (\<lambda>v c. 10 * v + digit_val c) 0 ds"

lemma digit_char [simp]:
  assumes "n < 10"
  shows "digit_val (char_of (48 + n)) = n" and "is_digit (char_of (48 + n))"
  using assms by (auto simp: digit_val_def is_digit_def less_eq_char_def)

lemma decimal_val_to_string [simp]: "decimal_val (to_string n) = n"
proof (induction n rule: to_string.induct)
  case (1 n)
  show ?case
  proof (cases "n < 10")
    case True
    then show ?thesis by (simp add: to_string.simps [of n] decimal_val_def)
  next
    case False
    then have "decimal_val (to_string n) = 10 * decimal_val (to_string (n div 10)) + n mod 10"
      by (simp add: to_string.simps [of n] decimal_val_def)
    then show ?thesis using 1 False by simp
  qed
qed

lemma to_string_digits: "\<forall>c \<in> set (to_string n). is_digit c"
proof (induction n rule: to_string.induct)
  case (1 n)
  then show ?case by (cases "n < 10") (auto simp: to_string.simps [of n])
qed

lemma to_string_inject [simp]: "to_string m = to_string n \<longleftrightarrow> m = n"
  by (metis decimal_val_to_string)

section \<open>Strings\<close>

text \<open>\<open>boost::algorithm::join\<close>.\<close>

fun join :: "string \<Rightarrow> string list \<Rightarrow> string" where
  "join sep [] = []"
| "join sep [x] = x"
| "join sep (x # y # xs) = x @ sep @ join sep (y # xs)"

lemma join_Cons: "xs \<noteq> [] \<Longrightarrow> join sep (x # xs) = x @ sep @ join sep xs"
  by (cases xs) simp_all

text \<open>\<open>boost::split\<close> on one separator character: \<open>n\<close> separators give \<open>n + 1\<close> tokens.\<close>

fun split_on :: "char \<Rightarrow> string \<Rightarrow> string list" where
  "split_on c [] = [[]]"
| "split_on c (x # xs) =
     (if x = c then [] # split_on c xs
      else (case split_on c xs of [] \<Rightarrow> [[x]] | t # ts \<Rightarrow> (x # t) # ts))"

lemma split_on_nonempty: "split_on c xs \<noteq> []"
  by (induction xs) (auto split: list.splits)

lemma split_on_absent: "c \<notin> set xs \<Longrightarrow> split_on c xs = [xs]"
  by (induction xs) auto

lemma split_on_append: "c \<notin> set xs \<Longrightarrow> split_on c (xs @ c # ys) = xs # split_on c ys"
  by (induction xs) (auto split: list.splits)

section \<open>Ordered containers\<close>

text \<open>
  \<open>std::multimap\<close>: entries in key order, a new entry after the entries with an equal key.
  \<open>find\<close> gives the first entry of the key.
\<close>

fun mm_insert :: "'k::linorder \<Rightarrow> 'v \<Rightarrow> ('k \<times> 'v) list \<Rightarrow> ('k \<times> 'v) list" where
  "mm_insert k v [] = [(k, v)]"
| "mm_insert k v ((k', v') # m) = (if k < k' then (k, v) # (k', v') # m else (k', v') # mm_insert k v m)"

definition mm_of_list :: "('k::linorder \<times> 'v) list \<Rightarrow> ('k \<times> 'v) list" where
  "mm_of_list kvs = foldl (\<lambda>m (k, v). mm_insert k v m) [] kvs"

abbreviation mm_find :: "('k \<times> 'v) list \<Rightarrow> 'k \<Rightarrow> 'v option" where
  "mm_find \<equiv> map_of"

lemma mset_mm_insert: "mset (mm_insert k v m) = add_mset (k, v) (mset m)"
  by (induction m) auto

lemma set_mm_insert [simp]: "set (mm_insert k v m) = insert (k, v) (set m)"
  using mset_mm_insert [of k v m] by (metis set_mset_add_mset_insert set_mset_mset)

lemma mset_foldl_mm_insert:
  "mset (foldl (\<lambda>m (k, v). mm_insert k v m) m kvs) = mset m + mset kvs"
  by (induction kvs arbitrary: m) (auto simp: mset_mm_insert)

lemma mset_mm_of_list: "mset (mm_of_list kvs) = mset kvs"
  by (simp add: mm_of_list_def mset_foldl_mm_insert)

lemma set_mm_of_list [simp]: "set (mm_of_list kvs) = set kvs"
  by (metis mset_mm_of_list set_mset_mset)

section \<open>Stable sorting by a comparator\<close>

text \<open>
  \<open>std::stable_sort\<close> with a comparator \<open>lt\<close>, as insertion from the right: an element is placed
  before the elements it is not greater than, so equivalent elements keep their order.
\<close>

fun stable_insert :: "('a \<Rightarrow> 'a \<Rightarrow> bool) \<Rightarrow> 'a \<Rightarrow> 'a list \<Rightarrow> 'a list" where
  "stable_insert lt x [] = [x]"
| "stable_insert lt x (y # ys) = (if lt y x then y # stable_insert lt x ys else x # y # ys)"

definition stable_sort :: "('a \<Rightarrow> 'a \<Rightarrow> bool) \<Rightarrow> 'a list \<Rightarrow> 'a list" where
  "stable_sort lt xs = foldr (stable_insert lt) xs []"

lemma mset_stable_insert [simp]: "mset (stable_insert lt x xs) = add_mset x (mset xs)"
  by (induction xs) auto

lemma mset_stable_sort [simp]: "mset (stable_sort lt xs) = mset xs"
  by (induction xs) (auto simp: stable_sort_def)

lemma set_stable_sort [simp]: "set (stable_sort lt xs) = set xs"
  by (metis mset_stable_sort set_mset_mset)

lemma set_stable_insert [simp]: "set (stable_insert lt x xs) = insert x (set xs)"
  by (induction xs) auto

text \<open>
  What \<open>std::stable_sort\<close> requires of its comparator, and what it promises for one that meets the
  requirement: sorted, and every class of equivalent elements in its original order.
\<close>

locale strict_weak_order =
  fixes lt :: "'a \<Rightarrow> 'a \<Rightarrow> bool"
  assumes irreflexive: "\<not> lt x x"
    and transitive: "lt x y \<Longrightarrow> lt y z \<Longrightarrow> lt x z"
    and incomparable_transitive:
      "\<not> lt x y \<Longrightarrow> \<not> lt y x \<Longrightarrow> \<not> lt y z \<Longrightarrow> \<not> lt z y \<Longrightarrow> \<not> lt x z \<and> \<not> lt z x"
begin

lemma negatively_transitive: "\<not> lt y x \<Longrightarrow> \<not> lt z y \<Longrightarrow> \<not> lt z x"
  by (metis incomparable_transitive transitive)

lemma asymmetric: "lt x y \<Longrightarrow> \<not> lt y x"
  using irreflexive transitive by blast

lemma sorted_stable_insert:
  "sorted_wrt (\<lambda>a b. \<not> lt b a) xs \<Longrightarrow> sorted_wrt (\<lambda>a b. \<not> lt b a) (stable_insert lt x xs)"
proof (induction xs)
  case (Cons y ys)
  then show ?case
    by (auto dest: asymmetric) (metis negatively_transitive)
qed simp

lemma stable_sort_sorted: "sorted_wrt (\<lambda>a b. \<not> lt b a) (stable_sort lt xs)"
  by (induction xs) (auto simp: stable_sort_def sorted_stable_insert)

text \<open>The elements equivalent to a given one keep their relative order.\<close>

lemma filter_stable_insert:
  assumes "\<not> lt x e" "\<not> lt e x"
  shows "sorted_wrt (\<lambda>a b. \<not> lt b a) xs \<Longrightarrow>
    filter (\<lambda>a. \<not> lt a e \<and> \<not> lt e a) (stable_insert lt x xs) =
    x # filter (\<lambda>a. \<not> lt a e \<and> \<not> lt e a) xs"
proof (induction xs)
  case Nil
  then show ?case using assms by simp
next
  case (Cons y ys)
  show ?case
  proof (cases "lt y x")
    case True
    then have "\<not> (\<not> lt y e \<and> \<not> lt e y)" using assms incomparable_transitive by blast
    then show ?thesis using True Cons by auto
  next
    case False
    then show ?thesis using assms by simp
  qed
qed

lemma filter_stable_insert_other:
  assumes "lt x e \<or> lt e x"
  shows "filter (\<lambda>a. \<not> lt a e \<and> \<not> lt e a) (stable_insert lt x xs) =
    filter (\<lambda>a. \<not> lt a e \<and> \<not> lt e a) xs"
  using assms by (induction xs) auto

lemma stable_sort_stable:
  "filter (\<lambda>a. \<not> lt a e \<and> \<not> lt e a) (stable_sort lt xs) = filter (\<lambda>a. \<not> lt a e \<and> \<not> lt e a) xs"
proof (induction xs)
  case Nil
  then show ?case by (simp add: stable_sort_def)
next
  case (Cons x xs)
  have step: "stable_sort lt (x # xs) = stable_insert lt x (stable_sort lt xs)"
    by (simp add: stable_sort_def)
  show ?case
    using Cons filter_stable_insert [OF _ _ stable_sort_sorted] filter_stable_insert_other
    by (cases "\<not> lt x e \<and> \<not> lt e x") (auto simp: step)
qed

end

end
