(* ===== verification/X3.thy ===== *)
theory X3
  imports Prelude
begin

text \<open>
  The grammars of \<open>uri.cpp\<close>, \<open>http/utils.cpp\<close> and \<open>PAM.cpp\<close> are written with the operators of
  Boost.Spirit X3. This theory fixes the meaning of those operators as the X3 manual documents it:
  a parser matches a prefix of its input and yields an attribute and the rest, or fails and leaves the
  input where it was, or throws an \<open>expectation_failure\<close> (operator \<open>>\<close>), which no enclosing
  alternative, option or repetition catches. The failure carries the position \<open>where()\<close>, here the
  rest of the input at that point, and the parser \<open>which()\<close> that was expected.
\<close>

datatype token =
    TRule string        \<comment> \<open>a named \<open>x3::rule\<close>\<close>
  | TString string      \<comment> \<open>\<open>x3::lit("...")\<close>\<close>
  | TChar char          \<comment> \<open>a one-character literal\<close>
  | TEoi                \<comment> \<open>\<open>x3::eoi\<close>\<close>
  | TParser string      \<comment> \<open>an unnamed parser expression, by its source text\<close>

datatype 'a presult =
    Match 'a string
  | NoMatch
  | Expected string token

type_synonym 'a parser = "string \<Rightarrow> 'a presult"

section \<open>Operators\<close>

text \<open>\<open>a >> b\<close>, with the attribute of \<open>a\<close> passed on.\<close>

definition pbind :: "'a parser \<Rightarrow> ('a \<Rightarrow> 'b parser) \<Rightarrow> 'b parser" where
  "pbind p f s = (case p s of Match a r \<Rightarrow> f a r | NoMatch \<Rightarrow> NoMatch | Expected r t \<Rightarrow> Expected r t)"

definition pthen :: "'a parser \<Rightarrow> 'b parser \<Rightarrow> 'b parser" where
  "pthen p q = pbind p (\<lambda>_. q)"

text \<open>\<open>x3::attr(a)\<close> and \<open>x3::eps\<close>.\<close>

definition pattr :: "'a \<Rightarrow> 'a parser" where
  "pattr a s = Match a s"

text \<open>\<open>a > b\<close> is \<open>a >> x3::expect[b]\<close>.\<close>

definition pexpect :: "token \<Rightarrow> 'a parser \<Rightarrow> 'a parser" where
  "pexpect t p s = (case p s of NoMatch \<Rightarrow> Expected s t | x \<Rightarrow> x)"

text \<open>\<open>a | b\<close>, \<open>-a\<close>, \<open>&a\<close>, \<open>!a\<close> and \<open>a - b\<close>.\<close>

definition palt :: "'a parser \<Rightarrow> 'a parser \<Rightarrow> 'a parser" where
  "palt p q s = (case p s of NoMatch \<Rightarrow> q s | x \<Rightarrow> x)"

definition popt :: "'a parser \<Rightarrow> 'a option parser" where
  "popt p s = (case p s of Match a r \<Rightarrow> Match (Some a) r | NoMatch \<Rightarrow> Match None s | Expected r t \<Rightarrow> Expected r t)"

definition pand :: "'a parser \<Rightarrow> unit parser" where
  "pand p s = (case p s of Match a r \<Rightarrow> Match () s | NoMatch \<Rightarrow> NoMatch | Expected r t \<Rightarrow> Expected r t)"

definition pnot :: "'a parser \<Rightarrow> unit parser" where
  "pnot p s = (case p s of Match a r \<Rightarrow> NoMatch | NoMatch \<Rightarrow> Match () s | Expected r t \<Rightarrow> Expected r t)"

definition pdiff :: "'a parser \<Rightarrow> 'b parser \<Rightarrow> 'a parser" where
  "pdiff p q s = (case q s of Match a r \<Rightarrow> NoMatch | NoMatch \<Rightarrow> p s | Expected r t \<Rightarrow> Expected r t)"

text \<open>A semantic action: \<open>None\<close> is \<open>_pass(ctx) = false\<close>.\<close>

definition paction :: "('a \<Rightarrow> 'b option) \<Rightarrow> 'a parser \<Rightarrow> 'b parser" where
  "paction f p = pbind p (\<lambda>a s. case f a of Some b \<Rightarrow> Match b s | None \<Rightarrow> NoMatch)"

definition pmap :: "('a \<Rightarrow> 'b) \<Rightarrow> 'a parser \<Rightarrow> 'b parser" where
  "pmap f p = pbind p (\<lambda>a. pattr (f a))"

section \<open>Primitive parsers\<close>

fun pchar :: "(char \<Rightarrow> bool) \<Rightarrow> char parser" where
  "pchar P [] = NoMatch"
| "pchar P (c # s) = (if P c then Match c s else NoMatch)"

fun plit :: "string \<Rightarrow> unit parser" where
  "plit [] s = Match () s"
| "plit (c # cs) [] = NoMatch"
| "plit (c # cs) (x # s) = (if c = x then plit cs s else NoMatch)"

definition pstring :: "string \<Rightarrow> string parser" where
  "pstring l = pmap (\<lambda>_. l) (plit l)"

fun peoi :: "unit parser" where
  "peoi [] = Match () []"
| "peoi (c # s) = NoMatch"

section \<open>Repetition\<close>

text \<open>
  \<open>*a\<close>. X3 repeats the body until it fails and would not return for a body that matches the empty
  string; every body of the source consumes input (see \<open>x3_consuming\<close>), and for those the length test
  is always true (\<open>pstar_unfold\<close>).
\<close>

function pstar :: "'a parser \<Rightarrow> 'a list parser" where
  "pstar p s = (case p s of
       Match a r \<Rightarrow>
         (if length r < length s
          then (case pstar p r of Match as r' \<Rightarrow> Match (a # as) r' | NoMatch \<Rightarrow> NoMatch | Expected r' t \<Rightarrow> Expected r' t)
          else Match [] s)
     | NoMatch \<Rightarrow> Match [] s
     | Expected r t \<Rightarrow> Expected r t)"
  by pat_completeness auto
termination
  by (relation "measure (\<lambda>(p, s). length s)") auto

declare pstar.simps [simp del]

definition pplus :: "'a parser \<Rightarrow> 'a list parser" where
  "pplus p = pbind p (\<lambda>a. pmap ((#) a) (pstar p))"

text \<open>\<open>a % b\<close>.\<close>

definition plist :: "'a parser \<Rightarrow> 'b parser \<Rightarrow> 'a list parser" where
  "plist p sep = pbind p (\<lambda>a. pmap ((#) a) (pstar (pthen sep p)))"

lemma pstar_total: "pstar p s \<noteq> NoMatch"
  by (induction p s rule: pstar.induct) (subst pstar.simps, auto split: presult.splits)

text \<open>\<open>x3::repeat(n)[a]\<close> and \<open>x3::repeat(n, x3::inf)[a]\<close>.\<close>

fun prepeat :: "nat \<Rightarrow> 'a parser \<Rightarrow> 'a list parser" where
  "prepeat 0 p = pattr []"
| "prepeat (Suc n) p = pbind p (\<lambda>a. pmap ((#) a) (prepeat n p))"

definition prepeat_inf :: "nat \<Rightarrow> 'a parser \<Rightarrow> 'a list parser" where
  "prepeat_inf n p = pbind (prepeat n p) (\<lambda>as. pmap ((@) as) (pstar p))"

text \<open>\<open>x3::repeat(m, n)[a]\<close> with \<open>m = 0\<close>: at most \<open>n\<close> times.\<close>

fun pupto :: "nat \<Rightarrow> 'a parser \<Rightarrow> 'a list parser" where
  "pupto 0 p = pattr []"
| "pupto (Suc n) p = palt (pbind p (\<lambda>a. pmap ((#) a) (pupto n p))) (pattr [])"

text \<open>\<open>x3::symbols\<close>: the longest entry that is a prefix of the input.\<close>

fun psymbols :: "(string \<times> 'a) list \<Rightarrow> 'a parser" where
  "psymbols [] s = NoMatch"
| "psymbols ((k, v) # tab) s =
     (case plit k s of
        Match u r \<Rightarrow> (case psymbols tab s of Match v' r' \<Rightarrow> if length r' < length r then Match v' r' else Match v r
                                       | x \<Rightarrow> Match v r)
      | x \<Rightarrow> psymbols tab s)"

lemmas x3_defs = pbind_def pthen_def pattr_def pexpect_def palt_def popt_def pand_def pnot_def
  pdiff_def paction_def pmap_def pstring_def pplus_def plist_def prepeat_inf_def

section \<open>What every parser keeps\<close>

text \<open>
  The law a client of a grammar relies on: a match consumes a prefix of the input, and an expectation
  failure points into the input.
\<close>

locale x3_parser =
  fixes p :: "'a parser"
  assumes match_suffix: "p s = Match a r \<Longrightarrow> suffix r s"
    and expected_suffix: "p s = Expected r t \<Longrightarrow> suffix r s"
begin

lemma match_length: "p s = Match a r \<Longrightarrow> length r \<le> length s"
  by (drule match_suffix) (rule suffix_length_le)

lemma expected_length: "p s = Expected r t \<Longrightarrow> length r \<le> length s"
  by (drule expected_suffix) (rule suffix_length_le)

end

locale x3_consuming = x3_parser +
  assumes consumes: "p s = Match a r \<Longrightarrow> length r < length s"
begin

text \<open>A consuming body is repeated exactly as X3's loop does.\<close>

lemma pstar_unfold:
  "pstar p s = palt (pbind p (\<lambda>a. pmap ((#) a) (pstar p))) (pattr []) s"
proof (cases "p s")
  case (Match a r)
  then have "length r < length s" by (rule consumes)
  with Match show ?thesis
    by (simp add: pstar.simps [of p s] x3_defs pstar_total split: presult.splits)
qed (simp_all add: pstar.simps [of p s] x3_defs)

end


section \<open>Results of the operators\<close>

lemma pbind_Match_iff: "pbind p f s = Match b r \<longleftrightarrow> (\<exists>a q. p s = Match a q \<and> f a q = Match b r)"
  by (auto simp: pbind_def split: presult.splits)

lemma pbind_Expected_iff:
  "pbind p f s = Expected r t \<longleftrightarrow> p s = Expected r t \<or> (\<exists>a q. p s = Match a q \<and> f a q = Expected r t)"
  by (auto simp: pbind_def split: presult.splits)

lemma pmap_Match_iff: "pmap f p s = Match b r \<longleftrightarrow> (\<exists>a. p s = Match a r \<and> b = f a)"
  by (auto simp: pmap_def pbind_Match_iff pattr_def)

lemma pmap_Expected_iff [simp]: "pmap f p s = Expected r t \<longleftrightarrow> p s = Expected r t"
  by (auto simp: pmap_def pbind_Expected_iff pattr_def)

lemma pbind_cong_at:
  assumes "p s = p' s" and "\<And>a r. p' s = Match a r \<Longrightarrow> f a r = g a r"
  shows "pbind p f s = pbind p' g s"
  using assms by (simp add: pbind_def split: presult.splits)

lemma pmap_cong_at: "p s = q s \<Longrightarrow> pmap f p s = pmap f q s"
  by (simp add: pmap_def pbind_def)

lemma popt_cong_at: "p s = q s \<Longrightarrow> popt p s = popt q s"
  by (simp add: popt_def)

lemma pexpect_cong_at: "p s = q s \<Longrightarrow> pexpect t p s = pexpect t q s"
  by (simp add: pexpect_def)

lemma pthen_cong_at:
  assumes "\<And>a r. p s = Match a r \<Longrightarrow> q r = q' r"
  shows "pthen p q s = pthen p q' s"
  using assms by (simp add: pthen_def pbind_def split: presult.splits)

section \<open>Closure under the operators\<close>

lemma x3_parserI:
  assumes "\<And>s a r. p s = Match a r \<Longrightarrow> suffix r s" and "\<And>s r t. p s = Expected r t \<Longrightarrow> suffix r s"
  shows "x3_parser p"
  using assms by unfold_locales

lemma x3_consumingI:
  assumes "x3_parser p" and "\<And>s a r. p s = Match a r \<Longrightarrow> length r < length s"
  shows "x3_consuming p"
  using assms by (simp add: x3_consuming_def x3_consuming_axioms_def)

lemmas x3_lawD = x3_parser.match_suffix x3_parser.expected_suffix
lemmas x3_consumingD = x3_consuming.axioms(1) x3_consuming.consumes

lemma x3_consuming_parser: "x3_consuming p \<Longrightarrow> x3_parser p"
  by (rule x3_consuming.axioms(1))

lemma x3_parser_pattr [x3_intros]: "x3_parser (pattr a)"
  by (rule x3_parserI) (auto simp: pattr_def)

lemma x3_parser_pbind:
  assumes "x3_parser p" and "\<And>a. x3_parser (f a)"
  shows "x3_parser (pbind p f)"
proof (rule x3_parserI)
  fix s a r
  assume "pbind p f s = Match a r"
  then obtain b q where "p s = Match b q" "f b q = Match a r"
    by (auto simp: pbind_def split: presult.splits)
  then show "suffix r s" using assms by (metis suffix_order.trans x3_parser.match_suffix)
next
  fix s r t
  assume "pbind p f s = Expected r t"
  then show "suffix r s" using assms
    by (auto simp: pbind_def split: presult.splits
        dest: x3_parser.expected_suffix x3_parser.match_suffix intro: suffix_order.trans)
qed

lemma x3_parser_pthen [x3_intros]: "x3_parser p \<Longrightarrow> x3_parser q \<Longrightarrow> x3_parser (pthen p q)"
  by (simp add: pthen_def x3_parser_pbind)

lemma x3_parser_pmap [x3_intros]: "x3_parser p \<Longrightarrow> x3_parser (pmap f p)"
  by (simp add: pmap_def x3_parser_pbind x3_parser_pattr)

lemma x3_parser_paction [x3_intros]: "x3_parser p \<Longrightarrow> x3_parser (paction f p)"
  unfolding paction_def
  by (rule x3_parser_pbind) (auto intro!: x3_parserI split: option.splits)

lemma x3_parser_pexpect [x3_intros]: "x3_parser p \<Longrightarrow> x3_parser (pexpect t p)"
  by (rule x3_parserI) (auto simp: pexpect_def split: presult.splits dest: x3_lawD)

lemma x3_parser_palt [x3_intros]: "x3_parser p \<Longrightarrow> x3_parser q \<Longrightarrow> x3_parser (palt p q)"
  by (rule x3_parserI) (auto simp: palt_def split: presult.splits dest: x3_lawD)

lemma x3_parser_popt [x3_intros]: "x3_parser p \<Longrightarrow> x3_parser (popt p)"
  by (rule x3_parserI) (auto simp: popt_def split: presult.splits dest: x3_lawD)

lemma x3_parser_pand [x3_intros]: "x3_parser p \<Longrightarrow> x3_parser (pand p)"
  by (rule x3_parserI) (auto simp: pand_def split: presult.splits dest: x3_lawD)

lemma x3_parser_pnot [x3_intros]: "x3_parser p \<Longrightarrow> x3_parser (pnot p)"
  by (rule x3_parserI) (auto simp: pnot_def split: presult.splits dest: x3_lawD)

lemma x3_parser_pdiff [x3_intros]: "x3_parser p \<Longrightarrow> x3_parser q \<Longrightarrow> x3_parser (pdiff p q)"
  by (rule x3_parserI) (auto simp: pdiff_def split: presult.splits dest: x3_lawD)

lemma pchar_Match_iff: "pchar P s = Match c r \<longleftrightarrow> s = c # r \<and> P c"
  by (cases s) auto

lemma pchar_Expected [simp]: "pchar P s \<noteq> Expected r t"
  by (cases s) auto

lemma x3_consuming_pchar [x3_intros]: "x3_consuming (pchar P)"
  by (intro x3_consumingI x3_parserI) (auto simp: pchar_Match_iff suffix_ConsI)

lemma x3_consuming_fail [x3_intros]: "x3_consuming (\<lambda>s. NoMatch)"
  by (intro x3_consumingI x3_parserI) auto

lemmas x3_parser_pchar [x3_intros] = x3_consuming_pchar [THEN x3_consuming_parser]

lemma plit_Match_iff: "plit l s = Match u r \<longleftrightarrow> s = l @ r"
  by (induction l s rule: plit.induct) auto

lemma plit_Expected [simp]: "plit l s \<noteq> Expected r t"
  by (induction l s rule: plit.induct) auto

lemma plit_append [simp]: "plit l (l @ r) = Match () r"
  by (simp add: plit_Match_iff)

lemma x3_parser_plit [x3_intros]: "x3_parser (plit l)"
  by (rule x3_parserI) (auto simp: plit_Match_iff suffix_def)

lemma x3_parser_pstring [x3_intros]: "x3_parser (pstring l)"
  by (simp add: pstring_def x3_parser_pmap x3_parser_plit)

lemma x3_parser_peoi [x3_intros]: "x3_parser peoi"
proof (rule x3_parserI)
  fix s a r assume "peoi s = Match a r" then show "suffix r s" by (cases s) auto
next
  fix s r t assume "peoi s = Expected r t" then show "suffix r s" by (cases s) auto
qed

lemma pstar_suffix:
  assumes "x3_parser p"
  shows "(pstar p s = Match as r \<longrightarrow> suffix r s) \<and> (pstar p s = Expected r t \<longrightarrow> suffix r s)"
proof (induction s arbitrary: as r rule: measure_induct_rule [of length])
  case (less s)
  show ?case
  proof (cases "p s")
    case (Match a q)
    have "suffix q s" using Match assms by (auto dest: x3_lawD)
    with less [of q] Match show ?thesis
      by (cases "pstar p q")
        (auto simp: pstar.simps [of p s] dest!: less [of q] intro: suffix_order.trans split: if_splits)
  next
    case NoMatch
    then show ?thesis by (simp add: pstar.simps [of p s])
  next
    case (Expected q t')
    then show ?thesis using assms by (auto simp: pstar.simps [of p s] dest: x3_lawD)
  qed
qed

lemma x3_parser_pstar [x3_intros]: "x3_parser p \<Longrightarrow> x3_parser (pstar p)"
  by (rule x3_parserI) (use pstar_suffix in blast)+

lemma x3_parser_pplus [x3_intros]: "x3_parser p \<Longrightarrow> x3_parser (pplus p)"
  by (simp add: pplus_def x3_parser_pbind x3_parser_pmap x3_parser_pstar)

lemma x3_parser_plist [x3_intros]: "x3_parser p \<Longrightarrow> x3_parser q \<Longrightarrow> x3_parser (plist p q)"
  by (simp add: plist_def x3_parser_pbind x3_parser_pmap x3_parser_pstar x3_parser_pthen)

lemma x3_parser_prepeat [x3_intros]: "x3_parser p \<Longrightarrow> x3_parser (prepeat n p)"
  by (induction n) (simp_all add: x3_parser_pattr x3_parser_pbind x3_parser_pmap)

lemma x3_parser_prepeat_inf [x3_intros]: "x3_parser p \<Longrightarrow> x3_parser (prepeat_inf n p)"
  by (simp add: prepeat_inf_def x3_parser_pbind x3_parser_pmap x3_parser_pstar x3_parser_prepeat)

lemma x3_parser_pupto [x3_intros]: "x3_parser p \<Longrightarrow> x3_parser (pupto n p)"
  by (induction n) (simp_all add: x3_parser_pattr x3_parser_pbind x3_parser_pmap x3_parser_palt)

lemma psymbols_cases:
  "psymbols tab s = NoMatch \<or> (\<exists>k v r. (k, v) \<in> set tab \<and> s = k @ r \<and> psymbols tab s = Match v r)"
proof (induction tab)
  case (Cons kv tab)
  obtain k v where kv: "kv = (k, v)" by fastforce
  show ?case
  proof (cases "plit k s")
    case (Match u r)
    then show ?thesis using Cons kv by (auto simp: plit_Match_iff split: presult.splits)
  qed (use Cons kv in auto)
qed simp

lemma x3_parser_psymbols [x3_intros]: "x3_parser (psymbols tab)"
proof (rule x3_parserI)
  fix s a r assume "psymbols tab s = Match a r"
  then show "suffix r s" using psymbols_cases [of tab s] by (auto simp: suffix_def)
next
  fix s r t assume "psymbols tab s = Expected r t"
  then show "suffix r s" using psymbols_cases [of tab s] by auto
qed

subsection \<open>Consumption\<close>

lemma x3_consuming_pbind:
  assumes "x3_consuming p" and "\<And>a. x3_parser (f a)"
  shows "x3_consuming (pbind p f)"
proof (rule x3_consumingI)
  show "x3_parser (pbind p f)" using assms by (simp add: x3_parser_pbind x3_consuming_parser)
  fix s a r
  assume "pbind p f s = Match a r"
  then obtain b q where "p s = Match b q" "f b q = Match a r"
    by (auto simp: pbind_def split: presult.splits)
  then show "length r < length s"
    using assms x3_consuming.consumes x3_parser.match_length by (metis order_le_less_trans)
qed

lemma x3_consuming_pbind_right:
  assumes "x3_parser p" and "\<And>a. x3_consuming (f a)"
  shows "x3_consuming (pbind p f)"
proof (rule x3_consumingI)
  show "x3_parser (pbind p f)" using assms by (simp add: x3_parser_pbind x3_consuming_parser)
  fix s a r
  assume "pbind p f s = Match a r"
  then obtain b q where "p s = Match b q" "f b q = Match a r"
    by (auto simp: pbind_def split: presult.splits)
  then show "length r < length s"
    using assms x3_consuming.consumes x3_parser.match_length by (metis order_less_le_trans)
qed

lemma x3_consuming_pthen [x3_intros]: "x3_consuming p \<Longrightarrow> x3_parser q \<Longrightarrow> x3_consuming (pthen p q)"
  by (simp add: pthen_def x3_consuming_pbind)

lemma x3_consuming_pmap [x3_intros]: "x3_consuming p \<Longrightarrow> x3_consuming (pmap f p)"
  by (simp add: pmap_def x3_consuming_pbind x3_parser_pattr)

lemma x3_consuming_pexpect [x3_intros]: "x3_consuming p \<Longrightarrow> x3_consuming (pexpect t p)"
  by (intro x3_consumingI x3_parser_pexpect)
    (auto simp: pexpect_def split: presult.splits dest: x3_consumingD)

lemma x3_consuming_palt [x3_intros]: "x3_consuming p \<Longrightarrow> x3_consuming q \<Longrightarrow> x3_consuming (palt p q)"
  by (intro x3_consumingI x3_parser_palt)
    (auto simp: palt_def split: presult.splits dest: x3_consumingD)

lemma x3_consuming_pdiff [x3_intros]: "x3_consuming p \<Longrightarrow> x3_parser q \<Longrightarrow> x3_consuming (pdiff p q)"
  by (intro x3_consumingI x3_parser_pdiff)
    (auto simp: pdiff_def split: presult.splits dest: x3_consumingD)

lemma x3_consuming_pplus [x3_intros]: "x3_consuming p \<Longrightarrow> x3_consuming (pplus p)"
  by (simp add: pplus_def x3_consuming_pbind x3_parser_pmap x3_parser_pstar x3_consuming_parser)

lemma x3_consuming_plit [x3_intros]: "l \<noteq> [] \<Longrightarrow> x3_consuming (plit l)"
  by (intro x3_consumingI x3_parser_plit) (auto simp: plit_Match_iff)

lemma x3_consuming_pstring [x3_intros]: "l \<noteq> [] \<Longrightarrow> x3_consuming (pstring l)"
  by (simp add: pstring_def x3_consuming_pmap x3_consuming_plit)

section \<open>Repetition of a character class\<close>

lemma pstar_pchar: "pstar (pchar P) s = Match (takeWhile P s) (dropWhile P s)"
proof (induction s)
  case (Cons c s)
  then show ?case by (simp add: pstar.simps [of "pchar P" "c # s"])
qed (simp add: pstar.simps)

lemma pplus_pchar:
  "pplus (pchar P) s = (if s \<noteq> [] \<and> P (hd s) then Match (takeWhile P s) (dropWhile P s) else NoMatch)"
  by (cases s) (auto simp: x3_defs pstar_pchar)

lemma prepeat_pchar_Match_iff:
  "prepeat n (pchar P) s = Match as r \<longleftrightarrow> s = as @ r \<and> length as = n \<and> list_all P as"
proof (induction n arbitrary: s as)
  case 0
  then show ?case by (auto simp: pattr_def)
next
  case (Suc n)
  show ?case
    by (cases as) (auto simp: pbind_Match_iff pmap_Match_iff pchar_Match_iff Suc)
qed

lemma prepeat_pchar_Expected [simp]: "prepeat n (pchar P) s \<noteq> Expected r t"
  by (induction n arbitrary: s) (auto simp: x3_defs split: presult.splits)

lemma palt_Match_iff: "palt p q s = Match a r \<longleftrightarrow> p s = Match a r \<or> p s = NoMatch \<and> q s = Match a r"
  by (auto simp: palt_def split: presult.splits)

lemma pexpect_Match_iff [simp]: "pexpect t p s = Match a r \<longleftrightarrow> p s = Match a r"
  by (auto simp: pexpect_def split: presult.splits)

lemma popt_Match_iff:
  "popt p s = Match a r \<longleftrightarrow> (\<exists>b. p s = Match b r \<and> a = Some b) \<or> p s = NoMatch \<and> a = None \<and> r = s"
  by (auto simp: popt_def split: presult.splits)

lemma pthen_Match_iff: "pthen p q s = Match b r \<longleftrightarrow> (\<exists>a m. p s = Match a m \<and> q m = Match b r)"
  by (auto simp: pthen_def pbind_Match_iff)

lemma pattr_Match_iff [simp]: "pattr a s = Match b r \<longleftrightarrow> b = a \<and> r = s"
  by (auto simp: pattr_def)

lemma peoi_Match_iff [simp]: "peoi s = Match u r \<longleftrightarrow> s = [] \<and> r = []"
  by (cases s) auto

section \<open>Printing and parsing repeated items\<close>

text \<open>
  If the body inverts an encoding of each item whenever the rest of the input is in the follow set
  \<open>F\<close>, repetition inverts the concatenated encodings.
\<close>

lemma pstar_print:
  assumes "\<forall>x \<in> set xs. \<forall>r. F r \<longrightarrow> p (enc x @ r) = Match x r"
    and "\<forall>x \<in> set xs. enc x \<noteq> []" and "\<forall>x \<in> set xs. \<forall>r. F (enc x @ r)"
    and "F rest" and "p rest = NoMatch"
  shows "pstar p (concat (map enc xs) @ rest) = Match xs rest"
  using assms
proof (induction xs)
  case Nil
  then show ?case by (simp add: pstar.simps)
next
  case (Cons x xs)
  let ?r = "concat (map enc xs) @ rest"
  have "F ?r" using Cons.prems by (cases xs) auto
  then have "p (enc x @ ?r) = Match x ?r" using Cons.prems(1) by simp
  then show ?case using Cons by (simp add: pstar.simps [of p "enc x @ ?r"])
qed

lemma plist_print:
  assumes "\<forall>x \<in> set (y # xs). \<forall>r. F r \<longrightarrow> p (enc x @ r) = Match x r"
    and "sep \<noteq> []" and "\<forall>r. F (sep @ r)" and "F rest" and "plit sep rest = NoMatch"
  shows "plist p (plit sep) (enc y @ concat (map (\<lambda>x. sep @ enc x) xs) @ rest) = Match (y # xs) rest"
proof -
  let ?r = "concat (map (\<lambda>x. sep @ enc x) xs) @ rest"
  have "pstar (pthen (plit sep) p) ?r = Match xs rest"
    by (rule pstar_print [where F = F]) (use assms in \<open>auto simp: pthen_def pbind_def\<close>)
  moreover have "F ?r" using assms by (cases xs) auto
  ultimately show ?thesis using assms(1) by (simp add: plist_def pbind_def pmap_def pattr_def)
qed

lemma pstar_all:
  assumes "\<And>s a r. p s = Match a r \<Longrightarrow> P a"
  shows "pstar p s = Match as r \<Longrightarrow> list_all P as"
proof (induction s arbitrary: as rule: measure_induct_rule [of length])
  case (less s)
  then show ?case
    by (subst (asm) pstar.simps) (auto split: presult.splits if_splits dest: assms)
qed

lemma plist_all:
  assumes "\<And>s a r. p s = Match a r \<Longrightarrow> P a" and "plist p sep s = Match as r"
  shows "as \<noteq> [] \<and> list_all P as"
proof -
  obtain a q bs where "p s = Match a q" "pstar (pthen sep p) q = Match bs r" "as = a # bs"
    using assms(2) by (auto simp: plist_def pbind_Match_iff pmap_Match_iff)
  moreover have "list_all P bs"
    by (rule pstar_all [OF _ calculation(2)]) (auto simp: pthen_Match_iff intro: assms(1))
  ultimately show ?thesis using assms(1) by auto
qed

lemma peoi_nonempty: "s \<noteq> [] \<Longrightarrow> peoi s = NoMatch"
  by (cases s) auto

lemmas x3_match_iffs = pbind_Match_iff pmap_Match_iff palt_Match_iff popt_Match_iff pthen_Match_iff
  pchar_Match_iff plit_Match_iff

end
