(* ===== verification/Exceptions.thy ===== *)
theory Exceptions
  imports Prelude
begin

text \<open>
  \<open>restconf/Exceptions.h\<close> and \<open>Exceptions.cpp\<close>: the RESTCONF error response and the syntax errors
  of the URI parsers, which carry the position and the expected token in the message and as a
  structured \<open>error-info\<close> payload; \<open>auth/Error.h\<close>; and the exceptions that cross the model.
\<close>

record error_info =
  containerName :: string
  leafs :: "(string \<times> string) list"

record error_response =
  code :: int
  errorTag :: string
  errorType :: string
  errorMessage :: string
  errorPath :: "string option"
  errorInfo :: "error_info option"

definition ErrorResponse :: "int \<Rightarrow> string \<Rightarrow> string \<Rightarrow> string \<Rightarrow> string option \<Rightarrow> error_response" where
  "ErrorResponse c type tag message path =
     \<lparr>code = c, errorTag = tag, errorType = type, errorMessage = message, errorPath = path, errorInfo = None\<rparr>"

text \<open>\<open>ErrorResponse::what\<close>; the C string ends at the first NUL.\<close>

definition c_str :: "string \<Rightarrow> string" where
  "c_str s = takeWhile (\<lambda>c. c \<noteq> CHR 0x00) s"

definition error_response_what :: "error_response \<Rightarrow> string" where
  "error_response_what e = c_str (errorMessage e)"

definition constructErrorMessage :: "string \<Rightarrow> string" where
  "constructErrorMessage uriSegment = ''Syntax error in URI ('' @ uriSegment @ '')''"

definition constructErrorMessageAt :: "string \<Rightarrow> nat \<Rightarrow> string \<Rightarrow> string" where
  "constructErrorMessageAt uriSegment position expectedToken =
     constructErrorMessage uriSegment @ '' at position '' @ to_string position @ '': expected '' @ expectedToken"

definition UriSyntaxError :: "string \<Rightarrow> error_response" where
  "UriSyntaxError uriSegment =
     ErrorResponse 400 ''protocol'' ''invalid-value'' (constructErrorMessage uriSegment) None"

definition UriSyntaxErrorAt :: "string \<Rightarrow> nat \<Rightarrow> string \<Rightarrow> error_response" where
  "UriSyntaxErrorAt uriSegment position expectedToken =
     (ErrorResponse 400 ''protocol'' ''invalid-value''
        (constructErrorMessageAt uriSegment position expectedToken) None)
     \<lparr>errorInfo := Some \<lparr>containerName = ''uri-error'',
        leafs = [(''offset'', to_string position), (''expected-token'', expectedToken)]\<rparr>\<rparr>"

definition UriPathSyntaxError :: error_response where
  "UriPathSyntaxError = UriSyntaxError ''path''"

definition UriPathSyntaxErrorAt :: "nat \<Rightarrow> string \<Rightarrow> error_response" where
  "UriPathSyntaxErrorAt position expectedToken = UriSyntaxErrorAt ''path'' position expectedToken"

definition UriQuerySyntaxError :: error_response where
  "UriQuerySyntaxError = UriSyntaxError ''query''"

definition UriQuerySyntaxErrorAt :: "nat \<Rightarrow> string \<Rightarrow> error_response" where
  "UriQuerySyntaxErrorAt position expectedToken = UriSyntaxErrorAt ''query'' position expectedToken"

lemmas syntax_error_defs = ErrorResponse_def UriSyntaxError_def UriSyntaxErrorAt_def
  UriPathSyntaxError_def UriPathSyntaxErrorAt_def UriQuerySyntaxError_def UriQuerySyntaxErrorAt_def

text \<open>\<open>auth::Error\<close>: the message and, after a failed PAM transaction, the delay in microseconds.\<close>

record auth_error =
  auth_message :: string
  auth_delay :: "nat option"

text \<open>The exceptions of the modelled code. libyang's exceptions carry a message and, for the subclass
  \<open>ErrorWithCode\<close>, a code (the codes that the source tells apart). \<open>Undefined\<close> marks undefined behaviour (a dereferenced
  empty optional, an index past the end), so that its absence is a statement of the model.\<close>

datatype ly_error_code = Ly_ValidationFailure | Ly_Other

datatype ly_error = LyError "ly_error_code option" string

datatype sr_error_code = Unauthorized | NotFound | ItemAlreadyExists | ValidationFailed | InvalidArgument | Sr_Other

datatype exn =
    Error_Response error_response
  | Logic_Error string
  | Runtime_Error string
  | Invalid_Argument string
  | Auth_Error auth_error
  | Libyang_Error ly_error
  | Sysrepo_Error sr_error_code string
  | Undefined string

primrec ly_what :: "ly_error \<Rightarrow> string" where
  "ly_what (LyError c w) = w"

text \<open>Exceptions a request handler is prepared for: everything but a broken internal assumption.\<close>

fun is_error_response :: "exn \<Rightarrow> bool" where
  "is_error_response (Error_Response e) = True"
| "is_error_response _ = False"

text \<open>\<open>throw ErrorResponse(code, type, tag, message, path)\<close>.\<close>

definition throw_error_at :: "int \<Rightarrow> string \<Rightarrow> string \<Rightarrow> string \<Rightarrow> string option \<Rightarrow> exn + 'a" where
  "throw_error_at c type tag message path = Inl (Error_Response (ErrorResponse c type tag message path))"

definition throw_error :: "int \<Rightarrow> string \<Rightarrow> string \<Rightarrow> string \<Rightarrow> exn + 'a" where
  "throw_error c type tag message = throw_error_at c type tag message None"

lemma throw_error_Inr [simp]: "throw_error c t g m \<noteq> Inr a" "throw_error_at c t g m p \<noteq> Inr a"
  by (simp_all add: throw_error_def throw_error_at_def)

lemma throw_error_Inl [simp]:
  "throw_error c t g m = Inl e \<longleftrightarrow> e = Error_Response (ErrorResponse c t g m None)"
  "throw_error_at c t g m p = Inl e \<longleftrightarrow> e = Error_Response (ErrorResponse c t g m p)"
  by (auto simp: throw_error_def throw_error_at_def)

lemma if_throw_Inr:
  "(if b then throw_error c t g m else r) = Inr a \<longleftrightarrow> \<not> b \<and> r = Inr a"
  by simp

text \<open>Outcomes whose only exceptions are error responses.\<close>

definition only_errors :: "exn + 'a \<Rightarrow> bool" where
  "only_errors r \<longleftrightarrow> (case r of Inl e \<Rightarrow> is_error_response e | Inr _ \<Rightarrow> True)"

lemma only_errors_simps [simp]:
  "only_errors (Inr a)" "only_errors (Inl e) = is_error_response e"
  "only_errors (throw_error c t g m)" "only_errors (throw_error_at c t g m p)"
  by (simp_all add: only_errors_def throw_error_def throw_error_at_def)

lemma only_errors_bindE:
  "only_errors m \<Longrightarrow> (\<And>a. m = Inr a \<Longrightarrow> only_errors (f a)) \<Longrightarrow> only_errors (bindE m f)"
  by (cases m) auto

lemma only_errors_foldE:
  "(\<And>s x. x \<in> set xs \<Longrightarrow> only_errors (f s x)) \<Longrightarrow> only_errors (foldE f s xs)"
  by (induction xs arbitrary: s) (auto intro!: only_errors_bindE)

lemma c_str_idem [simp]: "c_str (c_str s) = c_str s"
  by (simp add: c_str_def)

lemma c_str_id [simp]: "CHR 0x00 \<notin> set s \<Longrightarrow> c_str s = s"
  by (simp add: c_str_def takeWhile_eq_all_conv) metis

end
