(* ===== verification/Uri_Grammar.thy ===== *)
theory Uri_Grammar
  imports X3 Exceptions
begin

text \<open>
  \<open>restconf/uri.cpp\<close>, \<open>uri.h\<close>, \<open>uri_impl.h\<close>: the data types of a parsed URI, the grammars of
  resource paths, stream paths and YANG module paths, and the function \<open>parse\<close> that runs a grammar
  over the whole input and turns its failure into a syntax error. The description that X3 gives of a
  parser that is not a named rule (\<open>x3::what\<close>) is the parameter \<open>what\<close>.
\<close>

section \<open>Data\<close>

record api_identifier =
  ai_prefix :: "string option"
  ai_identifier :: string

definition ApiIdentifier :: "string option \<Rightarrow> string \<Rightarrow> api_identifier" where
  "ApiIdentifier p i = \<lparr>ai_prefix = p, ai_identifier = i\<rparr>"

text \<open>\<open>ApiIdentifier::name\<close>.\<close>

definition name :: "api_identifier \<Rightarrow> string" where
  "name a = (case ai_prefix a of None \<Rightarrow> ai_identifier a | Some p \<Rightarrow> p @ '':'' @ ai_identifier a)"

record path_segment =
  apiIdent :: api_identifier
  keys :: "string list"

definition PathSegment :: "api_identifier \<Rightarrow> string list \<Rightarrow> path_segment" where
  "PathSegment a ks = \<lparr>apiIdent = a, keys = ks\<rparr>"

datatype uri_prefix_type =
    RestconfRoot
  | BasicRestconfData
  | BasicRestconfOperations
  | NMDADatastore
  | YangLibraryVersion

record uri_prefix =
  resourceType :: uri_prefix_type
  datastore :: "api_identifier option"

definition URIPrefix :: "uri_prefix_type \<Rightarrow> api_identifier option \<Rightarrow> uri_prefix" where
  "URIPrefix t d = \<lparr>resourceType = t, datastore = d\<rparr>"

record uri_path =
  path_prefix :: uri_prefix
  segments :: "path_segment list"

definition URIPath :: "uri_prefix \<Rightarrow> path_segment list \<Rightarrow> uri_path" where
  "URIPath p segs = \<lparr>path_prefix = p, segments = segs\<rparr>"

record yang_module =
  mod_name :: string
  mod_revision :: "string option"

text \<open>\<open>libyang::DataFormat\<close>, as far as the server uses it.\<close>

datatype data_format = XML | JSON

lemmas uri_data_defs = ApiIdentifier_def PathSegment_def URIPrefix_def URIPath_def

section \<open>Resource paths\<close>

text \<open>The semantic action \<open>add\<close> of \<open>hexbyte\<close>.\<close>

definition hex_add :: "nat \<Rightarrow> char \<Rightarrow> nat" where
  "hex_add v x = (let c = to_lower x in
     v * 16 + (if CHR ''a'' \<le> c then of_char c - of_char (CHR ''a'') + 10 else of_char c - of_char (CHR ''0'')))"

definition hexbyte :: "nat parser" where
  "hexbyte = pbind (pchar is_xdigit) (\<lambda>a. pmap (\<lambda>b. hex_add (hex_add 0 a) b) (pchar is_xdigit))"

definition percentEncodedChar :: "nat parser" where
  "percentEncodedChar = pthen (plit ''%'') (pexpect (TRule ''two hex digits'') hexbyte)"

definition reservedChars :: "char list" where
  "reservedChars = '':/?#[]@!$&'' @ [CHR 0x27] @ ''()*+,,;=%''"

definition percentEncodedString :: "string parser" where
  "percentEncodedString =
     pplus (palt (pmap char_of percentEncodedChar)
                 (pdiff (pchar (\<lambda>_. True)) (pchar (\<lambda>c. c \<in> set reservedChars))))"

definition keyList :: "string list parser" where
  "keyList = plist (palt percentEncodedString (pattr [])) (plit '','')"

definition noStrayEquals :: "unit parser" where
  "noStrayEquals = pnot (plit ''='')"

definition ident_start :: "char \<Rightarrow> bool" where
  "ident_start c \<longleftrightarrow> is_alpha c \<or> c = CHR ''_''"

definition ident_char :: "char \<Rightarrow> bool" where
  "ident_char c \<longleftrightarrow> is_alnum c \<or> c = CHR ''_'' \<or> c = CHR ''-'' \<or> c = CHR ''.''"

definition identifier_rule :: "string parser" where
  "identifier_rule = pbind (pchar ident_start) (\<lambda>a. pmap ((#) a)
     (pexpect (TParser ''*(alnum | _ | - | .)'') (pstar (pchar ident_char))))"

definition apiIdentifier :: "api_identifier parser" where
  "apiIdentifier =
     pbind (popt (pbind identifier_rule (\<lambda>m. pmap (\<lambda>_. m) (plit '':''))))
       (\<lambda>m. pmap (ApiIdentifier m) (pexpect (TRule ''identifier'') identifier_rule))"

text \<open>\<open>-('=' > keyList > noStrayEquals)\<close>, common to both kinds of path segment.\<close>

definition optionalKeys :: "string list parser" where
  "optionalKeys = pmap (\<lambda>ks. case ks of None \<Rightarrow> [] | Some ks \<Rightarrow> ks)
     (popt (pthen (plit ''='')
        (pbind (pexpect (TRule ''list key values'') keyList)
           (\<lambda>ks. pmap (\<lambda>_. ks) (pexpect (TRule ''valid key value'') noStrayEquals)))))"

definition listInstance :: "path_segment parser" where
  "listInstance = pbind apiIdentifier (\<lambda>a. pmap (PathSegment a) optionalKeys)"

definition fullyQualifiedApiIdentifier :: "api_identifier parser" where
  "fullyQualifiedApiIdentifier = pbind identifier_rule (\<lambda>m.
     pthen (pexpect (TChar (CHR '':'')) (plit '':''))
       (pmap (ApiIdentifier (Some m)) (pexpect (TRule ''identifier'') identifier_rule)))"

definition fullyQualifiedListInstance :: "path_segment parser" where
  "fullyQualifiedListInstance = pbind fullyQualifiedApiIdentifier (\<lambda>a. pmap (PathSegment a) optionalKeys)"

definition uriPathContent :: "path_segment list parser" where
  "uriPathContent = pbind fullyQualifiedListInstance (\<lambda>s.
     pmap (\<lambda>ss. case ss of None \<Rightarrow> [s] | Some ss \<Rightarrow> s # ss)
       (popt (pthen (plit ''/'')
          (pexpect (TParser ''listInstance % /'') (plist listInstance (plit ''/''))))))"

definition uriEmpty :: "path_segment list parser" where
  "uriEmpty = pthen (pand peoi) (pattr [])"

definition uriPathMaybeEmpty :: "path_segment list parser" where
  "uriPathMaybeEmpty = palt uriEmpty uriPathContent"

definition uriPath :: "path_segment list parser" where
  "uriPath = palt uriEmpty (pthen (plit ''/'') (pexpect (TRule ''resource path'') uriPathMaybeEmpty))"

definition nmdaDatastore :: "uri_prefix parser" where
  "nmdaDatastore = pthen (pexpect (TChar (CHR ''/'')) (plit ''/''))
     (pmap (\<lambda>d. URIPrefix NMDADatastore (Some d))
        (pexpect (TRule ''module-qualified identifier (module:name)'') fullyQualifiedApiIdentifier))"

definition resource :: "uri_path parser" where
  "resource =
     palt (pthen peoi (pattr (URIPath (URIPrefix RestconfRoot None) [])))
    (palt (pthen (plit ''data'')
             (pmap (URIPath (URIPrefix BasicRestconfData None)) (pexpect (TRule ''uriPath'') uriPath)))
    (palt (pthen (plit ''ds'')
             (pbind (pexpect (TRule ''NMDA datastore identifier'') nmdaDatastore)
                (\<lambda>p. pmap (URIPath p) (pexpect (TRule ''uriPath'') uriPath))))
    (palt (pthen (plit ''operations'')
             (pmap (URIPath (URIPrefix BasicRestconfOperations None)) (pexpect (TRule ''uriPath'') uriPath)))
          (pthen (plit ''yang-library-version'')
             (pmap (\<lambda>_. URIPath (URIPrefix YangLibraryVersion None) []) (popt (plit ''/'')))))))"

definition resources :: "uri_path parser" where
  "resources =
     palt (pthen (plit ''/'') (pexpect (TRule ''RESTCONF resource'') resource))
          (pthen peoi (pattr (URIPath (URIPrefix RestconfRoot None) [])))"

definition restconfGrammar :: "uri_path parser" where
  "restconfGrammar = pthen (plit ''/'')
     (pthen (pexpect (TString ''restconf'') (plit ''restconf''))
        (pexpect (TRule ''RESTCONF resource'') resources))"

lemmas path_grammar_defs = hexbyte_def percentEncodedChar_def percentEncodedString_def keyList_def
  noStrayEquals_def identifier_rule_def apiIdentifier_def optionalKeys_def listInstance_def
  fullyQualifiedApiIdentifier_def fullyQualifiedListInstance_def uriPathContent_def uriEmpty_def
  uriPathMaybeEmpty_def uriPath_def nmdaDatastore_def resource_def resources_def restconfGrammar_def

section \<open>Stream paths\<close>

text \<open>
  A parsed UUID keeps its text; \<open>boost::uuids::string_generator\<close>, which turns it into the value, is
  the parameter \<open>gen\<close> (\<open>None\<close> when it throws).
\<close>

definition uuid_impl :: "string parser" where
  "uuid_impl =
     pbind (prepeat 8 (pchar is_xdigit)) (\<lambda>a. pthen (pexpect (TChar (CHR ''-'')) (plit ''-''))
    (pbind (pexpect (TParser ''repeat(4)[xdigit]'') (prepeat 4 (pchar is_xdigit))) (\<lambda>b. pthen (pexpect (TChar (CHR ''-'')) (plit ''-''))
    (pbind (pexpect (TParser ''repeat(4)[xdigit]'') (prepeat 4 (pchar is_xdigit))) (\<lambda>c. pthen (pexpect (TChar (CHR ''-'')) (plit ''-''))
    (pbind (pexpect (TParser ''repeat(4)[xdigit]'') (prepeat 4 (pchar is_xdigit))) (\<lambda>d. pthen (pexpect (TChar (CHR ''-'')) (plit ''-''))
    (pmap (\<lambda>e. a @ ''-'' @ b @ ''-'' @ c @ ''-'' @ d @ ''-'' @ e)
       (pexpect (TParser ''repeat(12)[xdigit]'') (prepeat 12 (pchar is_xdigit)))))))))))"

definition uuid :: "(string \<Rightarrow> 'u option) \<Rightarrow> 'u parser" where
  "uuid gen = paction gen uuid_impl"

datatype 'u stream_request =
    NotificationStreamRequest string data_format
  | SubscribedStreamRequest 'u

definition subscribedStream :: "(string \<Rightarrow> 'u option) \<Rightarrow> 'u stream_request parser" where
  "subscribedStream gen = pthen (plit ''subscribed'')
     (pthen (pexpect (TString ''/'') (plit ''/''))
        (pmap SubscribedStreamRequest (pexpect (TRule ''UUID'') (uuid gen))))"

definition streamFormat :: "data_format parser" where
  "streamFormat = palt (pthen (plit ''XML'') (pattr XML)) (pthen (plit ''JSON'') (pattr JSON))"

definition notificationStream :: "'u stream_request parser" where
  "notificationStream = pbind identifier_rule (\<lambda>s.
     pthen (pexpect (TString ''/'') (plit ''/''))
       (pmap (NotificationStreamRequest s)
          (pexpect (TRule ''stream format ('XML' or 'JSON')'') streamFormat)))"

definition streamGrammar :: "(string \<Rightarrow> 'u option) \<Rightarrow> 'u stream_request parser" where
  "streamGrammar gen = pthen (plit ''/'')
     (pthen (pexpect (TString ''streams'') (plit ''streams''))
     (pthen (pexpect (TString ''/'') (plit ''/''))
        (pexpect (TParser ''subscribedStream | notificationStream'')
           (palt (subscribedStream gen) notificationStream))))"

lemmas stream_grammar_defs = uuid_impl_def uuid_def subscribedStream_def streamFormat_def
  notificationStream_def streamGrammar_def

section \<open>YANG module paths\<close>

definition moduleName :: "string parser" where
  "moduleName = pbind (pchar ident_start) (\<lambda>a. pmap ((#) a)
     (pexpect (TParser ''*(alnum | _ | - | .)'') (pstar (pchar ident_char))))"

definition revision :: "string parser" where
  "revision =
     pbind (prepeat_inf 4 (pchar is_digit)) (\<lambda>y. pthen (pexpect (TChar (CHR ''-'')) (plit ''-''))
    (pbind (pexpect (TParser ''repeat(2)[digit]'') (prepeat 2 (pchar is_digit))) (\<lambda>m. pthen (pexpect (TChar (CHR ''-'')) (plit ''-''))
    (pmap (\<lambda>d. y @ ''-'' @ m @ ''-'' @ d)
       (pexpect (TParser ''repeat(2)[digit]'') (prepeat 2 (pchar is_digit)))))))"

definition yangSchemaGrammar :: "yang_module parser" where
  "yangSchemaGrammar = pthen (pexpect (TString ''/'') (plit ''/''))
     (pthen (pexpect (TString ''yang'') (plit ''yang''))
     (pthen (pexpect (TChar (CHR ''/'')) (plit ''/''))
     (pbind (pexpect (TRule ''moduleName'') moduleName) (\<lambda>n.
        pmap (\<lambda>r. \<lparr>mod_name = n, mod_revision = r\<rparr>)
          (popt (pthen (plit ''@'')
             (pbind (pexpect (TRule ''revision'') revision)
                (\<lambda>r. pmap (\<lambda>_. r) (popt (plit ''.yang''))))))))))"

lemmas yang_grammar_defs = moduleName_def revision_def yangSchemaGrammar_def

section \<open>Running a grammar over the whole input\<close>

text \<open>
  \<open>parse\<close>: \<open>unsigned\<close> positions are 32 bits wide; the position of an expectation failure is its
  distance from the start of the input plus \<open>positionOffset\<close>.
\<close>

definition to_unsigned :: "nat \<Rightarrow> nat" where
  "to_unsigned n = nat (int n mod 4294967296)"

lemma to_unsigned_small [simp]: "n < 2 ^ 32 \<Longrightarrow> to_unsigned n = n"
  by (simp add: to_unsigned_def)

definition parse :: "(token \<Rightarrow> string) \<Rightarrow> error_response \<Rightarrow> (nat \<Rightarrow> string \<Rightarrow> error_response) \<Rightarrow>
    string \<Rightarrow> 'a parser \<Rightarrow> nat \<Rightarrow> exn + 'a" where
  "parse what SyntaxError SyntaxErrorAt input g positionOffset =
     (case pbind g (\<lambda>a. pmap (\<lambda>_. a) (pexpect TEoi peoi)) input of
        Match a r \<Rightarrow> Inr a
      | NoMatch \<Rightarrow> Inl (Error_Response SyntaxError)
      | Expected r t \<Rightarrow>
          Inl (Error_Response (SyntaxErrorAt (to_unsigned (length input - length r + positionOffset)) (what t))))"

definition parseUriPath :: "(token \<Rightarrow> string) \<Rightarrow> string \<Rightarrow> exn + uri_path" where
  "parseUriPath what input = parse what UriPathSyntaxError UriPathSyntaxErrorAt input restconfGrammar 0"

definition parseModuleWithRevision :: "(token \<Rightarrow> string) \<Rightarrow> string \<Rightarrow> exn + yang_module" where
  "parseModuleWithRevision what input = parse what UriPathSyntaxError UriPathSyntaxErrorAt input yangSchemaGrammar 0"

definition parseStreamUri :: "(token \<Rightarrow> string) \<Rightarrow> (string \<Rightarrow> 'u option) \<Rightarrow> string \<Rightarrow> exn + 'u stream_request" where
  "parseStreamUri what gen input = parse what UriPathSyntaxError UriPathSyntaxErrorAt input (streamGrammar gen) 0"

section \<open>What a client of \<open>parse\<close> can rely on\<close>

context x3_parser
begin

text \<open>\<open>parse\<close> succeeds exactly when the grammar matches the whole input.\<close>

lemma parse_Inr_iff: "parse what E EAt input p off = Inr a \<longleftrightarrow> p input = Match a []"
proof (cases "p input")
  case (Match b r)
  then show ?thesis
    by (cases r) (auto simp: parse_def pbind_def pmap_def pattr_def pexpect_def)
qed (auto simp: parse_def pbind_def)

text \<open>A failed parse is one of the two syntax errors; a reported position lies in the input.\<close>

lemma parse_Inl_cases:
  assumes "parse what E EAt input p off = Inl e"
  shows "e = Error_Response E \<or>
    (\<exists>pos t. pos \<le> length input \<and> e = Error_Response (EAt (to_unsigned (pos + off)) (what t)))"
proof -
  let ?g = "pbind p (\<lambda>a. pmap (\<lambda>_. a) (pexpect TEoi peoi))"
  have g: "x3_parser ?g"
    by (intro x3_parser_pbind x3_parser_pmap x3_parser_pexpect x3_parser_peoi) (rule x3_parser_axioms)
  show ?thesis
  proof (cases "?g input")
    case (Expected r t)
    then have "length r \<le> length input" using x3_parser.expected_length [OF g] by blast
    then have "length input - length r \<le> length input"
      and "e = Error_Response (EAt (to_unsigned (length input - length r + off)) (what t))"
      using assms Expected by (auto simp: parse_def)
    then show ?thesis by blast
  qed (use assms in \<open>auto simp: parse_def\<close>)
qed

end

lemma x3_consuming_identifier_rule [x3_intros]: "x3_consuming identifier_rule"
  unfolding identifier_rule_def by (intro x3_consuming_pbind x3_intros)

lemmas x3_parser_identifier_rule [x3_intros] = x3_consuming_identifier_rule [THEN x3_consuming_parser]

lemma x3_parser_percentEncodedString [x3_intros]: "x3_parser percentEncodedString"
  unfolding path_grammar_defs by (intro x3_parser_pbind x3_intros)

lemma x3_parser_optionalKeys [x3_intros]: "x3_parser optionalKeys"
  unfolding optionalKeys_def keyList_def noStrayEquals_def by (intro x3_parser_pbind x3_intros)

lemma x3_consuming_apiIdentifier [x3_intros]: "x3_consuming apiIdentifier"
  unfolding apiIdentifier_def by (intro x3_consuming_pbind_right x3_parser_pbind x3_intros)

lemmas x3_parser_apiIdentifier [x3_intros] = x3_consuming_apiIdentifier [THEN x3_consuming_parser]

lemma x3_consuming_listInstance [x3_intros]: "x3_consuming listInstance"
  unfolding listInstance_def by (intro x3_consuming_pbind x3_intros)

lemmas x3_parser_listInstance [x3_intros] = x3_consuming_listInstance [THEN x3_consuming_parser]

lemma x3_consuming_fullyQualifiedApiIdentifier [x3_intros]: "x3_consuming fullyQualifiedApiIdentifier"
  unfolding fullyQualifiedApiIdentifier_def by (intro x3_consuming_pbind x3_intros)

lemmas x3_parser_fullyQualifiedApiIdentifier [x3_intros] = x3_consuming_fullyQualifiedApiIdentifier [THEN x3_consuming_parser]

lemma x3_parser_uriPath [x3_intros]: "x3_parser uriPath"
  unfolding uriPath_def uriEmpty_def uriPathMaybeEmpty_def uriPathContent_def fullyQualifiedListInstance_def
  by (intro x3_parser_pbind x3_intros)

interpretation path_grammar: x3_parser restconfGrammar
  unfolding restconfGrammar_def resources_def resource_def nmdaDatastore_def
  by (intro x3_parser_pbind x3_intros)

interpretation module_grammar: x3_parser yangSchemaGrammar
  unfolding yang_grammar_defs by (intro x3_parser_pbind x3_intros)

interpretation stream_grammar: x3_parser "streamGrammar gen" for gen :: "string \<Rightarrow> 'u option"
  unfolding stream_grammar_defs by (intro x3_parser_pbind x3_intros)

end
