(* ===== verification/Uri_Query.thy ===== *)
theory Uri_Query
  imports Uri_Grammar
begin

text \<open>
  The query-string half of \<open>restconf/uri.cpp\<close>: the values of query parameters, their grammar
  (\<open>queryParamGrammar\<close> with the \<open>fields\<close> expressions of RFC 8040 and the date-and-time check) and
  \<open>parseQueryParams\<close>. The recursive rules \<open>fieldsSlash\<close>, \<open>fieldsSemi\<close> and \<open>fieldsExpr\<close> carry fuel;
  \<open>fieldsExpr_unfold\<close> shows that the fuel taken (more than the length of the input) never runs out.
\<close>

section \<open>Data\<close>

datatype expr =
    SlashExpr api_identifier "expr option"
  | ParenExpr expr "expr option"
  | SemiExpr expr "expr option"

datatype query_param_value =
    UnboundedDepth
  | Depth nat
  | StringValue string
  | Trim | Explicit | ReportAll | ReportAllTagged
  | AllNodes | OnlyNonConfigNodes | OnlyConfigNodes
  | First | Last | Before | After
  | PointParsed "path_segment list"
  | FieldsExpr expr

type_synonym query_params = "(string \<times> query_param_value) list"

section \<open>Grammar\<close>

text \<open>\<open>x3::uint_\<close> on a 32-bit \<open>unsigned\<close>: a run of decimal digits whose value fits.\<close>

definition uint_value :: "string \<Rightarrow> nat option" where
  "uint_value ds = (if int (decimal_val ds) < 4294967296 then Some (decimal_val ds) else None)"

definition uint_rule :: "nat parser" where
  "uint_rule = paction uint_value (pplus (pchar is_digit))"

definition validDepthValues :: "nat \<Rightarrow> nat option" where
  "validDepthValues v = (if 0 < v \<and> v < 65536 then Some v else None)"

definition withDefaultsTable :: "(string \<times> query_param_value) list" where
  "withDefaultsTable = [(''trim'', Trim), (''explicit'', Explicit), (''report-all'', ReportAll),
     (''report-all-tagged'', ReportAllTagged)]"

definition contentTable :: "(string \<times> query_param_value) list" where
  "contentTable = [(''all'', AllNodes), (''nonconfig'', OnlyNonConfigNodes), (''config'', OnlyConfigNodes)]"

definition insertTable :: "(string \<times> query_param_value) list" where
  "insertTable = [(''first'', First), (''last'', Last), (''after'', After), (''before'', Before)]"

primrec fieldsSlash :: "nat \<Rightarrow> expr parser" where
  "fieldsSlash 0 = (\<lambda>s. NoMatch)"
| "fieldsSlash (Suc n) = pbind apiIdentifier (\<lambda>a. pmap (SlashExpr a)
     (popt (pthen (plit ''/'') (pexpect (TRule ''fieldsSlash'') (fieldsSlash n)))))"

definition fieldsParen :: "expr parser \<Rightarrow> expr parser \<Rightarrow> expr parser" where
  "fieldsParen fieldsExpr slash = pbind slash (\<lambda>l. pmap (ParenExpr l)
     (popt (pthen (plit ''('')
        (pbind (pexpect (TRule ''fieldsExpr'') fieldsExpr)
           (\<lambda>e. pmap (\<lambda>_. e) (pexpect (TString '')'') (plit '')'')))))))"

primrec fieldsSemi :: "nat \<Rightarrow> expr parser" where
  "fieldsSemi 0 = (\<lambda>s. NoMatch)"
| "fieldsSemi (Suc n) = pbind (fieldsParen (fieldsSemi n) (fieldsSlash (Suc n))) (\<lambda>l. pmap (SemiExpr l)
     (popt (pthen (plit '';'') (pexpect (TRule ''fieldsSemi'') (fieldsSemi n)))))"

definition fieldsExpr :: "expr parser" where
  "fieldsExpr s = fieldsSemi (Suc (length s)) s"

text \<open>Concatenation of string attributes under \<open>a > b\<close> and \<open>a >> b\<close>.\<close>

definition pcat :: "string parser \<Rightarrow> string parser \<Rightarrow> string parser" where
  "pcat p q = pbind p (\<lambda>a. pmap ((@) a) q)"

definition pchar_lit :: "char \<Rightarrow> string parser" where
  "pchar_lit c = pstring [c]"

definition digit :: "string parser" where
  "digit = pmap (\<lambda>c. [c]) (pchar is_digit)"

definition expect_char :: "char \<Rightarrow> string parser" where
  "expect_char c = pexpect (TChar c) (pchar_lit c)"

definition expect_digit :: "string parser" where
  "expect_digit = pexpect (TParser ''digit'') digit"

definition twoDigits :: "string parser" where
  "twoDigits = pcat digit expect_digit"

definition year :: "string parser" where
  "year = pcat digit (pcat expect_digit (pcat expect_digit expect_digit))"

definition date :: "string parser" where
  "date = pcat year (pcat (expect_char (CHR ''-'')) (pcat (pexpect (TRule ''month'') twoDigits)
     (pcat (expect_char (CHR ''-'')) (pexpect (TRule ''day'') twoDigits))))"

definition timeHHMM :: "string parser" where
  "timeHHMM = pcat twoDigits (pcat (expect_char (CHR '':'')) (pexpect (TRule ''minute'') twoDigits))"

definition time :: "string parser" where
  "time = pcat timeHHMM (pcat (expect_char (CHR '':'')) (pexpect (TRule ''second'') twoDigits))"

definition timeMs :: "string parser" where
  "timeMs = pcat (pchar_lit (CHR ''.'')) (pexpect (TParser ''+digit'') (pplus (pchar is_digit)))"

definition tzZulu :: "string parser" where
  "tzZulu = pstring ''Z''"

definition tzOffset :: "string parser" where
  "tzOffset = pcat (palt (pchar_lit (CHR ''+'')) (pchar_lit (CHR ''-''))) (pexpect (TRule ''HH:mm'') timeHHMM)"

definition timezone :: "string parser" where
  "timezone = palt tzZulu tzOffset"

text \<open>\<open>date > 'T' > (time >> -timeMs) > timezone\<close>: \<open>>>\<close> binds tighter than \<open>>\<close>.\<close>

definition dateAndTime :: "string parser" where
  "dateAndTime = pcat date (pcat (expect_char (CHR ''T''))
     (pcat (pexpect (TParser ''time >> -timeMs'')
              (pcat time (pmap (\<lambda>m. case m of None \<Rightarrow> [] | Some m \<Rightarrow> m) (popt timeMs))))
           (pexpect (TRule ''timezone'') timezone)))"

definition filter_rule :: "string parser" where
  "filter_rule = pplus (palt (pmap char_of percentEncodedChar) (pdiff (pchar (\<lambda>_. True)) (plit ''&'')))"

definition depthParam :: "query_param_value parser" where
  "depthParam = palt (pmap Depth (paction validDepthValues uint_rule))
     (pthen (pstring ''unbounded'') (pattr UnboundedDepth))"

definition insertParam :: "query_param_value parser" where
  "insertParam = psymbols insertTable"

definition contentParam :: "query_param_value parser" where
  "contentParam = psymbols contentTable"

definition withDefaultsParam :: "query_param_value parser" where
  "withDefaultsParam = psymbols withDefaultsTable"

text \<open>One alternative of \<open>queryParamPair\<close>: \<open>x3::string(key) > "=" > value\<close>.\<close>

definition keyValue :: "string \<Rightarrow> token \<Rightarrow> query_param_value parser \<Rightarrow> (string \<times> query_param_value) parser" where
  "keyValue k t v = pbind (pstring k) (\<lambda>k. pthen (pexpect (TChar (CHR ''='')) (plit ''=''))
     (pmap (Pair k) (pexpect t v)))"

definition queryParamPair :: "(string \<times> query_param_value) parser" where
  "queryParamPair =
     palt (keyValue ''depth'' (TRule (''1-65535 or 'unbounded'' @ [CHR 0x27])) depthParam)
    (palt (keyValue ''with-defaults'' (TRule ([CHR 0x27] @ ''trim', 'explicit', 'report-all' or 'report-all-tagged'' @ [CHR 0x27])) withDefaultsParam)
    (palt (keyValue ''content'' (TRule ([CHR 0x27] @ ''all', 'nonconfig' or 'config'' @ [CHR 0x27])) contentParam)
    (palt (keyValue ''insert'' (TRule ([CHR 0x27] @ ''first', 'last', 'after' or 'before'' @ [CHR 0x27])) insertParam)
    (palt (keyValue ''point'' (TRule ''uriPath'') (pmap PointParsed uriPath))
    (palt (keyValue ''filter'' (TRule ''filter'') (pmap StringValue filter_rule))
    (palt (keyValue ''start-time'' (TRule ''dateAndTime'') (pmap StringValue dateAndTime))
    (palt (keyValue ''stop-time'' (TRule ''dateAndTime'') (pmap StringValue dateAndTime))
          (keyValue ''fields'' (TRule ''fieldsExpr'') (pmap FieldsExpr fieldsExpr)))))))))"

definition queryParamEmpty :: "query_params parser" where
  "queryParamEmpty = pthen (pand peoi) (pattr [])"

definition queryParamList :: "query_params parser" where
  "queryParamList = pbind queryParamPair (\<lambda>p. pmap (\<lambda>ps. mm_of_list (p # ps))
     (pstar (pthen (plit ''&'') (pexpect (TRule ''query parameter'') queryParamPair))))"

definition queryParamGrammar :: "query_params parser" where
  "queryParamGrammar = pexpect (TRule ''query parameter'') (palt queryParamEmpty queryParamList)"

definition parseQueryParams :: "(token \<Rightarrow> string) \<Rightarrow> string \<Rightarrow> nat \<Rightarrow> exn + query_params" where
  "parseQueryParams what querystring pathLength =
     parse what UriQuerySyntaxError UriQuerySyntaxErrorAt querystring queryParamGrammar (to_unsigned pathLength)"

lemmas date_grammar_defs = pcat_def pchar_lit_def digit_def expect_char_def expect_digit_def twoDigits_def
  year_def date_def timeHHMM_def time_def timeMs_def tzZulu_def tzOffset_def timezone_def dateAndTime_def

section \<open>The fuel of the recursive rules never runs out\<close>

lemma x3_consuming_fieldsSlash [x3_intros]: "x3_consuming (fieldsSlash n)"
proof (induction n)
  case (Suc n)
  then have "x3_parser (fieldsSlash n)" by (rule x3_consuming_parser)
  then show ?case by (auto intro!: x3_consuming_pbind x3_consuming_apiIdentifier x3_intros)
qed (simp add: x3_consuming_fail)

lemma x3_consuming_fieldsParen:
  "x3_parser e \<Longrightarrow> x3_consuming sl \<Longrightarrow> x3_consuming (fieldsParen e sl)"
  unfolding fieldsParen_def by (intro x3_consuming_pbind x3_parser_pbind x3_intros)

lemma x3_consuming_fieldsSemi: "x3_consuming (fieldsSemi n)"
proof (induction n)
  case (Suc n)
  then have n: "x3_parser (fieldsSemi n)" by (rule x3_consuming_parser)
  then have "x3_consuming (fieldsParen (fieldsSemi n) (fieldsSlash (Suc n)))"
    by (intro x3_consuming_fieldsParen x3_consuming_fieldsSlash)
  then show ?case using n unfolding fieldsSemi.simps by (intro x3_consuming_pbind x3_intros)
qed (simp add: x3_consuming_fail)

lemmas consumed = x3_consuming.consumes [OF x3_consuming_apiIdentifier]
  x3_consuming.consumes [OF x3_consuming_fieldsSlash]

lemma fieldsSlash_fuel: "length s < m \<Longrightarrow> length s < n \<Longrightarrow> fieldsSlash m s = fieldsSlash n s"
proof (induction m arbitrary: n s)
  case (Suc m)
  then obtain n' where n: "n = Suc n'" by (cases n) auto
  have "fieldsSlash m q = fieldsSlash n' q"
    if "apiIdentifier s = Match a r" "plit ''/'' r = Match u q" for a r u q
    using Suc that n consumed(1) [OF that(1)] by (auto simp: plit_Match_iff)
  then show ?case unfolding n fieldsSlash.simps
    by (intro pbind_cong_at pmap_cong_at popt_cong_at pthen_cong_at pexpect_cong_at refl)
qed simp

lemma fieldsSemi_fuel: "length s < m \<Longrightarrow> length s < n \<Longrightarrow> fieldsSemi m s = fieldsSemi n s"
proof (induction m arbitrary: n s)
  case (Suc m)
  then obtain n' where n: "n = Suc n'" by (cases n) auto
  have slash: "fieldsSlash (Suc m) s = fieldsSlash (Suc n') s"
    using Suc.prems n by (intro fieldsSlash_fuel) auto
  have smaller: "fieldsSemi m q = fieldsSemi n' q" if "length q < length s" for q
    using Suc.prems n that by (intro Suc.IH) auto
  have paren: "fieldsParen (fieldsSemi m) (fieldsSlash (Suc m)) s = fieldsParen (fieldsSemi n') (fieldsSlash (Suc n')) s"
    unfolding fieldsParen_def
    by (intro pbind_cong_at pmap_cong_at popt_cong_at pthen_cong_at pexpect_cong_at slash smaller refl)
      (auto simp: plit_Match_iff simp del: fieldsSlash.simps dest!: consumed(2))
  have "x3_consuming (fieldsParen (fieldsSemi n') (fieldsSlash (Suc n')))"
    by (intro x3_consuming_fieldsParen x3_consuming_fieldsSlash x3_consuming_fieldsSemi [THEN x3_consuming_parser])
  then show ?case unfolding n fieldsSemi.simps
    by (intro pbind_cong_at paren pmap_cong_at popt_cong_at pthen_cong_at pexpect_cong_at smaller)
      (auto simp: plit_Match_iff dest!: x3_consuming.consumes)
qed simp

text \<open>The rules without fuel, as the source writes them.\<close>

definition fieldsSlash_rule :: "expr parser" where
  "fieldsSlash_rule s = fieldsSlash (Suc (length s)) s"

lemma fieldsSlash_unfold:
  "fieldsSlash_rule s = pbind apiIdentifier (\<lambda>a. pmap (SlashExpr a)
     (popt (pthen (plit ''/'') (pexpect (TRule ''fieldsSlash'') fieldsSlash_rule)))) s"
proof -
  have "fieldsSlash (length s) q = fieldsSlash_rule q" if "length q < length s" for q
    unfolding fieldsSlash_rule_def using that by (intro fieldsSlash_fuel) auto
  then show ?thesis unfolding fieldsSlash_rule_def [of s] fieldsSlash.simps
    by (intro pbind_cong_at pmap_cong_at popt_cong_at pthen_cong_at pexpect_cong_at refl)
      (fastforce simp: plit_Match_iff dest!: consumed(1))
qed

lemma fieldsExpr_unfold:
  "fieldsExpr s = pbind (fieldsParen fieldsExpr fieldsSlash_rule) (\<lambda>l. pmap (SemiExpr l)
     (popt (pthen (plit '';'') (pexpect (TRule ''fieldsSemi'') fieldsExpr)))) s"
proof -
  have smaller: "fieldsSemi (length s) q = fieldsExpr q" if "length q < length s" for q
    unfolding fieldsExpr_def using that by (intro fieldsSemi_fuel) auto
  have paren: "fieldsParen (fieldsSemi (length s)) (fieldsSlash (Suc (length s))) s = fieldsParen fieldsExpr fieldsSlash_rule s"
    unfolding fieldsParen_def fieldsSlash_rule_def
    by (intro pbind_cong_at pmap_cong_at popt_cong_at pthen_cong_at pexpect_cong_at refl smaller)
      (auto simp: plit_Match_iff simp del: fieldsSlash.simps dest!: consumed(2))
  have "length r < length s" if "fieldsParen fieldsExpr fieldsSlash_rule s = Match a r" for a r
  proof -
    have "x3_consuming (fieldsParen (fieldsSemi (length s)) (fieldsSlash (Suc (length s))))"
      by (intro x3_consuming_fieldsParen x3_consuming_fieldsSlash x3_consuming_fieldsSemi [THEN x3_consuming_parser])
    then show ?thesis using that paren x3_consuming.consumes by metis
  qed
  then show ?thesis unfolding fieldsExpr_def [of s] fieldsSemi.simps
    by (intro pbind_cong_at paren pmap_cong_at popt_cong_at pthen_cong_at pexpect_cong_at smaller)
      (fastforce simp: plit_Match_iff)
qed

lemma x3_parser_fieldsExpr [x3_intros]: "x3_parser fieldsExpr"
  using x3_consuming_fieldsSemi
  by (intro x3_parserI) (auto simp: fieldsExpr_def simp del: fieldsSemi.simps dest: x3_consuming_parser x3_lawD)

section \<open>Laws of the query grammar\<close>

lemma x3_parser_pcat [x3_intros]: "x3_parser p \<Longrightarrow> x3_parser q \<Longrightarrow> x3_parser (pcat p q)"
  unfolding pcat_def by (intro x3_parser_pbind x3_intros)

lemma x3_parser_percentEncodedChar [x3_intros]: "x3_parser percentEncodedChar"
  unfolding percentEncodedChar_def hexbyte_def by (intro x3_parser_pbind x3_intros)

lemma x3_parser_filter_rule [x3_intros]: "x3_parser filter_rule"
  unfolding filter_rule_def by (intro x3_intros)

lemma x3_parser_dateAndTime [x3_intros]: "x3_parser dateAndTime"
  unfolding date_grammar_defs(2-) by (intro x3_intros)

lemma x3_parser_depthParam [x3_intros]: "x3_parser depthParam"
  unfolding depthParam_def uint_rule_def by (intro x3_intros)

lemma x3_parser_keyValue [x3_intros]: "x3_parser v \<Longrightarrow> x3_parser (keyValue k t v)"
  unfolding keyValue_def by (intro x3_parser_pbind x3_intros)

lemma x3_parser_queryParamPair [x3_intros]: "x3_parser queryParamPair"
  unfolding queryParamPair_def insertParam_def contentParam_def withDefaultsParam_def by (intro x3_intros)

interpretation query_grammar: x3_parser queryParamGrammar
  unfolding queryParamGrammar_def queryParamEmpty_def queryParamList_def
  by (intro x3_parser_pbind x3_intros)

end
