(* ===== verification/Uri_Roundtrip.thy ===== *)
theory Uri_Roundtrip
  imports Uri_Grammar
begin

text \<open>
  The resource-path grammar against an independent description of its language: well-formed paths and
  their canonical spelling with percent-encoded key values. The parser accepts the spelling of every
  well-formed path and gives the path back, and whatever it accepts is well-formed.
\<close>

section \<open>Well-formed paths and their spelling\<close>

definition valid_ident :: "string \<Rightarrow> bool" where
  "valid_ident s \<longleftrightarrow> s \<noteq> [] \<and> ident_start (hd s) \<and> list_all ident_char (tl s)"

definition valid_api_ident :: "api_identifier \<Rightarrow> bool" where
  "valid_api_ident a \<longleftrightarrow> pred_option valid_ident (ai_prefix a) \<and> valid_ident (ai_identifier a)"

definition valid_segments :: "path_segment list \<Rightarrow> bool" where
  "valid_segments ss \<longleftrightarrow> list_all (\<lambda>s. valid_api_ident (apiIdent s)) ss \<and>
     (ss \<noteq> [] \<longrightarrow> ai_prefix (apiIdent (hd ss)) \<noteq> None)"

definition valid_uri :: "uri_path \<Rightarrow> bool" where
  "valid_uri u \<longleftrightarrow> valid_segments (segments u) \<and>
     (case resourceType (path_prefix u) of
        RestconfRoot \<Rightarrow> datastore (path_prefix u) = None \<and> segments u = []
      | YangLibraryVersion \<Rightarrow> datastore (path_prefix u) = None \<and> segments u = []
      | NMDADatastore \<Rightarrow> (case datastore (path_prefix u) of None \<Rightarrow> False | Some d \<Rightarrow> valid_api_ident d \<and> ai_prefix d \<noteq> None)
      | _ \<Rightarrow> datastore (path_prefix u) = None)"

definition hex_digit :: "nat \<Rightarrow> char" where
  "hex_digit n = char_of (if n < 10 then 48 + n else 55 + n)"

definition percent_encode_char :: "char \<Rightarrow> string" where
  "percent_encode_char c =
     (if c \<in> set reservedChars then [CHR ''%'', hex_digit (of_char c div 16), hex_digit (of_char c mod 16)] else [c])"

definition percent_encode :: "string \<Rightarrow> string" where
  "percent_encode k = concat (map percent_encode_char k)"

definition print_keys :: "string list \<Rightarrow> string" where
  "print_keys ks = (case ks of [] \<Rightarrow> [] | k # ks \<Rightarrow>
     ''='' @ percent_encode k @ concat (map (\<lambda>k. '','' @ percent_encode k) ks))"

definition print_segment :: "path_segment \<Rightarrow> string" where
  "print_segment s = name (apiIdent s) @ print_keys (keys s)"

definition print_segments :: "path_segment list \<Rightarrow> string" where
  "print_segments ss = concat (map (\<lambda>s. ''/'' @ print_segment s) ss)"

definition print_uri :: "uri_path \<Rightarrow> string" where
  "print_uri u = ''/restconf'' @ (case resourceType (path_prefix u) of
      RestconfRoot \<Rightarrow> []
    | BasicRestconfData \<Rightarrow> ''/data'' @ print_segments (segments u)
    | BasicRestconfOperations \<Rightarrow> ''/operations'' @ print_segments (segments u)
    | NMDADatastore \<Rightarrow> ''/ds/'' @ (case datastore (path_prefix u) of None \<Rightarrow> [] | Some d \<Rightarrow> name d) @ print_segments (segments u)
    | YangLibraryVersion \<Rightarrow> ''/yang-library-version'')"

section \<open>Soundness: what the parser accepts is well-formed\<close>

lemma identifier_rule_valid: "identifier_rule s = Match i r \<Longrightarrow> valid_ident i"
  by (auto simp: identifier_rule_def x3_match_iffs valid_ident_def pstar_pchar list_all_iff dest: set_takeWhileD)

lemma apiIdentifier_valid: "apiIdentifier s = Match a r \<Longrightarrow> valid_api_ident a"
  by (auto simp: apiIdentifier_def x3_match_iffs valid_api_ident_def ApiIdentifier_def dest!: identifier_rule_valid)

lemma fullyQualifiedApiIdentifier_valid:
  "fullyQualifiedApiIdentifier s = Match a r \<Longrightarrow> valid_api_ident a \<and> ai_prefix a \<noteq> None"
  by (auto simp: fullyQualifiedApiIdentifier_def x3_match_iffs valid_api_ident_def ApiIdentifier_def
      dest!: identifier_rule_valid)

lemma listInstance_valid: "listInstance s = Match seg r \<Longrightarrow> valid_api_ident (apiIdent seg)"
  by (auto simp: listInstance_def x3_match_iffs PathSegment_def dest!: apiIdentifier_valid)

lemma uriPathContent_valid:
  assumes "uriPathContent s = Match ss r"
  shows "valid_segments ss"
proof -
  have "list_all (\<lambda>s. valid_api_ident (apiIdent s)) bs" if "plist listInstance (plit ''/'') q = Match bs r" for q bs
    using plist_all [where P = "\<lambda>s. valid_api_ident (apiIdent s)", OF _ that] listInstance_valid by blast
  then show ?thesis using assms
    by (auto simp: uriPathContent_def fullyQualifiedListInstance_def x3_match_iffs valid_segments_def PathSegment_def
        dest!: fullyQualifiedApiIdentifier_valid)
qed

lemma uriPath_valid: "uriPath s = Match ss r \<Longrightarrow> valid_segments ss"
  by (auto simp: uriPath_def uriPathMaybeEmpty_def uriEmpty_def x3_match_iffs valid_segments_def
      dest!: uriPathContent_valid)

lemma restconfGrammar_valid:
  assumes "restconfGrammar s = Match u r"
  shows "valid_uri u"
  using assms
  by (auto simp: restconfGrammar_def resources_def resource_def nmdaDatastore_def x3_match_iffs valid_uri_def
      URIPath_def URIPrefix_def valid_segments_def dest!: uriPath_valid fullyQualifiedApiIdentifier_valid)

section \<open>Completeness: every well-formed path is parsed back from its spelling\<close>

definition starts :: "(char \<Rightarrow> bool) \<Rightarrow> string \<Rightarrow> bool" where
  "starts P s \<longleftrightarrow> s = [] \<or> P (hd s)"

lemma starts_simps [simp]: "starts P []" "starts P (c # s) \<longleftrightarrow> P c"
  by (simp_all add: starts_def)

lemma starts_mono: "starts P s \<Longrightarrow> (\<And>c. P c \<Longrightarrow> Q c) \<Longrightarrow> starts Q s"
  by (auto simp: starts_def)

definition key_end :: "char \<Rightarrow> bool" where
  "key_end c \<longleftrightarrow> c \<in> set reservedChars \<and> c \<noteq> CHR ''%''"

lemma key_end_literals: "key_end (CHR '','')" "key_end (CHR ''/'')" "\<not> ident_char (CHR ''/'')"
  "\<not> ident_char (CHR ''='')" "\<not> ident_char (CHR '':'')" "CHR ''%'' \<in> set reservedChars"
  by code_simp+

lemma hex_digit_read: "d < 16 \<Longrightarrow> is_xdigit (hex_digit d) \<and> hex_add v (hex_digit d) = v * 16 + d"
proof -
  have "\<forall>d \<in> set [0..<16]. is_xdigit (hex_digit d) \<and>
      (let c = to_lower (hex_digit d) in (if CHR ''a'' \<le> c then of_char c - of_char (CHR ''a'') + 10
        else of_char c - of_char (CHR ''0''))) = d"
    by code_simp
  then show "d < 16 \<Longrightarrow> ?thesis" by (simp add: hex_add_def Let_def)
qed

lemma percentEncodedChar_print:
  "percentEncodedChar (CHR ''%'' # hex_digit (of_char c div 16) # hex_digit (of_char c mod 16) # r) =
     Match (of_char (c :: char)) r"
proof -
  have "of_char c < (256 :: nat)" by simp
  then have "of_char c div 16 < (16 :: nat)" by (intro less_mult_imp_div_less) simp
  then show ?thesis
    using hex_digit_read [of "of_char c div 16"] hex_digit_read [of "of_char c mod 16"]
    by (simp add: percentEncodedChar_def hexbyte_def x3_defs)
qed

abbreviation key_char :: "char parser" where
  "key_char \<equiv> palt (pmap char_of percentEncodedChar)
     (pdiff (pchar (\<lambda>_. True)) (pchar (\<lambda>c. c \<in> set reservedChars)))"

lemma key_char_print: "key_char (percent_encode_char c @ r) = Match c r"
proof (cases "c \<in> set reservedChars")
  case True
  then show ?thesis
    using percentEncodedChar_print [of c r]
    by (simp add: percent_encode_char_def palt_def pmap_def pbind_def pattr_def)
next
  case False
  then have "c \<noteq> CHR ''%''" using key_end_literals by auto
  with False show ?thesis by (simp add: percent_encode_char_def percentEncodedChar_def x3_defs)
qed

lemma key_char_end: "starts key_end r \<Longrightarrow> key_char r = NoMatch"
  by (cases r) (auto simp: key_end_def percentEncodedChar_def x3_defs)

lemma percentEncodedString_print:
  assumes "starts key_end r"
  shows "palt percentEncodedString (pattr []) (percent_encode k @ r) = Match k r"
proof (cases k)
  case Nil
  then show ?thesis using key_char_end [OF assms]
    by (simp add: percentEncodedString_def percent_encode_def palt_def pplus_def pbind_def pattr_def)
next
  case (Cons c cs)
  have "pstar key_char (concat (map percent_encode_char cs) @ r) = Match cs r"
    by (rule pstar_print [where F = "\<lambda>_. True"])
      (use key_char_print key_char_end [OF assms] in \<open>auto simp: percent_encode_char_def\<close>)
  then have "percentEncodedString (percent_encode (c # cs) @ r) = Match (c # cs) r"
    using key_char_print [of c "concat (map percent_encode_char cs) @ r"]
    by (simp add: percentEncodedString_def percent_encode_def pplus_def pbind_def pmap_def pattr_def)
  then show ?thesis using Cons by (simp add: palt_def)
qed

lemma keyList_print:
  assumes "starts (\<lambda>c. c = CHR ''/'') r"
  shows "keyList (percent_encode k @ concat (map (\<lambda>k. '','' @ percent_encode k) ks) @ r) = Match (k # ks) r"
proof -
  have "starts key_end r" using assms key_end_literals by (auto intro: starts_mono)
  moreover have "plit '','' r = NoMatch" using assms by (cases r) auto
  ultimately show ?thesis unfolding keyList_def
    by (intro plist_print [where F = "starts key_end"])
      (auto simp: percentEncodedString_print key_end_literals)
qed

lemma optionalKeys_print:
  assumes "starts (\<lambda>c. c = CHR ''/'') r"
  shows "optionalKeys (print_keys ks @ r) = Match ks r"
proof (cases ks)
  case Nil
  then show ?thesis using assms
    by (cases r) (auto simp: optionalKeys_def print_keys_def x3_defs)
next
  case (Cons k ks')
  have "noStrayEquals r = Match () r" using assms
    by (cases r) (auto simp: noStrayEquals_def pnot_def)
  then show ?thesis using Cons keyList_print [OF assms, of k ks']
    by (simp add: optionalKeys_def print_keys_def x3_defs)
qed

lemma identifier_rule_print:
  assumes "valid_ident i" and "starts (\<lambda>c. \<not> ident_char c) r"
  shows "identifier_rule (i @ r) = Match i r"
proof -
  obtain c cs where i: "i = c # cs" "ident_start c" "list_all ident_char cs"
    using assms(1) by (cases i) (auto simp: valid_ident_def)
  then have "takeWhile ident_char (cs @ r) = cs" "dropWhile ident_char (cs @ r) = r"
    using assms(2) by (cases r; auto simp: list_all_iff takeWhile_append dropWhile_append)+
  then show ?thesis using i
    by (simp add: identifier_rule_def pbind_def pmap_def pattr_def pexpect_def pstar_pchar)
qed

lemma apiIdentifier_print:
  assumes "valid_api_ident a" and "starts (\<lambda>c. c = CHR ''='' \<or> c = CHR ''/'') r"
  shows "apiIdentifier (name a @ r) = Match a r"
proof -
  have r: "starts (\<lambda>c. \<not> ident_char c) r"
    using assms(2) key_end_literals by (auto intro: starts_mono)
  have c: "starts (\<lambda>c. \<not> ident_char c) (CHR '':'' # s)" for s using key_end_literals by simp
  have colon: "plit '':'' r = NoMatch" using assms(2) by (cases r) auto
  show ?thesis
  proof (cases "ai_prefix a")
    case None
    then show ?thesis
      using assms(1) identifier_rule_print [OF _ r, of "ai_identifier a"] colon
      by (simp add: apiIdentifier_def name_def valid_api_ident_def x3_defs ApiIdentifier_def)
  next
    case (Some p)
    then show ?thesis
      using assms(1) identifier_rule_print [OF _ r, of "ai_identifier a"]
        identifier_rule_print [OF _ c, of p "ai_identifier a @ r"]
      by (simp add: apiIdentifier_def name_def valid_api_ident_def x3_defs ApiIdentifier_def)
  qed
qed

lemma fullyQualifiedApiIdentifier_print:
  assumes "valid_api_ident a" and "ai_prefix a \<noteq> None" and "starts (\<lambda>c. c = CHR ''='' \<or> c = CHR ''/'') r"
  shows "fullyQualifiedApiIdentifier (name a @ r) = Match a r"
proof -
  obtain p where p: "ai_prefix a = Some p" using assms(2) by auto
  have r: "starts (\<lambda>c. \<not> ident_char c) r"
    using assms(3) key_end_literals by (auto intro: starts_mono)
  have c: "starts (\<lambda>c. \<not> ident_char c) (CHR '':'' # s)" for s using key_end_literals by simp
  show ?thesis
    using assms(1) p identifier_rule_print [OF _ r, of "ai_identifier a"]
      identifier_rule_print [OF _ c, of p "ai_identifier a @ r"]
    by (simp add: fullyQualifiedApiIdentifier_def name_def valid_api_ident_def x3_defs ApiIdentifier_def)
qed

lemma starts_print_keys:
  "starts (\<lambda>c. c = CHR ''/'') r \<Longrightarrow> starts (\<lambda>c. c = CHR ''='' \<or> c = CHR ''/'') (print_keys ks @ r)"
  by (auto simp: print_keys_def starts_def split: list.splits)

lemma listInstance_print:
  assumes "valid_api_ident (apiIdent s)" and "starts (\<lambda>c. c = CHR ''/'') r"
  shows "listInstance (print_segment s @ r) = Match s r"
  using apiIdentifier_print [OF assms(1) starts_print_keys [OF assms(2)]] optionalKeys_print [OF assms(2)]
  by (simp add: listInstance_def print_segment_def pbind_def pmap_def pattr_def PathSegment_def)

lemma fullyQualifiedListInstance_print:
  assumes "valid_api_ident (apiIdent s)" and "ai_prefix (apiIdent s) \<noteq> None" and "starts (\<lambda>c. c = CHR ''/'') r"
  shows "fullyQualifiedListInstance (print_segment s @ r) = Match s r"
  using fullyQualifiedApiIdentifier_print [OF assms(1,2) starts_print_keys [OF assms(3)]] optionalKeys_print [OF assms(3)]
  by (simp add: fullyQualifiedListInstance_def print_segment_def pbind_def pmap_def pattr_def PathSegment_def)

lemma starts_print_segments: "starts (\<lambda>c. c = CHR ''/'') (print_segments ss)"
  by (cases ss) (auto simp: print_segments_def)

lemma listInstances_print:
  assumes "list_all (\<lambda>s. valid_api_ident (apiIdent s)) (s # ss)"
  shows "plist listInstance (plit ''/'') (print_segment s @ print_segments ss) = Match (s # ss) []"
  using assms plist_print [of s ss "starts (\<lambda>c. c = CHR ''/'')" listInstance print_segment "''/''" "[]"]
  by (auto simp: print_segments_def listInstance_print list_all_iff)

lemma uriPath_print:
  assumes "valid_segments ss"
  shows "uriPath (print_segments ss) = Match ss []"
proof (cases ss)
  case Nil
  then show ?thesis by (simp add: print_segments_def uriPath_def uriEmpty_def x3_defs)
next
  case (Cons s ss')
  have s: "fullyQualifiedListInstance (print_segment s @ print_segments ss') = Match s (print_segments ss')"
    using assms Cons starts_print_segments
    by (intro fullyQualifiedListInstance_print) (auto simp: valid_segments_def)
  have eoi: "peoi (print_segment s @ r) = NoMatch" for r
    using assms Cons
    by (intro peoi_nonempty)
      (auto simp: valid_segments_def valid_api_ident_def valid_ident_def print_segment_def name_def split: option.splits)
  have "uriPathContent (print_segment s @ print_segments ss') = Match (s # ss') []"
  proof (cases ss')
    case Nil
    then show ?thesis using s by (simp add: uriPathContent_def print_segments_def x3_defs)
  next
    case (Cons t ts)
    have ps: "print_segments (t # ts) = CHR ''/'' # print_segment t @ print_segments ts"
      by (simp add: print_segments_def)
    have "plist listInstance (plit ''/'') (print_segment t @ print_segments ts) = Match (t # ts) []"
      using assms \<open>ss = s # ss'\<close> Cons by (intro listInstances_print) (simp add: valid_segments_def)
    then show ?thesis using s Cons ps
      by (simp add: uriPathContent_def pbind_def pmap_def popt_def pthen_def pattr_def pexpect_def)
  qed
  then show ?thesis using Cons eoi
    by (simp add: print_segments_def uriPath_def uriPathMaybeEmpty_def uriEmpty_def palt_def pthen_def pbind_def
        pand_def pexpect_def pattr_def)
qed

lemma restconfGrammar_print:
  assumes "valid_uri u"
  shows "restconfGrammar (print_uri u) = Match u []"
proof -
  obtain t d ss where u: "u = URIPath (URIPrefix t d) ss"
    by (metis URIPath_def URIPrefix_def uri_path.cases uri_prefix.cases old.unit.exhaust)
  have segs: "uriPath (print_segments ss) = Match ss []"
    using assms u uriPath_print by (simp add: valid_uri_def URIPath_def)
  show ?thesis
  proof (cases t)
    case NMDADatastore
    then obtain ds where d: "d = Some ds" "valid_api_ident ds" "ai_prefix ds \<noteq> None"
      using assms u by (auto split: option.splits simp: valid_uri_def URIPath_def URIPrefix_def)
    have "fullyQualifiedApiIdentifier (name ds @ print_segments ss) = Match ds (print_segments ss)"
      using d starts_print_segments by (intro fullyQualifiedApiIdentifier_print) (auto intro: starts_mono)
    then show ?thesis using NMDADatastore u d segs
      by (simp add: restconfGrammar_def resources_def resource_def nmdaDatastore_def print_uri_def x3_defs
          URIPath_def URIPrefix_def)
  qed (use assms u segs in \<open>simp_all add: restconfGrammar_def resources_def resource_def print_uri_def x3_defs
      URIPath_def URIPrefix_def valid_uri_def\<close>)
qed

end
