(* ===== verification/Yang_Utils.thy ===== *)
theory Yang_Utils
  imports Exceptions
begin

text \<open>
  \<open>restconf/utils/yang.cpp\<close> and \<open>restconf/utils/sysrepo.cpp\<close>: quoting of list keys into XPath
  predicates, predicates on schema nodes, and datastores. libyang's schema is the parameter
  \<open>ctx\<close>, a record of the accessors the source calls on \<open>libyang::Context\<close> and \<open>SchemaNode\<close>; nodes are
  of an arbitrary type \<open>'n\<close>.
\<close>

section \<open>The libyang schema as a parameter\<close>

text \<open>\<open>libyang::NodeType\<close>: the values that the source tells apart.\<close>

datatype node_type = Container | Leaf | AnyXML | AnyData | Leaflist | List_Node | RPC | Action | Other_NodeType

record 'n ly_context =
  ly_findPath :: "string \<Rightarrow> ly_error + 'n"
  ly_nodeType :: "'n \<Rightarrow> node_type"
  ly_name :: "'n \<Rightarrow> string"
  ly_module :: "'n \<Rightarrow> string"
  ly_path :: "'n \<Rightarrow> string"
  ly_parent :: "'n \<Rightarrow> 'n option"
  ly_childInstantiables :: "'n \<Rightarrow> 'n list"
  ly_keys :: "'n \<Rightarrow> 'n list"
  ly_isUserOrdered :: "'n \<Rightarrow> bool"

section \<open>Keys in XPath predicates\<close>

abbreviation quote :: char where "quote \<equiv> CHR 0x27"
abbreviation dquote :: char where "dquote \<equiv> CHR 0x22"

definition escapeListKey :: "string \<Rightarrow> exn + string" where
  "escapeListKey str =
     (let singleQuotes = quote \<in> set str; doubleQuotes = dquote \<in> set str in
      if singleQuotes \<and> doubleQuotes then
        Inl (Invalid_Argument (''Encountered mixed single and double quotes in XPath. Can'' @ [quote] @ ''t properly escape.''))
      else if singleQuotes then Inr ([dquote] @ str @ [dquote])
      else Inr ([quote] @ str @ [quote]))"

text \<open>The iterators run in parallel; reading a key value past the end is undefined.\<close>

fun listKeyPredicate :: "string list \<Rightarrow> string list \<Rightarrow> exn + string" where
  "listKeyPredicate [] vs = Inr []"
| "listKeyPredicate (n # ns) [] = Inl (Undefined ''listKeyPredicate'')"
| "listKeyPredicate (n # ns) (v # vs) = bindE (escapeListKey v) (\<lambda>q.
     bindE (listKeyPredicate ns vs) (\<lambda>rest. Inr (''['' @ n @ ''='' @ q @ '']'' @ rest)))"

definition leaflistKeyPredicate :: "string \<Rightarrow> exn + string" where
  "leaflistKeyPredicate keyValue = bindE (escapeListKey keyValue) (\<lambda>q. Inr (''[.='' @ q @ '']''))"

definition isUserOrderedList :: "'n ly_context \<Rightarrow> 'n \<Rightarrow> bool" where
  "isUserOrderedList ctx schema =
     (if ly_nodeType ctx schema = List_Node then ly_isUserOrdered ctx schema
      else if ly_nodeType ctx schema = Leaflist then ly_isUserOrdered ctx schema
      else False)"

definition isKeyNode :: "'n ly_context \<Rightarrow> 'n \<Rightarrow> 'n \<Rightarrow> bool" where
  "isKeyNode ctx maybeList node =
     (if ly_nodeType ctx maybeList = List_Node then list_ex (\<lambda>key. node = key) (ly_keys ctx maybeList) else False)"

section \<open>Datastores\<close>

datatype sr_datastore = Running | Operational | Candidate | Startup | FactoryDefault

definition datastoreFromString :: "string \<Rightarrow> exn + sr_datastore" where
  "datastoreFromString ds =
     (if ds = ''ietf-datastores:running'' then Inr Running
      else if ds = ''ietf-datastores:operational'' then Inr Operational
      else if ds = ''ietf-datastores:candidate'' then Inr Candidate
      else if ds = ''ietf-datastores:startup'' then Inr Startup
      else if ds = ''ietf-datastores:factory-default'' then Inr FactoryDefault
      else Inl (Runtime_Error (''Unknown datastore '' @ [quote] @ ds @ [quote])))"

text \<open>
  \<open>ScopedDatastoreSwitch\<close>: the scope \<open>body\<close> runs on a session switched to \<open>ds\<close>; the destructor switches
  back, also when the scope is left by an exception. A session is its active datastore, which is all
  the guard reads and writes; \<open>body\<close> returns the datastore it leaves active and its outcome.
\<close>

record sr_session =
  activeDatastore :: sr_datastore
  nacmUser :: "string option"

definition switchDatastore :: "sr_datastore \<Rightarrow> sr_session \<Rightarrow> sr_session" where
  "switchDatastore ds s = s\<lparr>activeDatastore := ds\<rparr>"

definition withDatastoreSwitch :: "sr_datastore \<Rightarrow> (sr_session \<Rightarrow> sr_session \<times> (exn + 'a)) \<Rightarrow> sr_session \<Rightarrow> sr_session \<times> (exn + 'a)" where
  "withDatastoreSwitch ds body sess =
     (let m_oldDatastore = activeDatastore sess;
          (sess', r) = body (switchDatastore ds sess)
      in (switchDatastore m_oldDatastore sess', r))"

section \<open>A quoted key reads back as the key\<close>

text \<open>XPath 1.0 literals: everything up to the next occurrence of the opening quote.\<close>

fun xpath_literal :: "string \<Rightarrow> (string \<times> string) option" where
  "xpath_literal (c # s) =
     (if c = quote \<or> c = dquote then
        (case dropWhile (\<lambda>x. x \<noteq> c) s of [] \<Rightarrow> None | _ # r \<Rightarrow> Some (takeWhile (\<lambda>x. x \<noteq> c) s, r))
      else None)"
| "xpath_literal [] = None"

text \<open>Predicates \<open>[name=literal]\<close>, read until the input no longer starts with one.\<close>

function xpath_predicates :: "string \<Rightarrow> ((string \<times> string) list \<times> string) option" where
  "xpath_predicates s =
     (if s = [] \<or> hd s \<noteq> CHR ''['' then Some ([], s)
      else (let t = tl s; u = tl (dropWhile (\<lambda>x. x \<noteq> CHR ''='') t) in
        case xpath_literal u of
          None \<Rightarrow> None
        | Some (v, r) \<Rightarrow>
            (if r \<noteq> [] \<and> hd r = CHR '']'' \<and> length r \<le> length s
             then map_option (\<lambda>(ps, r'). ((takeWhile (\<lambda>x. x \<noteq> CHR ''='') t, v) # ps, r')) (xpath_predicates (tl r))
             else None)))"
  by auto
termination by (relation "measure length") (auto simp flip: length_greater_0_conv)

declare xpath_predicates.simps [simp del]

lemma takeWhile_dropWhile_delim:
  "c \<notin> set xs \<Longrightarrow> takeWhile (\<lambda>x. x \<noteq> c) (xs @ c # ys) = xs \<and> dropWhile (\<lambda>x. x \<noteq> c) (xs @ c # ys) = c # ys"
  by (induction xs) auto

lemma escapeListKey_literal:
  assumes "escapeListKey k = Inr q"
  shows "xpath_literal (q @ r) = Some (k, r)"
  using assms takeWhile_dropWhile_delim [of _ k r]
  by (auto simp: escapeListKey_def Let_def split: if_splits)

lemma escapeListKey_Inl_iff:
  "(\<exists>e. escapeListKey k = Inl e) \<longleftrightarrow> quote \<in> set k \<and> dquote \<in> set k"
  by (auto simp: escapeListKey_def Let_def)

lemma xpath_predicates_Cons:
  assumes "CHR ''='' \<notin> set n" and "escapeListKey v = Inr q"
  shows "xpath_predicates (''['' @ n @ ''='' @ q @ '']'' @ r) =
    map_option (\<lambda>(ps, r'). ((n, v) # ps, r')) (xpath_predicates r)"
  using escapeListKey_literal [OF assms(2), of "'']'' @ r"] takeWhile_dropWhile_delim [OF assms(1), of "q @ CHR '']'' # r"]
  by (subst xpath_predicates.simps) simp

lemma listKeyPredicate_read:
  assumes "listKeyPredicate ns vs = Inr p" and "length ns = length vs"
    and "\<forall>n \<in> set ns. CHR ''='' \<notin> set n" and "r = [] \<or> hd r \<noteq> CHR ''[''"
  shows "xpath_predicates (p @ r) = Some (zip ns vs, r)"
  using assms
proof (induction ns vs arbitrary: p rule: listKeyPredicate.induct)
  case (1 vs)
  then show ?case by (auto simp: xpath_predicates.simps [of r])
next
  case (3 n ns v vs)
  then obtain q rest where q: "escapeListKey v = Inr q" "listKeyPredicate ns vs = Inr rest"
    and p: "p = ''['' @ n @ ''='' @ q @ '']'' @ rest"
    by (auto simp: bindE_eq_Inr_iff)
  then show ?case using 3 xpath_predicates_Cons [of n v q "rest @ r"] by simp
qed simp

lemma listKeyPredicate_defined:
  assumes "length ns \<le> length vs" and "listKeyPredicate ns vs = Inl e"
  shows "\<exists>v \<in> set vs. quote \<in> set v \<and> dquote \<in> set v \<and> (\<exists>w. e = Invalid_Argument w)"
  using assms
proof (induction ns vs rule: listKeyPredicate.induct)
  case (3 n ns v vs)
  then show ?case
    by (cases "escapeListKey v") (auto simp: bindE_eq_Inl_iff escapeListKey_def Let_def split: if_splits)
qed auto

text \<open>The guard restores the session's datastore whatever the scope does.\<close>

lemma withDatastoreSwitch_restores:
  "activeDatastore (fst (withDatastoreSwitch ds body sess)) = activeDatastore sess"
  by (simp add: withDatastoreSwitch_def switchDatastore_def split: prod.splits)

lemma datastoreFromString_inj:
  "datastoreFromString a = Inr d \<Longrightarrow> datastoreFromString b = Inr d \<Longrightarrow> a = b"
  by (auto simp: datastoreFromString_def split: if_splits)

lemma datastoreFromString_total: "\<exists>s. datastoreFromString s = Inr d"
proof (cases d)
  case Running
  then have "datastoreFromString ''ietf-datastores:running'' = Inr d" by (simp add: datastoreFromString_def)
  then show ?thesis ..
next
  case Operational
  then have "datastoreFromString ''ietf-datastores:operational'' = Inr d" by (simp add: datastoreFromString_def)
  then show ?thesis ..
next
  case Candidate
  then have "datastoreFromString ''ietf-datastores:candidate'' = Inr d" by (simp add: datastoreFromString_def)
  then show ?thesis ..
next
  case Startup
  then have "datastoreFromString ''ietf-datastores:startup'' = Inr d" by (simp add: datastoreFromString_def)
  then show ?thesis ..
next
  case FactoryDefault
  then have "datastoreFromString ''ietf-datastores:factory-default'' = Inr d" by (simp add: datastoreFromString_def)
  then show ?thesis ..
qed

end
