(* ===== verification/Uri_Request.thy ===== *)
theory Uri_Request
  imports Uri_Query Uri_Roundtrip Yang_Utils
begin

text \<open>
  The part of \<open>restconf/uri.cpp\<close> that turns a parsed URI into a request: resolution of path segments
  in the schema and into a libyang path (\<open>asLibyangPath\<close>), the checks of method, node and query
  parameters, and the entry points \<open>asRestconfRequest\<close>, \<open>asRestconfStreamRequest\<close>,
  \<open>asLibyangPathSplit\<close>, \<open>asYangModule\<close> and \<open>allowedHttpMethodsForUri\<close>.
\<close>

section \<open>Requests\<close>

datatype request_type =
    GetData
  | CreateOrReplaceThisNode
  | DeleteNode
  | Execute
  | ExecuteInternal
  | CreateChildren
  | Type_YangLibraryVersion
  | OptionsQuery
  | MergeData
  | Type_RestconfRoot
  | ListRPC

record restconf_request =
  req_type :: request_type
  req_datastore :: "sr_datastore option"
  req_path :: string
  req_queryParams :: query_params

definition datastoreFromApiIdentifier :: "api_identifier option \<Rightarrow> exn + sr_datastore option" where
  "datastoreFromApiIdentifier ds = (case ds of
      None \<Rightarrow> Inr None
    | Some d \<Rightarrow> (case ai_prefix d of
        None \<Rightarrow> Inl (Undefined ''datastoreFromApiIdentifier'')
      | Some p \<Rightarrow> (case datastoreFromString (p @ '':'' @ ai_identifier d) of
          Inr r \<Rightarrow> Inr (Some r)
        | Inl (Runtime_Error _) \<Rightarrow> throw_error 400 ''application'' ''operation-failed''
            (''Unsupported datastore '' @ p @ '':'' @ ai_identifier d)
        | Inl e \<Rightarrow> Inl e)))"

definition RestconfRequest :: "request_type \<Rightarrow> api_identifier option \<Rightarrow> string \<Rightarrow> query_params \<Rightarrow> exn + restconf_request" where
  "RestconfRequest type ds path params = bindE (datastoreFromApiIdentifier ds) (\<lambda>d.
     Inr \<lparr>req_type = type, req_datastore = d, req_path = path, req_queryParams = params\<rparr>)"

section \<open>Path segments in the schema\<close>

definition findChildSchemaNode :: "'n ly_context \<Rightarrow> 'n \<Rightarrow> api_identifier \<Rightarrow> 'n option" where
  "findChildSchemaNode ctx node ident = find (\<lambda>child.
     ly_name ctx child = ai_identifier ident \<and>
     (case ai_prefix ident of
        None \<Rightarrow> ly_module ctx node = ly_module ctx child
      | Some p \<Rightarrow> ly_module ctx child = p)) (ly_childInstantiables ctx node)"

definition maybeQualified :: "'n ly_context \<Rightarrow> 'n \<Rightarrow> string" where
  "maybeQualified ctx node =
     (if (case ly_parent ctx node of None \<Rightarrow> True | Some p \<Rightarrow> ly_module ctx p \<noteq> ly_module ctx node)
      then ly_module ctx node @ '':'' @ ly_name ctx node
      else ly_name ctx node)"

text \<open>The node of the next segment: a child of the current node or, at the root, a top-level node.\<close>

definition nextSchemaNode :: "'n ly_context \<Rightarrow> 'n option \<Rightarrow> api_identifier \<Rightarrow> exn + 'n" where
  "nextSchemaNode ctx currentNode ident = (case currentNode of
      Some prevNode \<Rightarrow> (case findChildSchemaNode ctx prevNode ident of
          Some n \<Rightarrow> Inr n
        | None \<Rightarrow> throw_error 400 ''application'' ''operation-failed''
            (''Node '' @ [quote] @ name ident @ [quote] @ '' is not a child of '' @ [quote] @ ly_path ctx prevNode @ [quote]))
    | None \<Rightarrow> (case ly_findPath ctx (''/'' @ name ident) of
          Inr n \<Rightarrow> Inr n
        | Inl e \<Rightarrow> throw_error 400 ''application'' ''operation-failed'' (ly_what e)))"

text \<open>\<open>catch (const std::invalid_argument& e)\<close> around the quoting of keys.\<close>

definition catch_invalid_argument :: "exn + 'a \<Rightarrow> exn + 'a" where
  "catch_invalid_argument m = (case m of
      Inl (Invalid_Argument w) \<Rightarrow> throw_error 400 ''application'' ''operation-failed'' w
    | _ \<Rightarrow> m)"

text \<open>The predicate a segment adds to the path, by the type of its node.\<close>

definition segmentPredicate :: "'n ly_context \<Rightarrow> 'n \<Rightarrow> string list \<Rightarrow> exn + string" where
  "segmentPredicate ctx node ks =
     (if ly_nodeType ctx node = List_Node then
        (let listKeys = ly_keys ctx node in
         if length listKeys = 0 then
           throw_error 400 ''application'' ''operation-failed''
             (''List '' @ [quote] @ ly_path ctx node @ [quote] @ '' has no keys. It can not be accessed directly'')
         else if length ks \<noteq> length listKeys then
           throw_error 400 ''application'' ''operation-failed''
             (''List '' @ [quote] @ ly_path ctx node @ [quote] @ '' requires '' @ to_string (length listKeys) @ '' keys'')
         else catch_invalid_argument (listKeyPredicate (map (ly_name ctx) listKeys) ks))
      else if ly_nodeType ctx node = Leaflist then
        (case ks of
           [k] \<Rightarrow> catch_invalid_argument (bindE (escapeListKey k) (\<lambda>q. Inr (''[.='' @ q @ '']'')))
         | _ \<Rightarrow> throw_error 400 ''application'' ''operation-failed''
             (''Leaf-list '' @ [quote] @ ly_path ctx node @ [quote] @ '' requires exactly one key''))
      else if length ks > 0 then
        throw_error 400 ''application'' ''operation-failed''
          (''No keys allowed for node '' @ [quote] @ ly_path ctx node @ [quote])
      else Inr [])"

definition isOperation :: "'n ly_context \<Rightarrow> 'n \<Rightarrow> bool" where
  "isOperation ctx node \<longleftrightarrow> ly_nodeType ctx node = RPC \<or> ly_nodeType ctx node = Action"

text \<open>The loop of \<open>asLibyangPath\<close> over the remaining segments, with \<open>res\<close> and \<open>currentNode\<close>.\<close>

fun asLibyangPath_loop :: "'n ly_context \<Rightarrow> string \<Rightarrow> 'n option \<Rightarrow> path_segment list \<Rightarrow> exn + (string \<times> 'n option)" where
  "asLibyangPath_loop ctx res currentNode [] = Inr (res, currentNode)"
| "asLibyangPath_loop ctx res currentNode (seg # rest) =
     bindE (nextSchemaNode ctx currentNode (apiIdent seg)) (\<lambda>node.
     bindE (segmentPredicate ctx node (keys seg)) (\<lambda>pred.
       if rest \<noteq> [] \<and> isOperation ctx node then
         throw_error 400 ''application'' ''operation-failed''
           ([quote] @ ly_path ctx node @ [quote] @ '' is an RPC/Action node, any child of it can'' @ [quote] @ ''t be requested'')
       else asLibyangPath_loop ctx (res @ ''/'' @ maybeQualified ctx node @ pred) (Some node) rest))"

definition asLibyangPath :: "'n ly_context \<Rightarrow> path_segment list \<Rightarrow> exn + (string \<times> 'n option)" where
  "asLibyangPath ctx segs = asLibyangPath_loop ctx [] None segs"

definition asLibyangSchemaNode :: "'n ly_context \<Rightarrow> path_segment list \<Rightarrow> exn + 'n option" where
  "asLibyangSchemaNode ctx pathSegments = bindE (asLibyangPath ctx pathSegments) (\<lambda>(_, n). Inr n)"

definition asPathSegments :: "(token \<Rightarrow> string) \<Rightarrow> string \<Rightarrow> exn + path_segment list" where
  "asPathSegments what uriPathStr = bindE (parseUriPath what uriPathStr) (\<lambda>u. Inr (segments u))"

section \<open>Methods and nodes\<close>

definition checkValidDataResource :: "'n ly_context \<Rightarrow> 'n \<Rightarrow> uri_prefix \<Rightarrow> exn + unit" where
  "checkValidDataResource ctx node pfx =
     (if resourceType pfx \<noteq> BasicRestconfData \<and> resourceType pfx \<noteq> NMDADatastore then
        throw_error 400 ''application'' ''operation-failed''
          ''GET method must be used with a data resource or a complete datastore resource''
      else (case ly_nodeType ctx node of
          Container \<Rightarrow> Inr ()
        | Leaf \<Rightarrow> Inr ()
        | AnyXML \<Rightarrow> Inr ()
        | AnyData \<Rightarrow> Inr ()
        | Leaflist \<Rightarrow> Inr ()
        | List_Node \<Rightarrow> Inr ()
        | RPC \<Rightarrow> throw_error 405 ''protocol'' ''operation-not-supported''
            ([quote] @ ly_path ctx node @ [quote] @ '' is an RPC/Action node'')
        | Action \<Rightarrow> throw_error 405 ''protocol'' ''operation-not-supported''
            ([quote] @ ly_path ctx node @ [quote] @ '' is an RPC/Action node'')
        | Other_NodeType \<Rightarrow> throw_error 400 ''protocol'' ''operation-failed''
            ([quote] @ ly_path ctx node @ [quote] @ '' is not a data resource'')))"

definition validateMethodForNode :: "'n ly_context \<Rightarrow> string \<Rightarrow> uri_prefix \<Rightarrow> 'n option \<Rightarrow> exn + unit" where
  "validateMethodForNode ctx httpMethod pfx node =
     (if httpMethod = ''OPTIONS'' then Inr ()
      else (case node of
        None \<Rightarrow>
          (if resourceType pfx = BasicRestconfData \<or> resourceType pfx = NMDADatastore then
             (if httpMethod = ''DELETE'' then
                throw_error 400 ''application'' ''operation-failed'' ([quote] @ ''/'' @ [quote] @ '' is not a data resource'')
              else Inr ())
           else if httpMethod \<noteq> ''GET'' \<and> httpMethod \<noteq> ''HEAD'' then
             throw_error 405 ''application'' ''operation-not-supported'' ''Method not allowed.''
           else Inr ())
      | Some n \<Rightarrow>
          (if httpMethod = ''POST'' then
             (case ly_nodeType ctx n of
                RPC \<Rightarrow>
                  (if resourceType pfx \<noteq> BasicRestconfOperations then
                     throw_error 400 ''protocol'' ''operation-failed''
                       (''RPC '' @ [quote] @ ly_path ctx n @ [quote] @ '' must be requested using operation prefix'')
                   else Inr ())
              | Action \<Rightarrow>
                  (if \<not> resourceType pfx = BasicRestconfData \<and>
                      \<not> (resourceType pfx = NMDADatastore \<and>
                         datastore pfx = Some (ApiIdentifier (Some ''ietf-datastores'') ''operational'')) then
                     throw_error 400 ''protocol'' ''operation-failed''
                       (''Action '' @ [quote] @ ly_path ctx n @ [quote] @ '' must be requested using data prefix or via operational NMDA'')
                   else Inr ())
              | _ \<Rightarrow> checkValidDataResource ctx n pfx)
           else checkValidDataResource ctx n pfx)))"

section \<open>Query parameters\<close>

definition param_error :: "string \<Rightarrow> string \<Rightarrow> string \<Rightarrow> exn + 'a" where
  "param_error before param after =
     throw_error 400 ''protocol'' ''invalid-value'' (before @ [quote] @ param @ [quote] @ after)"

definition emplaceParam :: "query_params \<Rightarrow> string \<times> query_param_value \<Rightarrow> exn + query_params" where
  "emplaceParam params kv =
     (if map_of params (fst kv) \<noteq> None then param_error ''Query parameter '' (fst kv) '' already specified''
      else Inr (params @ [kv]))"

text \<open>A loop that rejects the first of \<open>names\<close> that is present, unless the method is allowed.\<close>

definition rejectParams :: "query_params \<Rightarrow> bool \<Rightarrow> string \<Rightarrow> string list \<Rightarrow> exn + unit" where
  "rejectParams params allowed message names = foldE (\<lambda>_ param.
     if map_of params param \<noteq> None \<and> \<not> allowed then param_error ''Query parameter '' param message
     else Inr ()) () names"

definition validateQueryParameters :: "query_params \<Rightarrow> string \<Rightarrow> exn + unit" where
  "validateQueryParameters params0 httpMethod =
     bindE (foldE emplaceParam [] params0) (\<lambda>params.
     bindE (rejectParams params (httpMethod = ''GET'' \<or> httpMethod = ''HEAD'')
              '' can be used only with GET and HEAD methods'' [''depth'', ''with-defaults'', ''content'', ''fields'']) (\<lambda>_.
     bindE (rejectParams params (httpMethod = ''POST'' \<or> httpMethod = ''PUT'')
              '' can be used only with POST and PUT methods'' [''insert'', ''point'']) (\<lambda>_.
     bindE (rejectParams params False '' can be used only with streams'' [''filter'', ''start-time'', ''stop-time'']) (\<lambda>_.
       (let hasInsertParamBeforeOrAfter = (map_of params ''insert'' = Some After \<or> map_of params ''insert'' = Some Before);
            hasPointParam = (map_of params ''point'' \<noteq> None)
        in if hasPointParam \<noteq> hasInsertParamBeforeOrAfter then
             throw_error 400 ''protocol'' ''invalid-value''
               (''Query parameter '' @ [quote] @ ''point'' @ [quote] @ '' must always come with parameter '' @
                [quote] @ ''insert'' @ [quote] @ '' set to '' @ [quote] @ ''before'' @ [quote] @ '' or '' @ [quote] @ ''after'' @ [quote])
           else Inr ())))))"

definition validateQueryParametersForStream :: "query_params \<Rightarrow> exn + unit" where
  "validateQueryParametersForStream params0 =
     bindE (foldE (\<lambda>params (k, v). bindE (emplaceParam params (k, v)) (\<lambda>params.
        if k \<noteq> ''filter'' \<and> k \<noteq> ''start-time'' \<and> k \<noteq> ''stop-time''
        then param_error ''Query parameter '' k ('' can'' @ [quote] @ ''t be used with streams'')
        else Inr params)) [] params0) (\<lambda>_. Inr ())"

section \<open>Entry points\<close>

definition isInternalRPCPath :: "string \<Rightarrow> bool" where
  "isInternalRPCPath schemaPath \<longleftrightarrow> schemaPath \<in> set
     [''/ietf-subscribed-notifications:establish-subscription'',
      ''/ietf-subscribed-notifications:modify-subscription'',
      ''/ietf-subscribed-notifications:delete-subscription'',
      ''/ietf-subscribed-notifications:kill-subscription'']"

definition known_methods :: "string list" where
  "known_methods = [''GET'', ''PUT'', ''POST'', ''DELETE'', ''HEAD'', ''OPTIONS'', ''PATCH'']"

text \<open>The chain of conditions that selects the request type once the URI is valid for the method.\<close>

definition classifyRequest :: "'n ly_context \<Rightarrow> string \<Rightarrow> string \<Rightarrow> uri_path \<Rightarrow> query_params \<Rightarrow> string \<Rightarrow> 'n option \<Rightarrow> exn + restconf_request" where
  "classifyRequest ctx httpMethod uriPathStr uri queryParameters lyPath schemaNode =
     (let path = (if segments uri = [] then ''/'' else lyPath);
          pfx = path_prefix uri;
          result = (\<lambda>type path. RestconfRequest type (datastore pfx) path queryParameters)
      in
      if httpMethod = ''OPTIONS'' then RestconfRequest OptionsQuery None [] []
      else if resourceType pfx = RestconfRoot then RestconfRequest Type_RestconfRoot None [] queryParameters
      else if resourceType pfx = YangLibraryVersion then RestconfRequest Type_YangLibraryVersion None [] queryParameters
      else if resourceType pfx = BasicRestconfOperations \<and> schemaNode = None then RestconfRequest ListRPC None [] queryParameters
      else if httpMethod = ''GET'' \<or> httpMethod = ''HEAD'' then
        result GetData (if segments uri = [] then ''/*'' else path)
      else if httpMethod = ''PUT'' then result CreateOrReplaceThisNode path
      else if httpMethod = ''DELETE'' \<and> schemaNode \<noteq> None then result DeleteNode path
      else if httpMethod = ''POST'' \<and> (case schemaNode of None \<Rightarrow> False | Some n \<Rightarrow> isOperation ctx n) then
        result (if isInternalRPCPath (case schemaNode of None \<Rightarrow> [] | Some n \<Rightarrow> ly_path ctx n) then ExecuteInternal else Execute) path
      else if httpMethod = ''POST'' \<and> (resourceType pfx = BasicRestconfData \<or> resourceType pfx = NMDADatastore) then
        result CreateChildren path
      else if httpMethod = ''PATCH'' then result MergeData path
      else Inl (Logic_Error (''Unhandled request '' @ httpMethod @ '' '' @ uriPathStr)))"

definition asRestconfRequest :: "(token \<Rightarrow> string) \<Rightarrow> 'n ly_context \<Rightarrow> string \<Rightarrow> string \<Rightarrow> string \<Rightarrow> exn + restconf_request" where
  "asRestconfRequest what ctx httpMethod uriPathStr uriQueryString =
     (if httpMethod \<notin> set known_methods then
        throw_error 405 ''application'' ''operation-not-supported'' ''Method not allowed.''
      else
        bindE (parseUriPath what uriPathStr) (\<lambda>uri.
        bindE (parseQueryParams what uriQueryString (length uriPathStr + 1)) (\<lambda>queryParameters.
        bindE (validateQueryParameters queryParameters httpMethod) (\<lambda>_.
        bindE (asLibyangPath ctx (segments uri)) (\<lambda>(lyPath, schemaNode).
        bindE (validateMethodForNode ctx httpMethod (path_prefix uri) schemaNode) (\<lambda>_.
          classifyRequest ctx httpMethod uriPathStr uri queryParameters lyPath schemaNode))))))"

definition asLibyangPathSplit :: "(token \<Rightarrow> string) \<Rightarrow> 'n ly_context \<Rightarrow> string \<Rightarrow> exn + (string \<times> path_segment)" where
  "asLibyangPathSplit what ctx uriPathStr =
     bindE (parseUriPath what uriPathStr) (\<lambda>uri.
       if segments uri = [] then
         throw_error 400 ''application'' ''operation-failed'' ''Cannot split the datastore resource URI''
       else
         (let lastSegment = last (segments uri) in
          bindE (asLibyangPath ctx (butlast (segments uri))) (\<lambda>(parentLyPath, _).
            if ai_prefix (apiIdent lastSegment) = None then
              bindE (asLibyangPath ctx (segments uri)) (\<lambda>(_, schemaNode).
                case schemaNode of
                  None \<Rightarrow> Inl (Undefined ''asLibyangPathSplit'')
                | Some n \<Rightarrow> Inr (parentLyPath,
                    lastSegment\<lparr>apiIdent := (apiIdent lastSegment)\<lparr>ai_prefix := Some (ly_module ctx n)\<rparr>\<rparr>))
            else Inr (parentLyPath, lastSegment))))"

text \<open>\<open>getModuleOrSubmodule\<close>: \<open>getModule\<close> and \<open>getSubmodule\<close> are libyang's.\<close>

datatype ('m, 'sm) module_or_submodule = Module 'm | Submodule 'sm

definition getModuleOrSubmodule :: "(string \<Rightarrow> string option \<Rightarrow> 'm option) \<Rightarrow> (string \<Rightarrow> string option \<Rightarrow> 'sm option) \<Rightarrow>
    string \<Rightarrow> string option \<Rightarrow> ('m, 'sm) module_or_submodule option" where
  "getModuleOrSubmodule getModule getSubmodule nm revn =
     (case getModule nm revn of
        Some m \<Rightarrow> Some (Module m)
      | None \<Rightarrow> (case getSubmodule nm revn of Some m \<Rightarrow> Some (Submodule m) | None \<Rightarrow> None))"

definition asYangModule :: "(token \<Rightarrow> string) \<Rightarrow> (string \<Rightarrow> string option \<Rightarrow> 'm option) \<Rightarrow> (string \<Rightarrow> string option \<Rightarrow> 'sm option) \<Rightarrow>
    string \<Rightarrow> exn + ('m, 'sm) module_or_submodule option" where
  "asYangModule what getModule getSubmodule uriPathStr =
     bindE (parseModuleWithRevision what uriPathStr) (\<lambda>m.
       Inr (getModuleOrSubmodule getModule getSubmodule (mod_name m) (mod_revision m)))"

text \<open>A stream request carries query parameters only for notification streams.\<close>

definition asRestconfStreamRequest :: "(token \<Rightarrow> string) \<Rightarrow> (string \<Rightarrow> 'u option) \<Rightarrow> string \<Rightarrow> string \<Rightarrow> string \<Rightarrow>
    exn + ('u stream_request \<times> query_params)" where
  "asRestconfStreamRequest what gen httpMethod uriPathStr uriQueryString =
     (if httpMethod \<noteq> ''GET'' \<and> httpMethod \<noteq> ''HEAD'' then
        throw_error 405 ''application'' ''operation-not-supported'' ''Method not allowed.''
      else
        bindE (parseStreamUri what gen uriPathStr) (\<lambda>type.
          case type of
            NotificationStreamRequest _ _ \<Rightarrow>
              bindE (parseQueryParams what uriQueryString (length uriPathStr + 1)) (\<lambda>queryParameters.
              bindE (validateQueryParametersForStream queryParameters) (\<lambda>_. Inr (type, queryParameters)))
          | SubscribedStreamRequest _ \<Rightarrow> Inr (type, [])))"

text \<open>The body of the loop over the methods; \<open>std::set<std::string>\<close> is a set.\<close>

definition tryMethod :: "(token \<Rightarrow> string) \<Rightarrow> 'n ly_context \<Rightarrow> string \<Rightarrow> string set \<Rightarrow> string \<Rightarrow> exn + string set" where
  "tryMethod what ctx uriPathStr allowed httpMethod =
     (case asRestconfRequest what ctx httpMethod uriPathStr [] of
        Inr _ \<Rightarrow> Inr (insert httpMethod allowed)
      | Inl (Error_Response _) \<Rightarrow> Inr allowed
      | Inl e \<Rightarrow> Inl e)"

definition allowedHttpMethodsForUri :: "(token \<Rightarrow> string) \<Rightarrow> 'n ly_context \<Rightarrow> string \<Rightarrow> exn + string set" where
  "allowedHttpMethodsForUri what ctx uriPathStr =
     bindE (foldE (tryMethod what ctx uriPathStr) {} [''GET'', ''PUT'', ''POST'', ''DELETE'', ''HEAD'', ''PATCH''])
       (\<lambda>allowed. Inr (if allowed \<noteq> {} then insert ''OPTIONS'' allowed else allowed))"

definition uriJoin :: "string \<Rightarrow> string \<Rightarrow> string" where
  "uriJoin a b =
     (if a \<noteq> [] \<and> last a = CHR ''/'' \<and> b \<noteq> [] \<and> hd b = CHR ''/'' then a @ tl b
      else if a \<noteq> [] \<and> b \<noteq> [] \<and> last a \<noteq> CHR ''/'' \<and> hd b \<noteq> CHR ''/'' then a @ ''/'' @ b
      else a @ b)"

end
