(* ===== verification/Uri_Path_Laws.thy ===== *)
theory Uri_Path_Laws
  imports Uri_Request
begin

text \<open>
  What \<open>asLibyangPath\<close> promises: it succeeds exactly on the segments that resolve node by node in the
  schema, and the path it prints reads back, as an XPath, to the qualified names of those nodes and
  the key values of the URI, whatever bytes the values hold.
\<close>

section \<open>Specification of resolution\<close>

definition schema_step :: "'n ly_context \<Rightarrow> 'n option \<Rightarrow> api_identifier \<Rightarrow> 'n \<Rightarrow> bool" where
  "schema_step ctx cur ident n = (case cur of
      None \<Rightarrow> ly_findPath ctx (''/'' @ name ident) = Inr n
    | Some p \<Rightarrow> findChildSchemaNode ctx p ident = Some n)"

definition quotable :: "string \<Rightarrow> bool" where
  "quotable k \<longleftrightarrow> \<not> (quote \<in> set k \<and> dquote \<in> set k)"

definition keys_fit :: "'n ly_context \<Rightarrow> 'n \<Rightarrow> string list \<Rightarrow> bool" where
  "keys_fit ctx n ks \<longleftrightarrow> list_all quotable ks \<and>
     (case ly_nodeType ctx n of
        List_Node \<Rightarrow> ly_keys ctx n \<noteq> [] \<and> length ks = length (ly_keys ctx n)
      | Leaflist \<Rightarrow> length ks = 1
      | _ \<Rightarrow> ks = [])"

fun resolves :: "'n ly_context \<Rightarrow> 'n option \<Rightarrow> path_segment list \<Rightarrow> 'n list \<Rightarrow> bool" where
  "resolves ctx cur [] ns \<longleftrightarrow> ns = []"
| "resolves ctx cur (s # ss) ns \<longleftrightarrow> (case ns of [] \<Rightarrow> False | n # ns' \<Rightarrow>
     schema_step ctx cur (apiIdent s) n \<and> keys_fit ctx n (keys s) \<and>
     (ss \<noteq> [] \<longrightarrow> \<not> isOperation ctx n) \<and> resolves ctx (Some n) ss ns')"

text \<open>The key names a node contributes to the predicates of its step.\<close>

definition key_names :: "'n ly_context \<Rightarrow> 'n \<Rightarrow> string list" where
  "key_names ctx n = (case ly_nodeType ctx n of
     List_Node \<Rightarrow> map (ly_name ctx) (ly_keys ctx n) | Leaflist \<Rightarrow> [''.''] | _ \<Rightarrow> [])"

fun path_meaning :: "'n ly_context \<Rightarrow> path_segment list \<Rightarrow> 'n list \<Rightarrow> (string \<times> (string \<times> string) list) list" where
  "path_meaning ctx (s # ss) (n # ns) = (maybeQualified ctx n, zip (key_names ctx n) (keys s)) # path_meaning ctx ss ns"
| "path_meaning ctx _ _ = []"

section \<open>Reading a path back\<close>

function read_path :: "string \<Rightarrow> (string \<times> (string \<times> string) list) list option" where
  "read_path s =
     (if s = [] then Some []
      else if hd s \<noteq> CHR ''/'' then None
      else (let n = takeWhile (\<lambda>c. c \<noteq> CHR ''/'' \<and> c \<noteq> CHR ''['') (tl s);
                u = dropWhile (\<lambda>c. c \<noteq> CHR ''/'' \<and> c \<noteq> CHR ''['') (tl s) in
        case xpath_predicates u of
          None \<Rightarrow> None
        | Some (ps, r) \<Rightarrow> (if length r < length s then map_option ((#) (n, ps)) (read_path r) else None)))"
  by auto
termination by (relation "measure length") auto

declare read_path.simps [simp del]

text \<open>YANG identifiers hold none of the characters that structure a path.\<close>

definition plain_name :: "string \<Rightarrow> bool" where
  "plain_name s \<longleftrightarrow> list_all (\<lambda>c. c \<noteq> CHR ''/'' \<and> c \<noteq> CHR ''['' \<and> c \<noteq> CHR ''='') s"

definition plain_schema :: "'n ly_context \<Rightarrow> bool" where
  "plain_schema ctx \<longleftrightarrow> (\<forall>n. plain_name (ly_name ctx n) \<and> plain_name (ly_module ctx n))"

lemma maybeQualified_plain: "plain_schema ctx \<Longrightarrow> plain_name (maybeQualified ctx n)"
  by (auto simp: plain_schema_def plain_name_def maybeQualified_def split: option.splits)

section \<open>One segment\<close>

lemma nextSchemaNode_Inr_iff: "nextSchemaNode ctx cur ident = Inr n \<longleftrightarrow> schema_step ctx cur ident n"
  by (auto simp: nextSchemaNode_def schema_step_def split: option.splits sum.splits)

lemma catch_invalid_argument_Inr_iff [simp]: "catch_invalid_argument m = Inr a \<longleftrightarrow> m = Inr a"
  by (auto simp: catch_invalid_argument_def split: sum.splits exn.splits)

lemma escapeListKey_Inr_iff: "(\<exists>q. escapeListKey k = Inr q) \<longleftrightarrow> quotable k"
  by (auto simp: escapeListKey_def quotable_def Let_def)

lemma listKeyPredicate_Inr_iff:
  "length ns = length vs \<Longrightarrow> (\<exists>p. listKeyPredicate ns vs = Inr p) \<longleftrightarrow> list_all quotable vs"
proof (induction ns vs rule: listKeyPredicate.induct)
  case (3 n ns v vs)
  then show ?case using escapeListKey_Inr_iff [of v] by (auto simp: bindE_eq_Inr_iff)
qed auto

lemma listKeyPredicate_leaflist: "listKeyPredicate [''.''] [k] = bindE (escapeListKey k) (\<lambda>q. Inr (''[.='' @ q @ '']''))"
  by simp

text \<open>Where the keys fit, the predicate of a segment is \<open>listKeyPredicate\<close> of its key names.\<close>

lemma segmentPredicate_Inr_iff:
  "segmentPredicate ctx n ks = Inr p \<longleftrightarrow> keys_fit ctx n ks \<and> listKeyPredicate (key_names ctx n) ks = Inr p"
proof (cases "ly_nodeType ctx n")
  case List_Node
  then show ?thesis
    using listKeyPredicate_Inr_iff [of "map (ly_name ctx) (ly_keys ctx n)" ks]
    by (auto simp: segmentPredicate_def keys_fit_def key_names_def Let_def split: if_splits)
next
  case Leaflist
  then show ?thesis
    using escapeListKey_Inr_iff
    by (cases ks rule: list.exhaust [case_product list.exhaust [of "tl ks"]])
      (auto simp: segmentPredicate_def keys_fit_def key_names_def bindE_eq_Inr_iff split: list.splits)
qed (auto simp: segmentPredicate_def keys_fit_def key_names_def)

lemma keys_fit_length: "keys_fit ctx n ks \<Longrightarrow> length (key_names ctx n) = length ks"
  by (auto simp: keys_fit_def key_names_def split: node_type.splits)

lemma key_names_plain: "plain_schema ctx \<Longrightarrow> \<forall>k \<in> set (key_names ctx n). CHR ''='' \<notin> set k"
proof -
  assume "plain_schema ctx"
  then have "plain_name (ly_name ctx m)" for m by (simp add: plain_schema_def)
  then have "CHR ''='' \<notin> set (ly_name ctx m)" for m unfolding plain_name_def list_all_iff by blast
  then show ?thesis by (cases "ly_nodeType ctx n") (auto simp: key_names_def)
qed

lemma listKeyPredicate_start:
  assumes "listKeyPredicate ns vs = Inr p"
  shows "p = [] \<or> hd p = CHR ''[''"
proof (cases ns)
  case (Cons n ns')
  then obtain v vs' q rest where "p = ''['' @ n @ ''='' @ q @ '']'' @ rest"
    using assms by (cases vs) (auto simp only: listKeyPredicate.simps bindE_eq_Inr_iff sum.inject sum.distinct)
  then show ?thesis by simp
qed (use assms in simp)

section \<open>The whole path\<close>

text \<open>The string printed for segments resolved to given nodes.\<close>

fun path_print :: "'n ly_context \<Rightarrow> path_segment list \<Rightarrow> 'n list \<Rightarrow> string" where
  "path_print ctx (s # ss) (n # ns) =
     ''/'' @ maybeQualified ctx n @ (case listKeyPredicate (key_names ctx n) (keys s) of Inr p \<Rightarrow> p | Inl _ \<Rightarrow> []) @ path_print ctx ss ns"
| "path_print ctx _ _ = []"

definition last_node :: "'n option \<Rightarrow> 'n list \<Rightarrow> 'n option" where
  "last_node cur ns = (if ns = [] then cur else Some (last ns))"

lemma last_node_simps [simp]: "last_node cur [] = cur" "last_node cur (n # ns) = last_node (Some n) ns"
  by (simp_all add: last_node_def)

lemma asLibyangPath_loop_iff:
  "asLibyangPath_loop ctx res cur segs = Inr (path, node) \<longleftrightarrow>
     (\<exists>ns. resolves ctx cur segs ns \<and> node = last_node cur ns \<and> path = res @ path_print ctx segs ns)"
proof (induction segs arbitrary: res cur)
  case Nil
  then show ?case by auto
next
  case (Cons s ss)
  have "asLibyangPath_loop ctx res cur (s # ss) = Inr (path, node) \<longleftrightarrow>
    (\<exists>n p. schema_step ctx cur (apiIdent s) n \<and> keys_fit ctx n (keys s) \<and>
       listKeyPredicate (key_names ctx n) (keys s) = Inr p \<and> (ss \<noteq> [] \<longrightarrow> \<not> isOperation ctx n) \<and>
       asLibyangPath_loop ctx (res @ ''/'' @ maybeQualified ctx n @ p) (Some n) ss = Inr (path, node))"
    unfolding asLibyangPath_loop.simps(2) bindE_eq_Inr_iff nextSchemaNode_Inr_iff segmentPredicate_Inr_iff if_throw_Inr
    by blast
  also have "\<dots> \<longleftrightarrow> (\<exists>n ns. schema_step ctx cur (apiIdent s) n \<and> keys_fit ctx n (keys s) \<and>
       (ss \<noteq> [] \<longrightarrow> \<not> isOperation ctx n) \<and> resolves ctx (Some n) ss ns \<and>
       node = last_node (Some n) ns \<and> path = res @ path_print ctx (s # ss) (n # ns))"
  proof -
    have "\<exists>p. listKeyPredicate (key_names ctx n) (keys s) = Inr p" if "keys_fit ctx n (keys s)" for n
      using that listKeyPredicate_Inr_iff [OF keys_fit_length [OF that]] by (auto simp: keys_fit_def)
    then show ?thesis unfolding Cons.IH by fastforce
  qed
  also have "\<dots> \<longleftrightarrow> (\<exists>ns. resolves ctx cur (s # ss) ns \<and> node = last_node cur ns \<and> path = res @ path_print ctx (s # ss) ns)"
    by (auto split: list.splits) (metis last_node_simps(2) list.exhaust)
  finally show ?case .
qed

lemma asLibyangPath_iff:
  "asLibyangPath ctx segs = Inr (path, node) \<longleftrightarrow>
     (\<exists>ns. resolves ctx None segs ns \<and> node = last_node None ns \<and> path = path_print ctx segs ns)"
  by (simp add: asLibyangPath_def asLibyangPath_loop_iff)

lemma resolves_length: "resolves ctx cur segs ns \<Longrightarrow> length ns = length segs"
  by (induction segs arbitrary: cur ns) (auto split: list.splits)

lemma path_print_start: "path_print ctx segs ns = [] \<or> hd (path_print ctx segs ns) = CHR ''/''"
  by (cases "(ctx, segs, ns)" rule: path_print.cases) auto

lemma read_path_step:
  assumes "plain_name n" and "p = [] \<or> hd p = CHR ''[''" and "r = [] \<or> hd r = CHR ''/''"
    and "xpath_predicates (p @ r) = Some (ps, r)"
  shows "read_path (''/'' @ n @ p @ r) = map_option ((#) (n, ps)) (read_path r)"
proof -
  let ?P = "\<lambda>c. c \<noteq> CHR ''/'' \<and> c \<noteq> CHR ''[''"
  have n: "\<forall>c \<in> set n. ?P c" using assms(1) by (auto simp: plain_name_def list_all_iff)
  have "p @ r = [] \<or> \<not> ?P (hd (p @ r))" using assms(2,3) by (cases p) auto
  then have "takeWhile ?P (n @ p @ r) = n \<and> dropWhile ?P (n @ p @ r) = p @ r"
    using n by (cases "p @ r") (auto simp: takeWhile_append dropWhile_append)
  then show ?thesis using assms(4) by (subst read_path.simps) simp
qed

lemma read_path_print:
  assumes "plain_schema ctx" and "resolves ctx cur segs ns"
  shows "read_path (path_print ctx segs ns) = Some (path_meaning ctx segs ns)"
  using assms(2)
proof (induction segs arbitrary: cur ns)
  case Nil
  then show ?case by (simp add: read_path.simps)
next
  case (Cons s ss)
  then obtain n ns' where ns: "ns = n # ns'" "keys_fit ctx n (keys s)" "resolves ctx (Some n) ss ns'"
    by (auto split: list.splits)
  have len: "length (key_names ctx n) = length (keys s)" by (rule keys_fit_length [OF ns(2)])
  then obtain p where p: "listKeyPredicate (key_names ctx n) (keys s) = Inr p"
    using listKeyPredicate_Inr_iff [OF len] ns(2) by (auto simp: keys_fit_def)
  let ?r = "path_print ctx ss ns'"
  have r: "?r = [] \<or> hd ?r = CHR ''/''" by (rule path_print_start)
  then have "xpath_predicates (p @ ?r) = Some (zip (key_names ctx n) (keys s), ?r)"
    by (intro listKeyPredicate_read [OF p len key_names_plain [OF assms(1)]]) auto
  then have "read_path (''/'' @ maybeQualified ctx n @ p @ ?r) =
      map_option ((#) (maybeQualified ctx n, zip (key_names ctx n) (keys s))) (read_path ?r)"
    by (intro read_path_step maybeQualified_plain assms(1) r listKeyPredicate_start [OF p])
  then show ?case using p ns(1) Cons.IH [OF ns(3)] by simp
qed

section \<open>Errors\<close>

lemma only_errors_nextSchemaNode: "only_errors (nextSchemaNode ctx cur ident)"
  by (auto simp: nextSchemaNode_def split: option.splits sum.splits)

lemma only_errors_catch:
  "(\<And>e. m = Inl e \<Longrightarrow> \<exists>w. e = Invalid_Argument w) \<Longrightarrow> only_errors (catch_invalid_argument m)"
  by (cases m) (auto simp: catch_invalid_argument_def split: exn.splits)

lemma only_errors_segmentPredicate: "only_errors (segmentPredicate ctx n ks)"
proof -
  have "\<exists>w. e = Invalid_Argument w" if "bindE (escapeListKey k) (\<lambda>q. Inr (f q)) = Inl e" for k f e
    using that by (auto simp: bindE_eq_Inl_iff escapeListKey_def Let_def split: if_splits)
  then show ?thesis
    by (auto simp: segmentPredicate_def Let_def split: list.splits
        intro!: only_errors_catch dest!: listKeyPredicate_defined [rotated])
qed

lemma only_errors_asLibyangPath: "only_errors (asLibyangPath ctx segs)"
proof -
  have "only_errors (asLibyangPath_loop ctx res cur segs)" for res cur
    by (induction segs arbitrary: res cur)
      (auto intro!: only_errors_bindE only_errors_nextSchemaNode only_errors_segmentPredicate)
  then show ?thesis by (simp add: asLibyangPath_def)
qed

end
