(* ===== verification/Uri_Request_Laws.thy ===== *)
theory Uri_Request_Laws
  imports Uri_Path_Laws
begin

text \<open>
  What the entry points of \<open>restconf/uri.cpp\<close> promise: the values of parsed query parameters, the
  exact condition under which query parameters are accepted, the table of methods, resources and
  nodes that gives the type of a request, and that the only exceptions are error responses.
\<close>

section \<open>Values of parsed query parameters\<close>

fun slash_shaped :: "expr \<Rightarrow> bool" where
  "slash_shaped (SlashExpr a None) \<longleftrightarrow> valid_api_ident a"
| "slash_shaped (SlashExpr a (Some e)) \<longleftrightarrow> valid_api_ident a \<and> slash_shaped e"
| "slash_shaped _ \<longleftrightarrow> False"

fun semi_shaped :: "expr \<Rightarrow> bool" and paren_shaped :: "expr \<Rightarrow> bool" where
  "semi_shaped (SemiExpr l None) \<longleftrightarrow> paren_shaped l"
| "semi_shaped (SemiExpr l (Some r)) \<longleftrightarrow> paren_shaped l \<and> semi_shaped r"
| "semi_shaped _ \<longleftrightarrow> False"
| "paren_shaped (ParenExpr l None) \<longleftrightarrow> slash_shaped l"
| "paren_shaped (ParenExpr l (Some e)) \<longleftrightarrow> slash_shaped l \<and> semi_shaped e"
| "paren_shaped _ \<longleftrightarrow> False"

text \<open>The keys a value can stand under, and what holds of the value.\<close>

fun param_keys :: "query_param_value \<Rightarrow> string list" where
  "param_keys UnboundedDepth = [''depth'']"
| "param_keys (Depth n) = [''depth'']"
| "param_keys (StringValue s) = [''filter'', ''start-time'', ''stop-time'']"
| "param_keys Trim = [''with-defaults'']"
| "param_keys Explicit = [''with-defaults'']"
| "param_keys ReportAll = [''with-defaults'']"
| "param_keys ReportAllTagged = [''with-defaults'']"
| "param_keys AllNodes = [''content'']"
| "param_keys OnlyNonConfigNodes = [''content'']"
| "param_keys OnlyConfigNodes = [''content'']"
| "param_keys First = [''insert'']"
| "param_keys Last = [''insert'']"
| "param_keys Before = [''insert'']"
| "param_keys After = [''insert'']"
| "param_keys (PointParsed segs) = [''point'']"
| "param_keys (FieldsExpr e) = [''fields'']"

fun value_ok :: "query_param_value \<Rightarrow> bool" where
  "value_ok (Depth n) \<longleftrightarrow> 1 \<le> n \<and> n \<le> 65535"
| "value_ok (StringValue s) \<longleftrightarrow> s \<noteq> []"
| "value_ok (PointParsed segs) \<longleftrightarrow> valid_segments segs"
| "value_ok (FieldsExpr e) \<longleftrightarrow> semi_shaped e"
| "value_ok _ \<longleftrightarrow> True"

definition valid_param :: "string \<times> query_param_value \<Rightarrow> bool" where
  "valid_param kv \<longleftrightarrow> fst kv \<in> set (param_keys (snd kv)) \<and> value_ok (snd kv)"

lemma fieldsSlash_shaped: "fieldsSlash n s = Match e r \<Longrightarrow> slash_shaped e"
proof (induction n arbitrary: s e r)
  case (Suc n)
  then show ?case by (auto simp: x3_match_iffs dest!: apiIdentifier_valid)
qed simp

lemma fieldsSemi_shaped: "fieldsSemi n s = Match e r \<Longrightarrow> semi_shaped e"
proof (induction n arbitrary: s e r)
  case (Suc n)
  then show ?case unfolding fieldsSemi.simps fieldsParen_def
    by (auto simp: x3_match_iffs simp del: fieldsSlash.simps dest!: fieldsSlash_shaped)
qed simp

lemma psymbols_value: "psymbols tab s = Match v r \<Longrightarrow> v \<in> snd ` set tab"
  using psymbols_cases [of tab s] by (force simp: image_iff)

lemma pplus_nonempty: "pplus p s = Match as r \<Longrightarrow> as \<noteq> []"
  by (auto simp: pplus_def x3_match_iffs)

lemma paction_Match_iff: "paction f p s = Match b r \<longleftrightarrow> (\<exists>a. p s = Match a r \<and> f a = Some b)"
  by (auto simp: paction_def pbind_Match_iff split: option.splits)

lemma depthParam_valid: "depthParam s = Match v r \<Longrightarrow> valid_param (''depth'', v)"
  by (auto simp: depthParam_def x3_match_iffs paction_Match_iff valid_param_def validDepthValues_def split: if_splits)

lemma dateAndTime_nonempty: "dateAndTime s = Match v r \<Longrightarrow> v \<noteq> []"
  by (auto simp: dateAndTime_def date_def year_def digit_def pcat_def x3_match_iffs)

lemma keyValue_valid:
  "keyValue k t p s = Match kv r \<Longrightarrow> (\<And>s v r. p s = Match v r \<Longrightarrow> valid_param (k, v)) \<Longrightarrow> valid_param kv"
  by (auto simp: keyValue_def x3_match_iffs pstring_def)

lemma symbol_params_valid:
  "withDefaultsParam s = Match v r \<Longrightarrow> valid_param (''with-defaults'', v)"
  "contentParam s = Match v r \<Longrightarrow> valid_param (''content'', v)"
  "insertParam s = Match v r \<Longrightarrow> valid_param (''insert'', v)"
  by (auto simp: withDefaultsParam_def contentParam_def insertParam_def withDefaultsTable_def contentTable_def
      insertTable_def valid_param_def simp del: psymbols.simps dest!: psymbols_value)

lemma pmap_params_valid:
  "pmap PointParsed uriPath s = Match v r \<Longrightarrow> valid_param (''point'', v)"
  "pmap StringValue filter_rule s = Match v r \<Longrightarrow> valid_param (''filter'', v)"
  "pmap StringValue dateAndTime s = Match v r \<Longrightarrow> valid_param (''start-time'', v)"
  "pmap StringValue dateAndTime s = Match v r \<Longrightarrow> valid_param (''stop-time'', v)"
  "pmap FieldsExpr fieldsExpr s = Match v r \<Longrightarrow> valid_param (''fields'', v)"
  by (auto simp: pmap_Match_iff valid_param_def filter_rule_def fieldsExpr_def simp del: fieldsSemi.simps
      dest: uriPath_valid pplus_nonempty dateAndTime_nonempty fieldsSemi_shaped)

lemma queryParamPair_valid: "queryParamPair s = Match kv r \<Longrightarrow> valid_param kv"
  unfolding queryParamPair_def palt_Match_iff
  by (elim disjE conjE keyValue_valid) (erule depthParam_valid symbol_params_valid pmap_params_valid)+

lemma queryParamGrammar_valid:
  assumes "queryParamGrammar s = Match ps r"
  shows "list_all valid_param ps"
proof -
  have "list_all valid_param bs" if "pstar (pthen (plit ''&'') (pexpect (TRule ''query parameter'') queryParamPair)) q = Match bs r"
    for q bs r
    by (rule pstar_all [OF _ that]) (auto simp: x3_match_iffs dest: queryParamPair_valid)
  then show ?thesis using assms queryParamPair_valid
    by (fastforce simp: queryParamGrammar_def queryParamEmpty_def queryParamList_def x3_match_iffs list_all_iff)
qed

section \<open>Accepted query parameters\<close>

definition param_allowed :: "string \<Rightarrow> string \<Rightarrow> bool" where
  "param_allowed httpMethod k \<longleftrightarrow>
     (k \<in> set [''depth'', ''with-defaults'', ''content'', ''fields''] \<longrightarrow> httpMethod = ''GET'' \<or> httpMethod = ''HEAD'') \<and>
     (k \<in> set [''insert'', ''point''] \<longrightarrow> httpMethod = ''POST'' \<or> httpMethod = ''PUT'') \<and>
     k \<notin> set [''filter'', ''start-time'', ''stop-time'']"

definition params_accepted :: "query_params \<Rightarrow> string \<Rightarrow> bool" where
  "params_accepted ps httpMethod \<longleftrightarrow> distinct (map fst ps) \<and> (\<forall>k \<in> fst ` set ps. param_allowed httpMethod k) \<and>
     (''point'' \<in> fst ` set ps \<longleftrightarrow> (''insert'', After) \<in> set ps \<or> (''insert'', Before) \<in> set ps)"

lemma param_error_simps [simp]: "param_error a b c \<noteq> Inr x" "only_errors (param_error a b c)"
  by (simp_all add: param_error_def)

lemma emplaceParam_Inr_iff:
  "emplaceParam ps kv = Inr qs \<longleftrightarrow> fst kv \<notin> fst ` set ps \<and> qs = ps @ [kv]"
  by (auto simp: emplaceParam_def map_of_eq_None_iff)

lemma foldE_emplaceParam_iff:
  "foldE emplaceParam ps kvs = Inr qs \<longleftrightarrow>
     distinct (map fst kvs) \<and> fst ` set ps \<inter> fst ` set kvs = {} \<and> qs = ps @ kvs"
proof (induction kvs arbitrary: ps)
  case (Cons kv kvs)
  then show ?case by (auto simp: bindE_eq_Inr_iff emplaceParam_Inr_iff)
qed auto

lemma rejectParams_Inr_iff:
  "rejectParams ps allowed message names = Inr () \<longleftrightarrow> allowed \<or> (\<forall>n \<in> set names. n \<notin> fst ` set ps)"
proof (induction names)
  case (Cons n names)
  then show ?case by (auto simp: rejectParams_def map_of_eq_None_iff bindE_eq_Inr_iff)
qed (simp add: rejectParams_def)

lemma unit_bindE_Inr_iff: "bindE m (\<lambda>_. r) = Inr b \<longleftrightarrow> m = Inr () \<and> r = Inr b"
  by (auto simp: bindE_eq_Inr_iff)

lemma validateQueryParameters_unfold:
  assumes "distinct (map fst ps)"
  shows "validateQueryParameters ps m = Inr () \<longleftrightarrow>
      ((m = ''GET'' \<or> m = ''HEAD'') \<or> (\<forall>n \<in> set [''depth'', ''with-defaults'', ''content'', ''fields'']. n \<notin> fst ` set ps)) \<and>
      ((m = ''POST'' \<or> m = ''PUT'') \<or> (\<forall>n \<in> set [''insert'', ''point'']. n \<notin> fst ` set ps)) \<and>
      (False \<or> (\<forall>n \<in> set [''filter'', ''start-time'', ''stop-time'']. n \<notin> fst ` set ps)) \<and>
      \<not> ((''point'' \<in> fst ` set ps) \<noteq> ((''insert'', After) \<in> set ps \<or> (''insert'', Before) \<in> set ps))"
proof -
  have ins: "map_of ps ''insert'' = Some v \<longleftrightarrow> (''insert'', v) \<in> set ps" for v
    using assms by (auto simp: map_of_eq_Some_iff)
  have point: "map_of ps ''point'' = None \<longleftrightarrow> ''point'' \<notin> fst ` set ps"
    by (rule map_of_eq_None_iff)
  have "foldE emplaceParam [] ps = Inr ps" using assms by (simp add: foldE_emplaceParam_iff)
  then show ?thesis
    unfolding validateQueryParameters_def Let_def
    by (simp only: bindE_Inr unit_bindE_Inr_iff rejectParams_Inr_iff if_throw_Inr ins point simp_thms)
qed

lemma allowed_split:
  "(\<forall>k \<in> K. (k \<in> A \<longrightarrow> P) \<and> (k \<in> B \<longrightarrow> Q) \<and> k \<notin> C) \<longleftrightarrow>
     (P \<or> (\<forall>n \<in> A. n \<notin> K)) \<and> (Q \<or> (\<forall>n \<in> B. n \<notin> K)) \<and> (\<forall>n \<in> C. n \<notin> K)"
  by blast

lemma validateQueryParameters_iff: "validateQueryParameters ps m = Inr () \<longleftrightarrow> params_accepted ps m"
proof (cases "distinct (map fst ps)")
  case True
  then show ?thesis
    unfolding validateQueryParameters_unfold [OF True] params_accepted_def param_allowed_def allowed_split by blast
next
  case False
  then have "foldE emplaceParam [] ps \<noteq> Inr qs" for qs by (simp add: foldE_emplaceParam_iff)
  then show ?thesis using False
    by (cases "foldE emplaceParam [] ps") (auto simp: validateQueryParameters_def params_accepted_def)
qed

lemma only_errors_rejectParams: "only_errors (rejectParams ps a m ns)"
  unfolding rejectParams_def by (rule only_errors_foldE) simp

lemma only_errors_emplaceParam: "only_errors (emplaceParam ps kv)"
  by (simp add: emplaceParam_def)

lemma only_errors_validateQueryParameters: "only_errors (validateQueryParameters ps m)"
  unfolding validateQueryParameters_def Let_def
  by (intro only_errors_bindE only_errors_foldE only_errors_rejectParams only_errors_emplaceParam) simp

end
