(* ===== verification/Uri_Request_Table.thy ===== *)
theory Uri_Request_Table
  imports Uri_Request_Laws
begin

text \<open>
  The specification of \<open>asRestconfRequest\<close> as a table: which request a method asks for on which kind
  of resource (RFC 8040, sections 3 and 4), and the proof that the code accepts a URI exactly when its
  parts are valid and the table has an entry, with that entry as the type of the request.
\<close>

section \<open>The table\<close>

definition is_data_prefix :: "uri_prefix \<Rightarrow> bool" where
  "is_data_prefix pfx \<longleftrightarrow> resourceType pfx = BasicRestconfData \<or> resourceType pfx = NMDADatastore"

definition actions_allowed :: "uri_prefix \<Rightarrow> bool" where
  "actions_allowed pfx \<longleftrightarrow> resourceType pfx = BasicRestconfData \<or>
     resourceType pfx = NMDADatastore \<and> datastore pfx = Some (ApiIdentifier (Some ''ietf-datastores'') ''operational'')"

text \<open>Read-only resources: the API root, the list of operations and the library version.\<close>

definition read_only_request :: "uri_prefix_type \<Rightarrow> request_type" where
  "read_only_request t = (case t of RestconfRoot \<Rightarrow> Type_RestconfRoot
     | YangLibraryVersion \<Rightarrow> Type_YangLibraryVersion | _ \<Rightarrow> ListRPC)"

definition data_request :: "string \<Rightarrow> bool \<Rightarrow> request_type option" where
  "data_request m deletable =
     (if m = ''GET'' \<or> m = ''HEAD'' then Some GetData
      else if m = ''PUT'' then Some CreateOrReplaceThisNode
      else if m = ''POST'' then Some CreateChildren
      else if m = ''PATCH'' then Some MergeData
      else if m = ''DELETE'' \<and> deletable then Some DeleteNode
      else None)"

definition operation_request :: "string \<Rightarrow> bool \<Rightarrow> string \<Rightarrow> request_type option" where
  "operation_request m permitted path =
     (if m = ''POST'' \<and> permitted then Some (if isInternalRPCPath path then ExecuteInternal else Execute) else None)"

definition request_table :: "string \<Rightarrow> uri_prefix \<Rightarrow> (node_type \<times> string) option \<Rightarrow> request_type option" where
  "request_table m pfx target =
     (if m = ''OPTIONS'' then Some OptionsQuery
      else (case target of
        None \<Rightarrow>
          (if is_data_prefix pfx then data_request m False
           else if m = ''GET'' \<or> m = ''HEAD'' then Some (read_only_request (resourceType pfx)) else None)
      | Some (RPC, p) \<Rightarrow> operation_request m (resourceType pfx = BasicRestconfOperations) p
      | Some (Action, p) \<Rightarrow> operation_request m (actions_allowed pfx) p
      | Some (Other_NodeType, p) \<Rightarrow> None
      | Some (_, p) \<Rightarrow> if is_data_prefix pfx then data_request m True else None))"

definition target_of :: "'n ly_context \<Rightarrow> 'n option \<Rightarrow> (node_type \<times> string) option" where
  "target_of ctx n = map_option (\<lambda>n. (ly_nodeType ctx n, ly_path ctx n)) n"

section \<open>Datastores of accepted URIs\<close>

definition keeps_target :: "request_type \<Rightarrow> bool" where
  "keeps_target t \<longleftrightarrow> t \<notin> {OptionsQuery, Type_RestconfRoot, Type_YangLibraryVersion, ListRPC}"

definition request_path :: "request_type \<Rightarrow> uri_path \<Rightarrow> string \<Rightarrow> string" where
  "request_path t uri lyPath =
     (if keeps_target t then (if segments uri = [] then (if t = GetData then ''/*'' else ''/'') else lyPath) else [])"

definition request_datastore :: "request_type \<Rightarrow> uri_path \<Rightarrow> api_identifier option" where
  "request_datastore t uri = (if keeps_target t then datastore (path_prefix uri) else None)"

definition request_params :: "request_type \<Rightarrow> query_params \<Rightarrow> query_params" where
  "request_params t ps = (if t = OptionsQuery then [] else ps)"

lemma only_errors_RestconfRequest:
  assumes "\<forall>d. ds = Some d \<longrightarrow> ai_prefix d \<noteq> None"
  shows "only_errors (RestconfRequest t ds path ps)"
  using assms
  by (auto simp: RestconfRequest_def datastoreFromApiIdentifier_def datastoreFromString_def
      intro!: only_errors_bindE split: option.splits)

section \<open>The code follows the table\<close>

lemmas table_defs = request_table_def operation_request_def data_request_def actions_allowed_def is_data_prefix_def
  read_only_request_def target_of_def

lemma checkValidDataResource_Inr_iff:
  "checkValidDataResource ctx n pfx = Inr u \<longleftrightarrow>
     is_data_prefix pfx \<and> ly_nodeType ctx n \<notin> {RPC, Action, Other_NodeType}"
  by (auto simp: checkValidDataResource_def is_data_prefix_def split: node_type.splits)

text \<open>A method is valid for a node exactly when the table has an entry.\<close>

lemma validateMethodForNode_Inr_iff:
  assumes "m \<in> set known_methods"
  shows "validateMethodForNode ctx m pfx node = Inr () \<longleftrightarrow> request_table m pfx (target_of ctx node) \<noteq> None"
proof (cases node)
  case None
  then show ?thesis using assms
    by (cases "resourceType pfx")
      (auto simp: validateMethodForNode_def table_defs known_methods_def)
next
  case (Some n)
  then show ?thesis using assms
    by (cases "ly_nodeType ctx n")
      (auto simp: validateMethodForNode_def checkValidDataResource_Inr_iff table_defs known_methods_def)
qed

lemma classifyRequest_table:
  assumes "m \<in> set known_methods" and "request_table m (path_prefix uri) (target_of ctx node) = Some t"
    and "segments uri = [] \<longleftrightarrow> node = None"
    and "resourceType (path_prefix uri) \<in> {RestconfRoot, YangLibraryVersion} \<longrightarrow> node = None"
  shows "classifyRequest ctx m p uri ps ly node =
    RestconfRequest t (request_datastore t uri) (request_path t uri ly) (request_params t ps)"
proof (cases node)
  case None
  then show ?thesis using assms
    by (cases "resourceType (path_prefix uri)")
      (auto simp: classifyRequest_def table_defs known_methods_def Let_def request_path_def request_datastore_def
        request_params_def keeps_target_def split: if_splits)
next
  case (Some n)
  then show ?thesis using assms
    by (cases "ly_nodeType ctx n"; cases "resourceType (path_prefix uri)")
      (auto simp: classifyRequest_def table_defs known_methods_def Let_def request_path_def request_datastore_def
        request_params_def keeps_target_def isOperation_def split: if_splits)
qed

section \<open>Entry points\<close>

lemma asLibyangPath_node: "asLibyangPath ctx segs = Inr (path, node) \<Longrightarrow> segs = [] \<longleftrightarrow> node = None"
  by (auto simp: asLibyangPath_iff last_node_def dest: resolves_length split: if_splits)

lemma parseUriPath_Inr_iff: "parseUriPath what s = Inr u \<longleftrightarrow> restconfGrammar s = Match u []"
  unfolding parseUriPath_def by (rule path_grammar.parse_Inr_iff)

lemma parseQueryParams_Inr_iff: "parseQueryParams what s n = Inr ps \<longleftrightarrow> queryParamGrammar s = Match ps []"
  unfolding parseQueryParams_def by (rule query_grammar.parse_Inr_iff)

lemma only_errors_parse: "only_errors (parse what E EAt input p off)"
  by (auto simp: parse_def split: presult.splits)

lemma only_errors_parsers:
  "only_errors (parseUriPath what s)" "only_errors (parseQueryParams what s n)"
  "only_errors (parseModuleWithRevision what s)" "only_errors (parseStreamUri what gen s)"
  by (simp_all add: parseUriPath_def parseQueryParams_def parseModuleWithRevision_def parseStreamUri_def only_errors_parse)

text \<open>The steps of \<open>asRestconfRequest\<close> before the classification, and their success.\<close>

definition request_parts :: "'n ly_context \<Rightarrow> string \<Rightarrow> string \<Rightarrow> string \<Rightarrow>
    uri_path \<Rightarrow> query_params \<Rightarrow> string \<Rightarrow> 'n option \<Rightarrow> request_type \<Rightarrow> bool" where
  "request_parts ctx m up q uri ps ly node t \<longleftrightarrow> m \<in> set known_methods \<and>
     restconfGrammar up = Match uri [] \<and> queryParamGrammar q = Match ps [] \<and> params_accepted ps m \<and>
     asLibyangPath ctx (segments uri) = Inr (ly, node) \<and>
     request_table m (path_prefix uri) (target_of ctx node) = Some t"

lemma classifyRequest_parts:
  assumes "request_parts ctx m up q uri ps ly node t"
  shows "classifyRequest ctx m up uri ps ly node =
    RestconfRequest t (request_datastore t uri) (request_path t uri ly) (request_params t ps)"
proof (rule classifyRequest_table)
  have v: "valid_uri uri" using assms restconfGrammar_valid by (auto simp: request_parts_def)
  show n: "segments uri = [] \<longleftrightarrow> node = None" using assms asLibyangPath_node by (auto simp: request_parts_def)
  show "resourceType (path_prefix uri) \<in> {RestconfRoot, YangLibraryVersion} \<longrightarrow> node = None"
    using v n by (auto simp: valid_uri_def)
qed (use assms in \<open>auto simp: request_parts_def\<close>)

lemma asRestconfRequest_Inr_iff:
  "asRestconfRequest what ctx m up q = Inr r \<longleftrightarrow>
     (\<exists>uri ps ly node t. request_parts ctx m up q uri ps ly node t \<and>
        RestconfRequest t (request_datastore t uri) (request_path t uri ly) (request_params t ps) = Inr r)"
proof -
  have "asRestconfRequest what ctx m up q = Inr r \<longleftrightarrow>
     (\<exists>uri ps ly node t. request_parts ctx m up q uri ps ly node t \<and> classifyRequest ctx m up uri ps ly node = Inr r)"
    unfolding asRestconfRequest_def if_throw_Inr bindE_eq_Inr_iff unit_bindE_Inr_iff validateQueryParameters_iff
      parseUriPath_Inr_iff parseQueryParams_Inr_iff request_parts_def split_paired_Ex prod.case not_not
    by (auto simp: validateMethodForNode_Inr_iff validateQueryParameters_iff)
  then show ?thesis using classifyRequest_parts by metis
qed

lemma only_errors_validateMethodForNode: "only_errors (validateMethodForNode ctx m pfx node)"
  by (auto simp: validateMethodForNode_def checkValidDataResource_def split: option.splits node_type.splits)

lemma request_datastore_prefixed:
  "restconfGrammar up = Match uri [] \<Longrightarrow> request_datastore t uri = Some d \<Longrightarrow> ai_prefix d \<noteq> None"
  by (drule restconfGrammar_valid)
    (auto simp: valid_uri_def request_datastore_def split: uri_prefix_type.splits if_splits)

lemma only_errors_asRestconfRequest: "only_errors (asRestconfRequest what ctx m up q)"
proof (cases "m \<in> set known_methods")
  case True
  have "only_errors (classifyRequest ctx m up uri ps ly node)"
    if "request_parts ctx m up q uri ps ly node t" for uri ps ly node t
    unfolding classifyRequest_parts [OF that]
    by (rule only_errors_RestconfRequest) (use that request_datastore_prefixed in \<open>auto simp: request_parts_def\<close>)
  then show ?thesis
    unfolding asRestconfRequest_def using True
    by (auto simp: parseUriPath_Inr_iff parseQueryParams_Inr_iff validateQueryParameters_iff validateMethodForNode_Inr_iff
        request_parts_def intro!: only_errors_bindE only_errors_validateQueryParameters only_errors_asLibyangPath
        only_errors_validateMethodForNode only_errors_parsers)
qed (simp add: asRestconfRequest_def)

text \<open>\<open>allowedHttpMethodsForUri\<close> always returns, with the methods whose request is accepted.\<close>

definition accepts :: "(token \<Rightarrow> string) \<Rightarrow> 'n ly_context \<Rightarrow> string \<Rightarrow> string \<Rightarrow> bool" where
  "accepts what ctx up m \<longleftrightarrow> (\<exists>r. asRestconfRequest what ctx m up [] = Inr r)"

lemma tryMethod_total:
  "tryMethod what ctx up allowed m = Inr (if accepts what ctx up m then insert m allowed else allowed)"
  using only_errors_asRestconfRequest [of what ctx m up "[]"]
  by (auto simp: tryMethod_def accepts_def only_errors_def split: sum.splits elim!: is_error_response.elims)

lemma foldE_tryMethod:
  "foldE (tryMethod what ctx up) allowed ms = Inr (allowed \<union> {m \<in> set ms. accepts what ctx up m})"
  by (induction ms arbitrary: allowed) (auto simp: tryMethod_total)

lemma allowedHttpMethodsForUri_eq:
  "allowedHttpMethodsForUri what ctx up =
     (let ms = {m \<in> set [''GET'', ''PUT'', ''POST'', ''DELETE'', ''HEAD'', ''PATCH'']. accepts what ctx up m}
      in Inr (if ms = {} then {} else insert ''OPTIONS'' ms))"
  unfolding allowedHttpMethodsForUri_def foldE_tryMethod bindE_Inr Let_def Un_empty_left by simp

end
