(* ===== verification/Uri_Fields.thy ===== *)
theory Uri_Fields
  imports Uri_Request_Table
begin

text \<open>
  The \<open>fields\<close> query parameter (\<open>restconf/uri.cpp\<close>, both functions \<open>fieldsToXPath\<close>): the traversal of
  the expression with the current path passed by reference, and its specification as the set of paths
  an expression denotes.
\<close>

section \<open>Definitions\<close>

text \<open>
  \<open>currentPath\<close> and \<open>output\<close> are references: the traversal returns both. \<open>SemiExpr\<close> gives the right
  operand a copy of the path, which is dropped afterwards.
\<close>

fun fieldsToXPath_visit :: "expr \<Rightarrow> string list \<Rightarrow> string list \<Rightarrow> bool \<Rightarrow> string list \<times> string list" where
  "fieldsToXPath_visit (ParenExpr lhs rhs) currentPath output isEnd =
     (let (currentPath, output) = fieldsToXPath_visit lhs currentPath output (rhs = None) in
      case rhs of None \<Rightarrow> (currentPath, output) | Some r \<Rightarrow> fieldsToXPath_visit r currentPath output isEnd)"
| "fieldsToXPath_visit (SemiExpr lhs rhs) currentPath output isEnd =
     (let pathCopy = currentPath;
          (currentPath, output) = fieldsToXPath_visit lhs currentPath output (rhs = None) in
      case rhs of None \<Rightarrow> (currentPath, output)
      | Some r \<Rightarrow> (let (pathCopy, output) = fieldsToXPath_visit r pathCopy output False in (currentPath, output)))"
| "fieldsToXPath_visit (SlashExpr lhs rhs) currentPath output isEnd =
     (let currentPath = currentPath @ [name lhs] in
      case rhs of
        Some r \<Rightarrow> fieldsToXPath_visit r currentPath output isEnd
      | None \<Rightarrow> (currentPath, if isEnd then output @ [join ''/'' currentPath] else output))"

definition validateFieldPath :: "'n ly_context \<Rightarrow> unit \<Rightarrow> string \<Rightarrow> exn + unit" where
  "validateFieldPath ctx u xpath = (case ly_findPath ctx xpath of
      Inl e \<Rightarrow> throw_error 400 ''application'' ''operation-failed'' (''Can'' @ [quote] @ ''t find schema node for '' @ [quote] @ xpath @ [quote])
    | Inr n \<Rightarrow> validateMethodForNode ctx ''GET'' (URIPrefix BasicRestconfData None) (Some n))"

definition fieldsToXPath :: "'n ly_context \<Rightarrow> string \<Rightarrow> expr \<Rightarrow> exn + string" where
  "fieldsToXPath ctx pfx e =
     (let (currentPath, paths) = fieldsToXPath_visit e [pfx] [] False in
      bindE (foldE (validateFieldPath ctx) () paths) (\<lambda>_. Inr (join '' | '' paths)))"

section \<open>The paths an expression denotes\<close>

fun slash_names :: "expr \<Rightarrow> string list" where
  "slash_names (SlashExpr a None) = [name a]"
| "slash_names (SlashExpr a (Some e)) = name a # slash_names e"
| "slash_names _ = []"

fun semi_paths :: "expr \<Rightarrow> string list list" and paren_paths :: "expr \<Rightarrow> string list list" where
  "semi_paths (SemiExpr l None) = paren_paths l"
| "semi_paths (SemiExpr l (Some r)) = paren_paths l @ semi_paths r"
| "semi_paths _ = []"
| "paren_paths (ParenExpr l None) = [slash_names l]"
| "paren_paths (ParenExpr l (Some e)) = map (\<lambda>p. slash_names l @ p) (semi_paths e)"
| "paren_paths _ = []"

lemma visit_slash:
  "slash_shaped e \<Longrightarrow> fieldsToXPath_visit e cp out isEnd =
     (cp @ slash_names e, if isEnd then out @ [join ''/'' (cp @ slash_names e)] else out)"
  by (induction e arbitrary: cp rule: slash_shaped.induct) (auto simp: Let_def)

lemma visit_semi:
  "semi_shaped e \<Longrightarrow> snd (fieldsToXPath_visit e cp out isEnd) = out @ map (\<lambda>p. join ''/'' (cp @ p)) (semi_paths e)"
  and visit_paren:
  "paren_shaped e \<Longrightarrow> snd (fieldsToXPath_visit e cp out isEnd) = out @ map (\<lambda>p. join ''/'' (cp @ p)) (paren_paths e)"
proof (induction e and e arbitrary: cp out isEnd and cp out isEnd rule: semi_shaped_paren_shaped.induct)
  case (1 l)
  then show ?case by (simp add: Let_def split: prod.splits)
next
  case (2 l r)
  then show ?case by (auto simp: Let_def case_prod_unfold)
next
  case (5 l e)
  then show ?case by (auto simp: visit_slash)
next
  case (4 l)
  then show ?case by (auto simp: visit_slash)
qed auto

lemma semi_paths_nonempty: "semi_shaped e \<Longrightarrow> semi_paths e \<noteq> []" and paren_paths_nonempty: "paren_shaped e \<Longrightarrow> paren_paths e \<noteq> []"
  by (induction e and e rule: semi_shaped_paren_shaped.induct) auto

lemma fieldsToXPath_eq:
  assumes "semi_shaped e"
  shows "fieldsToXPath ctx pfx e =
    (let paths = map (\<lambda>p. join ''/'' (pfx # p)) (semi_paths e) in
     bindE (foldE (validateFieldPath ctx) () paths) (\<lambda>_. Inr (join '' | '' paths)))"
  using visit_semi [OF assms, of "[pfx]" "[]" False] by (simp add: fieldsToXPath_def case_prod_unfold Let_def)

lemma foldE_unit_Inr_iff: "foldE (f :: unit \<Rightarrow> 'a \<Rightarrow> 'e + unit) () xs = Inr () \<longleftrightarrow> (\<forall>x \<in> set xs. f () x = Inr ())"
  by (induction xs) (auto simp: bindE_eq_Inr_iff)

definition readable_node :: "'n ly_context \<Rightarrow> string \<Rightarrow> bool" where
  "readable_node ctx xpath \<longleftrightarrow> (\<exists>n. ly_findPath ctx xpath = Inr n \<and> ly_nodeType ctx n \<notin> {RPC, Action, Other_NodeType})"

lemma validateFieldPath_Inr_iff: "validateFieldPath ctx u p = Inr () \<longleftrightarrow> readable_node ctx p"
  by (auto simp: validateFieldPath_def readable_node_def validateMethodForNode_def checkValidDataResource_Inr_iff
      is_data_prefix_def URIPrefix_def split: sum.splits)

lemma only_errors_validateFieldPath: "only_errors (validateFieldPath ctx u p)"
  by (auto simp: validateFieldPath_def only_errors_validateMethodForNode split: sum.splits)

lemma fieldsToXPath_Inr_iff:
  assumes "semi_shaped e"
  shows "fieldsToXPath ctx pfx e = Inr x \<longleftrightarrow>
    (let paths = map (\<lambda>p. join ''/'' (pfx # p)) (semi_paths e) in
     (\<forall>p \<in> set paths. readable_node ctx p) \<and> x = join '' | '' paths)"
  unfolding fieldsToXPath_eq [OF assms] Let_def unit_bindE_Inr_iff foldE_unit_Inr_iff validateFieldPath_Inr_iff
  by auto

lemma only_errors_fieldsToXPath: "only_errors (fieldsToXPath ctx pfx e)"
  unfolding fieldsToXPath_def Let_def case_prod_unfold
  by (intro only_errors_bindE only_errors_foldE only_errors_validateFieldPath only_errors_simps)

end
