(* ===== verification/Uri_Properties.thy ===== *)
theory Uri_Properties
  imports Uri_Fields
begin

text \<open>
  Properties of \<open>restconf/uri.cpp\<close>: parsing of resource paths and query strings, resolution in the
  schema, the type of a request, and the \<open>fields\<close> parameter. The example schema has a list with two
  keys and a leaf-list below a container, and an RPC.
\<close>

section \<open>An example schema\<close>

text \<open>Nodes: 0 is the container \<open>m:top\<close>, 1 the list \<open>item\<close> with keys 3 and 4, 2 the leaf-list \<open>tag\<close>, 5 the RPC \<open>m:run\<close>.\<close>

definition example_schema :: "nat ly_context" where
  "example_schema = \<lparr>
     ly_findPath = (\<lambda>p. if p = ''/m:top'' then Inr 0 else if p = ''/m:run'' then Inr 5 else if p = ''/m:top/item'' then Inr 1
       else if p = ''/m:top/tag'' then Inr 2 else Inl (LyError None ''not found'')),
     ly_nodeType = (\<lambda>n. if n = 0 then Container else if n = 1 then List_Node else if n = 2 then Leaflist else if n = 5 then RPC else Leaf),
     ly_name = (\<lambda>n. if n = 0 then ''top'' else if n = 1 then ''item'' else if n = 2 then ''tag'' else if n = 3 then ''k1''
       else if n = 4 then ''k2'' else ''run''),
     ly_module = (\<lambda>_. ''m''),
     ly_path = (\<lambda>n. if n = 0 then ''/m:top'' else if n = 1 then ''/m:top/item'' else if n = 2 then ''/m:top/tag'' else ''/m:run''),
     ly_parent = (\<lambda>n. if n = 0 \<or> n = 5 then None else if n = 3 \<or> n = 4 then Some 1 else Some 0),
     ly_childInstantiables = (\<lambda>n. if n = 0 then [1, 2] else if n = 1 then [3, 4] else []),
     ly_keys = (\<lambda>n. if n = 1 then [3, 4] else []),
     ly_isUserOrdered = (\<lambda>_. False)\<rparr>"

definition example_segments :: "path_segment list" where
  "example_segments = [PathSegment (ApiIdentifier (Some ''m'') ''top'') [],
     PathSegment (ApiIdentifier None ''item'') [''a/b'', [quote] @ '']'']]"

definition example_uri :: uri_path where
  "example_uri = URIPath (URIPrefix NMDADatastore (Some (ApiIdentifier (Some ''ietf-datastores'') ''running''))) example_segments"

lemma example_schema_plain: "plain_schema example_schema"
  by (auto simp: plain_schema_def plain_name_def example_schema_def)

lemma example_uri_valid: "valid_uri example_uri"
  by (simp add: example_uri_def example_segments_def uri_data_defs valid_uri_def valid_segments_def valid_api_ident_def
      valid_ident_def ident_start_def ident_char_def char_class_defs less_eq_char_def)

section \<open>Resource paths\<close>

text \<open>C1. Printing a valid resource path, with its key values percent-encoded, and parsing the text
  again gives the path back: prefix, datastore, segments and arbitrary key bytes.\<close>

theorem parse_print_uri: "valid_uri u \<Longrightarrow> parseUriPath what (print_uri u) = Inr u"
  by (simp add: parseUriPath_Inr_iff restconfGrammar_print)

theorem parse_print_uri_witness:
  "parseUriPath (\<lambda>_. []) (print_uri example_uri) = Inr example_uri \<and> valid_uri example_uri"
  using parse_print_uri [OF example_uri_valid, of "\<lambda>_. []"] example_uri_valid by simp

text \<open>Every path the parser accepts is valid: identifiers follow the YANG grammar, the first segment
  names its module, a datastore is named with its module, and a root or library-version resource has
  no segments.\<close>

theorem parseUriPath_valid: "parseUriPath what s = Inr u \<Longrightarrow> valid_uri u"
  by (auto simp: parseUriPath_Inr_iff intro: restconfGrammar_valid)

theorem parseUriPath_valid_witness:
  "valid_uri (URIPath (URIPrefix BasicRestconfData None) [PathSegment (ApiIdentifier (Some ''m'') ''top'') [''a,b'']])"
proof -
  have "parseUriPath (\<lambda>_. []) ''/restconf/data/m:top=a%2cb'' =
    Inr (URIPath (URIPrefix BasicRestconfData None) [PathSegment (ApiIdentifier (Some ''m'') ''top'') [''a,b'']])"
    by code_simp
  then show ?thesis by (rule parseUriPath_valid)
qed

text \<open>A rejected path gives a syntax error response with status 400; if it names a position, the
  position lies within the path or just behind it.\<close>

theorem parseUriPath_error:
  assumes "parseUriPath what s = Inl e" and "length s < 2 ^ 32"
  shows "\<exists>r. e = Error_Response r \<and> code r = 400 \<and> errorTag r = ''invalid-value'' \<and>
    (errorInfo r = None \<or> (\<exists>pos t. pos \<le> length s \<and>
       errorInfo r = Some \<lparr>containerName = ''uri-error'', leafs = [(''offset'', to_string pos), (''expected-token'', what t)]\<rparr>))"
proof -
  have "e = Error_Response UriPathSyntaxError \<or>
    (\<exists>pos t. pos \<le> length s \<and> e = Error_Response (UriPathSyntaxErrorAt (to_unsigned (pos + 0)) (what t)))"
    using path_grammar.parse_Inl_cases assms(1) unfolding parseUriPath_def by blast
  then show ?thesis
  proof (elim disjE exE conjE)
    fix pos t
    assume pos: "pos \<le> length s" and e: "e = Error_Response (UriPathSyntaxErrorAt (to_unsigned (pos + 0)) (what t))"
    then have "to_unsigned pos = pos" using assms(2) by (intro to_unsigned_small) simp
    then show ?thesis using pos e by (auto simp: syntax_error_defs)
  qed (auto simp: syntax_error_defs)
qed

theorem parseUriPath_error_witness:
  "\<exists>r. parseUriPath (\<lambda>_. ''x'') ''/restconf/data/m:top=%zz'' = Inl (Error_Response r) \<and> code r = 400"
proof -
  have "isl (parseUriPath (\<lambda>_. ''x'') ''/restconf/data/m:top=%zz'')" by code_simp
  then obtain e where "parseUriPath (\<lambda>_. ''x'') ''/restconf/data/m:top=%zz'' = Inl e" by (auto simp: isl_def)
  then show ?thesis using parseUriPath_error [of "\<lambda>_. ''x''" "''/restconf/data/m:top=%zz''" e] by auto
qed

section \<open>Resolution in the schema\<close>

text \<open>C19. A path built for libyang reads back, as an XPath, to the nodes that the segments resolve to one by
  one in the schema and to exactly the key values of the URI: a key value cannot change the structure of the
  path, whatever bytes it holds.\<close>

theorem asLibyangPath_meaning:
  assumes "plain_schema ctx" and "asLibyangPath ctx segs = Inr (path, node)"
  shows "\<exists>ns. resolves ctx None segs ns \<and> node = last_node None ns \<and> read_path path = Some (path_meaning ctx segs ns)"
  using assms read_path_print by (fastforce simp: asLibyangPath_iff)

theorem asLibyangPath_meaning_witness:
  "\<exists>ns. resolves example_schema None example_segments ns \<and> Some (Suc 0) = last_node None ns \<and>
    read_path (''/m:top/item[k1='' @ [quote] @ ''a/b'' @ [quote] @ ''][k2='' @ [dquote, quote] @ '']'' @ [dquote] @ '']'') =
      Some (path_meaning example_schema example_segments ns)"
proof -
  have "asLibyangPath example_schema example_segments =
    Inr (''/m:top/item[k1='' @ [quote] @ ''a/b'' @ [quote] @ ''][k2='' @ [dquote, quote] @ '']'' @ [dquote] @ '']'', Some (Suc 0))"
    by code_simp
  then show ?thesis by (rule asLibyangPath_meaning [OF example_schema_plain])
qed

text \<open>The schema resolution succeeds exactly when every segment names a child (or a top-level node) with
  the right keys, each quotable, and no segment follows an RPC or action.\<close>

theorem asLibyangPath_succeeds_iff:
  "(\<exists>path node. asLibyangPath ctx segs = Inr (path, node)) \<longleftrightarrow> (\<exists>ns. resolves ctx None segs ns)"
  by (auto simp: asLibyangPath_iff)

section \<open>Query parameters\<close>

text \<open>Every parameter of an accepted query string has a known key with a value of its type: a depth
  between 1 and 65535, a nonempty filter or time, a point that is a valid path, or a \<open>fields\<close> expression
  whose identifiers follow the YANG grammar.\<close>

theorem parseQueryParams_valid: "parseQueryParams what q n = Inr ps \<Longrightarrow> list_all valid_param ps"
  by (auto simp: parseQueryParams_Inr_iff intro: queryParamGrammar_valid)

theorem parseQueryParams_valid_witness:
  "list_all valid_param [(''content'', OnlyConfigNodes), (''depth'', Depth 42)] \<and>
   parseQueryParams (\<lambda>_. []) ''depth=42&content=config'' 9 = Inr [(''content'', OnlyConfigNodes), (''depth'', Depth 42)]"
proof -
  have "parseQueryParams (\<lambda>_. []) ''depth=42&content=config'' 9 = Inr [(''content'', OnlyConfigNodes), (''depth'', Depth 42)]"
    by code_simp
  then show ?thesis using parseQueryParams_valid by blast
qed

text \<open>Query parameters are accepted exactly when no key is repeated, every key is allowed with the method
  (none of the stream parameters), and \<open>point\<close> comes with \<open>insert\<close> set to \<open>before\<close> or \<open>after\<close> and only then.\<close>

theorem validateQueryParameters_exact: "validateQueryParameters ps m = Inr () \<longleftrightarrow> params_accepted ps m"
  by (rule validateQueryParameters_iff)


section \<open>Requests\<close>


text \<open>C27. Whatever the method, path and query string, a rejected request gives an error response: the branch for
  unhandled requests is never reached and no empty optional is read.\<close>

theorem asRestconfRequest_only_errors: "only_errors (asRestconfRequest what ctx m up q)"
  by (rule only_errors_asRestconfRequest)

text \<open>C28. The methods reported as allowed for a path are exactly those whose request would be accepted, with
  \<open>OPTIONS\<close> added if there are any; the computation never fails.\<close>

theorem allowedHttpMethodsForUri_exact:
  "allowedHttpMethodsForUri what ctx up =
     (let ms = {m \<in> set [''GET'', ''PUT'', ''POST'', ''DELETE'', ''HEAD'', ''PATCH'']. accepts what ctx up m}
      in Inr (if ms = {} then {} else insert ''OPTIONS'' ms))"
  by (rule allowedHttpMethodsForUri_eq)

text \<open>A request accepted for execution targets an RPC through the operations resource, or an action through
  the data resource or the operational datastore; it is handled internally exactly for the four
  subscription RPCs.\<close>

theorem execute_requests:
  assumes "asRestconfRequest what ctx m up q = Inr r" and "req_type r = Execute \<or> req_type r = ExecuteInternal"
  shows "\<exists>uri n ly. m = ''POST'' \<and> parseUriPath what up = Inr uri \<and> asLibyangPath ctx (segments uri) = Inr (ly, Some n) \<and>
    (ly_nodeType ctx n = RPC \<and> resourceType (path_prefix uri) = BasicRestconfOperations \<or>
     ly_nodeType ctx n = Action \<and> actions_allowed (path_prefix uri)) \<and>
    (req_type r = ExecuteInternal \<longleftrightarrow> isInternalRPCPath (ly_path ctx n))"
proof -
  obtain uri ps ly node t where p: "request_parts ctx m up q uri ps ly node t"
    and r: "RestconfRequest t (request_datastore t uri) (request_path t uri ly) (request_params t ps) = Inr r"
    using assms(1) by (auto simp: asRestconfRequest_Inr_iff)
  then have t: "t = Execute \<or> t = ExecuteInternal" "req_type r = t"
    using assms(2) by (auto simp: RestconfRequest_def bindE_eq_Inr_iff)
  have table: "request_table m (path_prefix uri) (target_of ctx node) = Some t" using p by (simp add: request_parts_def)
  have no_data: "data_request m b \<noteq> Some t" for b using t(1) by (elim disjE) (simp_all add: data_request_def)
  have no_ro: "read_only_request x \<noteq> t" for x using t(1) by (cases x) (auto simp: read_only_request_def)
  obtain n where n: "node = Some n" "m = ''POST''"
    "ly_nodeType ctx n = RPC \<and> resourceType (path_prefix uri) = BasicRestconfOperations \<or>
     ly_nodeType ctx n = Action \<and> actions_allowed (path_prefix uri)"
    "t = (if isInternalRPCPath (ly_path ctx n) then ExecuteInternal else Execute)"
    using table no_data no_ro t(1)
    by (auto simp: request_table_def target_of_def operation_request_def split: option.splits node_type.splits if_splits)
  then show ?thesis using p t(2) by (auto simp: request_parts_def parseUriPath_Inr_iff)
qed

theorem execute_requests_witness:
  "\<exists>uri n ly. parseUriPath (\<lambda>_. []) ''/restconf/operations/m:run'' = Inr uri \<and>
    asLibyangPath example_schema (segments uri) = Inr (ly, Some n) \<and> ly_nodeType example_schema n \<in> {RPC, Action} \<and>
    \<not> isInternalRPCPath (ly_path example_schema n)"
proof -
  have "asRestconfRequest (\<lambda>_. []) example_schema ''POST'' ''/restconf/operations/m:run'' [] =
    Inr \<lparr>req_type = Execute, req_datastore = None, req_path = ''/m:run'', req_queryParams = []\<rparr>"
    by code_simp
  from execute_requests [OF this] show ?thesis by auto
qed

section \<open>The fields parameter\<close>

text \<open>C30. For a \<open>fields\<close> parameter of an accepted query string, the XPath is the union of the paths that the
  expression denotes, each below the requested node; it is produced exactly when every one of them is a node
  that can be read.\<close>

theorem fieldsToXPath_union:
  assumes "parseQueryParams what q n = Inr ps" and "(''fields'', FieldsExpr e) \<in> set ps"
  shows "fieldsToXPath ctx pfx e = Inr x \<longleftrightarrow>
    (let paths = map (\<lambda>p. join ''/'' (pfx # p)) (semi_paths e) in
     list_all (readable_node ctx) paths \<and> x = join '' | '' paths)"
proof -
  have "list_all valid_param ps" using assms(1) by (auto simp: parseQueryParams_Inr_iff intro: queryParamGrammar_valid)
  then have "semi_shaped e" using assms(2) by (auto simp: list_all_iff valid_param_def)
  then show ?thesis by (simp add: fieldsToXPath_Inr_iff list_all_iff Let_def)
qed

theorem fieldsToXPath_union_witness:
  "\<exists>e x. parseQueryParams (\<lambda>_. []) ''fields=item;tag'' 9 = Inr [(''fields'', FieldsExpr e)] \<and>
     fieldsToXPath example_schema ''/m:top'' e = Inr x \<and> x = ''/m:top/item | /m:top/tag''"
proof -
  let ?e = "SemiExpr (ParenExpr (SlashExpr (ApiIdentifier None ''item'') None) None)
    (Some (SemiExpr (ParenExpr (SlashExpr (ApiIdentifier None ''tag'') None) None) None))"
  have q: "parseQueryParams (\<lambda>_. []) ''fields=item;tag'' 9 = Inr [(''fields'', FieldsExpr ?e)]" by code_simp
  have "fieldsToXPath example_schema ''/m:top'' ?e = Inr ''/m:top/item | /m:top/tag''"
    using fieldsToXPath_union [OF q, of ?e example_schema "''/m:top''" "''/m:top/item | /m:top/tag''"]
    by (simp add: readable_node_def example_schema_def name_def ApiIdentifier_def)
  then show ?thesis using q by blast
qed

end
