(* ===== verification/Http_Utils.thy ===== *)
theory Http_Utils
  imports X3 Exceptions
begin

text \<open>
  \<open>http/utils.cpp\<close>: parsing of the \<open>accept\<close> and \<open>forwarded\<close> headers and look-up of header fields.
  The conversion \<open>std::stod\<close> of a quality value is the parameter \<open>stod\<close> (\<open>None\<close> when it throws
  \<open>std::out_of_range\<close>) into an arbitrary linear order with \<open>0\<close> and \<open>1\<close>: the code only compares
  quality values.
\<close>

type_synonym header_map = "(string \<times> string) list"

section \<open>Accept header\<close>

record mime =
  mediaType :: string
  mediaSubtype :: string

record media_type =
  mt_mime :: mime
  mt_parameters :: "(string \<times> string) list"

type_synonym 'd stod = "string \<Rightarrow> 'd option"

definition qValue :: "('d::{linorder, zero, one}) stod \<Rightarrow> media_type \<Rightarrow> 'd" where
  "qValue stod m = (case find (\<lambda>kv. fst kv = ''q'') (mt_parameters m) of
     Some kv \<Rightarrow> the (stod (snd kv)) | None \<Rightarrow> 1)"

definition h_identifier :: "string parser" where
  "h_identifier = pbind (pchar is_alpha) (\<lambda>a. pmap ((#) a)
     (pstar (pchar (\<lambda>c. is_alnum c \<or> c = CHR ''-'' \<or> c = CHR ''.''))))"

definition h_decimal :: "string parser" where
  "h_decimal = pbind (popt (pchar (\<lambda>c. c = CHR ''-''))) (\<lambda>sign.
     pbind (pplus (pchar is_digit)) (\<lambda>ds.
       pmap (\<lambda>frac. (case sign of None \<Rightarrow> [] | Some c \<Rightarrow> [c]) @ ds @ (case frac of None \<Rightarrow> [] | Some f \<Rightarrow> CHR ''.'' # f))
         (popt (pthen (plit ''.'') (pstar (pchar is_digit))))))"

definition h_quotedString :: "string parser" where
  "h_quotedString = pthen (plit [CHR 0x22]) (pbind
     (pstar (palt (pthen (plit [CHR 0x5C]) (pchar (\<lambda>_. True))) (pchar (\<lambda>c. c \<noteq> CHR 0x22))))
     (\<lambda>s. pmap (\<lambda>_. s) (plit [CHR 0x22])))"

definition h_param :: "(string \<times> string) parser" where
  "h_param = palt
     (pbind (palt (pstring ''q'') (pstring ''Q'')) (\<lambda>k. pthen (plit ''='') (pmap (Pair k) h_decimal)))
     (pbind (pdiff h_identifier (pchar (\<lambda>c. c = CHR ''q'' \<or> c = CHR ''Q''))) (\<lambda>k. pthen (plit ''='')
        (pmap (Pair k) (palt h_quotedString h_identifier))))"

definition h_spaces :: "string parser" where
  "h_spaces = pstar (pchar is_space)"

definition h_parameters :: "(string \<times> string) list parser" where
  "h_parameters = pstar (pthen (pthen h_spaces (pthen (plit '';'') h_spaces)) h_param)"

definition h_mimeWildcard :: "string parser" where
  "h_mimeWildcard = pstring ''*''"

definition h_mimeSubtype :: "string parser" where
  "h_mimeSubtype = palt
     (pbind h_identifier (\<lambda>a. pmap (\<lambda>b. a @ (case b of None \<Rightarrow> [] | Some b \<Rightarrow> CHR ''+'' # b))
        (popt (pthen (plit ''+'') h_identifier))))
     h_mimeWildcard"

definition h_mime :: "mime parser" where
  "h_mime = palt
     (pbind h_mimeWildcard (\<lambda>a. pthen (plit ''/'') (pmap (\<lambda>b. \<lparr>mediaType = a, mediaSubtype = b\<rparr>) h_mimeWildcard)))
     (pbind h_identifier (\<lambda>a. pthen (plit ''/'') (pmap (\<lambda>b. \<lparr>mediaType = a, mediaSubtype = b\<rparr>)
        (palt h_mimeSubtype h_mimeWildcard))))"

definition oneItem :: "media_type parser" where
  "oneItem = pbind h_mime (\<lambda>m. pmap (\<lambda>ps. \<lparr>mt_mime = m, mt_parameters = ps\<rparr>) h_parameters)"

definition acceptGrammar :: "media_type list parser" where
  "acceptGrammar = pthen h_spaces (plist oneItem (pthen h_spaces (pthen (plit '','') h_spaces)))"

definition lower :: "string \<Rightarrow> string" where
  "lower s = map to_lower s"

definition lower_media_type :: "media_type \<Rightarrow> media_type" where
  "lower_media_type e = \<lparr>mt_mime = \<lparr>mediaType = lower (mediaType (mt_mime e)), mediaSubtype = lower (mediaSubtype (mt_mime e))\<rparr>,
     mt_parameters = map (\<lambda>(k, v). (lower k, v)) (mt_parameters e)\<rparr>"

text \<open>The comparator of \<open>std::stable_sort\<close>.\<close>

definition preferred :: "('d::{linorder, zero, one}) stod \<Rightarrow> media_type \<Rightarrow> media_type \<Rightarrow> bool" where
  "preferred stod a b =
     (if qValue stod a \<noteq> qValue stod b then qValue stod a > qValue stod b
      else if mediaType (mt_mime a) = ''*'' then False
      else if mediaType (mt_mime b) = ''*'' then True
      else if mediaSubtype (mt_mime a) = ''*'' then False
      else if mediaSubtype (mt_mime b) = ''*'' then True
      else False)"

text \<open>The parse of the whole header with the case folding that follows it.\<close>

definition parseMediaTypes :: "string \<Rightarrow> media_type list option" where
  "parseMediaTypes headerValue =
     (case pbind acceptGrammar (\<lambda>ms. pmap (\<lambda>_. ms) (pthen h_spaces peoi)) headerValue of
        Match mediaTypes _ \<Rightarrow> Some (map lower_media_type mediaTypes)
      | _ \<Rightarrow> None)"

definition parseAcceptHeader :: "('d::{linorder, zero, one}) stod \<Rightarrow> string \<Rightarrow> string list" where
  "parseAcceptHeader stod headerValue =
     (case parseMediaTypes headerValue of
        None \<Rightarrow> []
      | Some mediaTypes \<Rightarrow>
          if list_ex (\<lambda>e. list_ex (\<lambda>(k, v). k = ''q'' \<and> stod v = None) (mt_parameters e)) mediaTypes then []
          else map (\<lambda>e. mediaType (mt_mime e) @ ''/'' @ mediaSubtype (mt_mime e))
                 (stable_sort (preferred stod) (filter (\<lambda>e. qValue stod e \<noteq> 0) mediaTypes)))"

section \<open>Forwarded header\<close>

record proto_and_host =
  proto :: "string option"
  host :: "string option"

definition f_token :: "string parser" where
  "f_token = pplus (pchar (\<lambda>c. is_alnum c \<or> c \<in> set ''-.[]:''))"

definition forwardedPair :: "(string \<times> string) parser" where
  "forwardedPair = pbind f_token (\<lambda>k. pthen (plit ''='') (pmap (Pair k) (palt f_token h_quotedString)))"

text \<open>\<open>std::map\<close> keeps the first of two entries with the same key, so look-up is \<open>map_of\<close>.\<close>

definition forwarded :: "(string \<times> string) list parser" where
  "forwarded = plist forwardedPair (plit '';'')"

definition forwardedList :: "(string \<times> string) list list parser" where
  "forwardedList = plist forwarded (pthen h_spaces (pthen (plit '','') h_spaces))"

definition parseForwardedHeader :: "string \<Rightarrow> exn + proto_and_host" where
  "parseForwardedHeader headerValue =
     (case pbind forwardedList (\<lambda>fs. pmap (\<lambda>_. fs) peoi) headerValue of
        Match forwardedKvPairs _ \<Rightarrow>
          (case forwardedKvPairs of
             [] \<Rightarrow> Inl (Undefined ''parseForwardedHeader'')
           | front # _ \<Rightarrow> Inr \<lparr>proto = map_of front ''proto'', host = map_of front ''host''\<rparr>)
      | _ \<Rightarrow> Inr \<lparr>proto = None, host = None\<rparr>)"

definition getHeaderValue :: "header_map \<Rightarrow> string \<Rightarrow> string option" where
  "getHeaderValue headers header = mm_find headers header"

definition parseUrlPrefix :: "header_map \<Rightarrow> exn + string option" where
  "parseUrlPrefix headers = (case getHeaderValue headers ''forward'' of
      Some forward \<Rightarrow> bindE (parseForwardedHeader forward) (\<lambda>ph.
        case (proto ph, host ph) of
          (Some p, Some h) \<Rightarrow> Inr (Some (p @ ''://'' @ h))
        | _ \<Rightarrow> Inr None)
    | None \<Rightarrow> Inr None)"

definition peer_from_request :: "string \<Rightarrow> header_map \<Rightarrow> string" where
  "peer_from_request remote_endpoint headers = (case mm_find headers ''forwarded'' of
     Some v \<Rightarrow> remote_endpoint @ ''('' @ v @ '')'' | None \<Rightarrow> remote_endpoint)"

lemmas accept_grammar_defs = h_identifier_def h_decimal_def h_quotedString_def h_param_def h_spaces_def h_parameters_def
  h_mimeWildcard_def h_mimeSubtype_def h_mime_def oneItem_def acceptGrammar_def

section \<open>The preference order\<close>

definition specificity :: "media_type \<Rightarrow> nat" where
  "specificity m = (if mediaType (mt_mime m) = ''*'' then 0 else if mediaSubtype (mt_mime m) = ''*'' then 1 else 2)"

lemma preferred_iff:
  "preferred stod a b \<longleftrightarrow> qValue stod a > qValue stod b \<or> qValue stod a = qValue stod b \<and> specificity a > specificity b"
  by (auto simp: preferred_def specificity_def)

interpretation accept: strict_weak_order "preferred stod" for stod :: "string \<Rightarrow> ('d::{linorder, zero, one}) option"
  by unfold_locales (auto simp: preferred_iff)

section \<open>Shape of the result\<close>

text \<open>A media type in the result has one slash, a nonempty type and a nonempty subtype, all in lower case.\<close>

definition mime_token :: "string \<Rightarrow> bool" where
  "mime_token s \<longleftrightarrow> s \<noteq> [] \<and> CHR ''/'' \<notin> set s"

lemma h_identifier_token: "h_identifier s = Match a r \<Longrightarrow> mime_token a"
  by (auto simp: h_identifier_def x3_match_iffs pstar_pchar mime_token_def char_class_defs less_eq_char_def
      dest!: set_takeWhileD)

lemma h_mime_tokens: "h_mime s = Match m r \<Longrightarrow> mime_token (mediaType m) \<and> mime_token (mediaSubtype m)"
  by (auto simp: h_mime_def h_mimeSubtype_def h_mimeWildcard_def pstring_def x3_match_iffs
      dest!: h_identifier_token) (auto simp: mime_token_def split: option.splits)

lemma to_lower_slash: "to_lower c = CHR ''/'' \<longleftrightarrow> c = CHR ''/''"
proof (cases "is_upper c")
  case True
  then have "65 \<le> (of_char c :: nat)" "(of_char c :: nat) \<le> 90" by (auto simp: is_upper_def less_eq_char_def)
  then have "(of_char (to_lower c) :: nat) \<noteq> of_char (CHR ''/'')" using True by (simp add: to_lower_def)
  then show ?thesis using True by (auto simp: is_upper_def less_eq_char_def)
next
  case False
  then show ?thesis by (simp add: to_lower_def)
qed

lemma lower_token [simp]: "mime_token (lower s) = mime_token s"
proof -
  have "CHR ''/'' \<in> to_lower ` set s \<longleftrightarrow> CHR ''/'' \<in> set s" by (metis image_iff to_lower_slash)
  then show ?thesis by (simp add: mime_token_def lower_def)
qed

lemma acceptGrammar_tokens:
  assumes "acceptGrammar s = Match ms r"
  shows "list_all (\<lambda>m. mime_token (mediaType (mt_mime m)) \<and> mime_token (mediaSubtype (mt_mime m))) ms"
proof -
  obtain q where "plist oneItem (pthen h_spaces (pthen (plit '','') h_spaces)) q = Match ms r"
    using assms by (auto simp: acceptGrammar_def x3_match_iffs)
  then show ?thesis
    by (rule plist_all [THEN conjunct2, rotated]) (auto simp: oneItem_def x3_match_iffs dest!: h_mime_tokens)
qed

definition mime_shaped :: "string \<Rightarrow> bool" where
  "mime_shaped s \<longleftrightarrow> (\<exists>a b. mime_token a \<and> mime_token b \<and> s = a @ ''/'' @ b)"

lemma parseMediaTypes_tokens:
  "parseMediaTypes h = Some ms \<Longrightarrow> e \<in> set ms \<Longrightarrow> mime_token (mediaType (mt_mime e)) \<and> mime_token (mediaSubtype (mt_mime e))"
  by (auto simp: parseMediaTypes_def x3_match_iffs list_all_iff lower_media_type_def split: presult.splits
      dest!: acceptGrammar_tokens)

lemma parseAcceptHeader_shaped:
  assumes "m \<in> set (parseAcceptHeader stod h)"
  shows "mime_shaped m"
proof -
  obtain ms e where "parseMediaTypes h = Some ms" "e \<in> set ms"
    and m: "m = mediaType (mt_mime e) @ ''/'' @ mediaSubtype (mt_mime e)"
    using assms by (cases "parseMediaTypes h") (auto simp: parseAcceptHeader_def split: if_splits)
  then show ?thesis unfolding mime_shaped_def m using parseMediaTypes_tokens by blast
qed

lemma parseForwardedHeader_defined: "\<exists>ph. parseForwardedHeader h = Inr ph"
proof -
  have "fs \<noteq> []" if "forwardedList s = Match fs r" for s fs r
    using plist_all [of forwarded "\<lambda>_. True"] that unfolding forwardedList_def by blast
  then show ?thesis
    by (auto simp: parseForwardedHeader_def x3_match_iffs split: presult.splits list.splits)
qed

end
