(* ===== verification/Data_Format.thy ===== *)
theory Data_Format
  imports Http_Utils Uri_Grammar
begin

text \<open>
  \<open>restconf/utils/dataformat.cpp\<close>: matching of media types and the choice of the request and response
  encodings from the \<open>accept\<close> and \<open>content-type\<close> headers.
\<close>

section \<open>Definitions\<close>

datatype mime_type_wildcards = ALLOWED | FORBIDDEN

record data_encoding =
  df_request :: "data_format option"
  df_response :: data_format

fun asMimeType :: "data_format \<Rightarrow> string" where
  "asMimeType JSON = ''application/yang-data+json''"
| "asMimeType XML = ''application/yang-data+xml''"

text \<open>\<open>tokens[i]\<close> on the vector of a split; reading past the end is undefined.\<close>

definition token_at :: "string list \<Rightarrow> nat \<Rightarrow> exn + string" where
  "token_at ts i = (if i < length ts then Inr (ts ! i) else Inl (Undefined ''mimeMatch''))"

definition mimeMatch :: "string \<Rightarrow> string \<Rightarrow> mime_type_wildcards \<Rightarrow> exn + bool" where
  "mimeMatch providedMime applicationMime wildcards =
     (let tokensMime = split_on (CHR ''/'') providedMime;
          tokensApplicationMime = split_on (CHR ''/'') applicationMime in
      bindE (token_at tokensMime 0) (\<lambda>m0.
      bindE (token_at tokensApplicationMime 0) (\<lambda>a0.
        if wildcards = ALLOWED \<and> m0 = ''*'' then Inr True
        else if m0 \<noteq> a0 then Inr False
        else bindE (token_at tokensMime 1) (\<lambda>m1.
          if wildcards = ALLOWED \<and> m1 = ''*'' then Inr True
          else bindE (token_at tokensApplicationMime 1) (\<lambda>a1. Inr (m1 = a1))))))"

definition orE :: "exn + bool \<Rightarrow> exn + bool \<Rightarrow> exn + bool" where
  "orE a b = bindE a (\<lambda>x. if x then Inr True else b)"

definition dataTypeFromMimeType :: "string \<Rightarrow> mime_type_wildcards \<Rightarrow> exn + data_format option" where
  "dataTypeFromMimeType mime wildcards =
     (let mime = lower mime in
      bindE (orE (mimeMatch mime (asMimeType JSON) wildcards) (mimeMatch mime ''application/yang-patch+json'' wildcards)) (\<lambda>json.
        if json then Inr (Some JSON)
        else bindE (orE (mimeMatch mime (asMimeType XML) wildcards) (mimeMatch mime ''application/yang-patch+xml'' wildcards)) (\<lambda>xml.
          Inr (if xml then Some XML else None))))"

text \<open>The loop over the accepted types that stops at the first supported one.\<close>

fun firstSupported :: "string list \<Rightarrow> exn + data_format option" where
  "firstSupported [] = Inr None"
| "firstSupported (m # ms) = bindE (dataTypeFromMimeType m ALLOWED) (\<lambda>t.
     case t of Some f \<Rightarrow> Inr (Some f) | None \<Rightarrow> firstSupported ms)"

definition chooseDataEncoding :: "('d::{linorder, zero, one}) stod \<Rightarrow> header_map \<Rightarrow> exn + data_encoding" where
  "chooseDataEncoding stod headers =
     (let acceptTypes = (case getHeaderValue headers ''accept'' of Some v \<Rightarrow> parseAcceptHeader stod v | None \<Rightarrow> []);
          contentTypes = (case getHeaderValue headers ''content-type'' of Some v \<Rightarrow> parseAcceptHeader stod v | None \<Rightarrow> []);
          contentType = (if contentTypes \<noteq> [] then Some (last contentTypes) else None)
      in
      bindE (if acceptTypes = [] then Inr None
             else bindE (firstSupported acceptTypes) (\<lambda>r. case r of
                 None \<Rightarrow> throw_error 406 ''application'' ''operation-not-supported'' ''No requested format supported''
               | Some f \<Rightarrow> Inr (Some f))) (\<lambda>resAccept.
      bindE (case contentType of
               None \<Rightarrow> Inr None
             | Some ct \<Rightarrow> bindE (dataTypeFromMimeType ct FORBIDDEN) (\<lambda>r. case r of
                 Some f \<Rightarrow> Inr (Some f)
               | None \<Rightarrow> throw_error 415 ''application'' ''operation-not-supported'' ''content-type format value not supported'')) (\<lambda>resContentType.
        (let resAccept = (if resAccept = None then resContentType else resAccept) in
         Inr \<lparr>df_request = resContentType, df_response = (case resAccept of Some f \<Rightarrow> f | None \<Rightarrow> JSON)\<rparr>))))"

section \<open>Media types of the accept header never index past the end\<close>

lemma split_on_mime:
  assumes "mime_token a" and "mime_token b"
  shows "split_on (CHR ''/'') (a @ ''/'' @ b) = [a, b]"
  using assms split_on_append [of "CHR ''/''" a b] split_on_absent [of "CHR ''/''" b] by (simp add: mime_token_def)

definition mime_matches :: "string \<Rightarrow> string \<Rightarrow> string \<Rightarrow> string \<Rightarrow> mime_type_wildcards \<Rightarrow> bool" where
  "mime_matches a b x y w \<longleftrightarrow> w = ALLOWED \<and> (a = ''*'' \<or> a = x \<and> b = ''*'') \<or> a = x \<and> b = y"

lemma mimeMatch_eq:
  assumes "mime_token a" "mime_token b" "mime_token x" "mime_token y"
  shows "mimeMatch (a @ ''/'' @ b) (x @ ''/'' @ y) w = Inr (mime_matches a b x y w)"
  unfolding mimeMatch_def split_on_mime [OF assms(1,2)] split_on_mime [OF assms(3,4)] mime_matches_def
  by (auto simp: token_at_def)

definition supported_format :: "string \<Rightarrow> string \<Rightarrow> mime_type_wildcards \<Rightarrow> data_format option" where
  "supported_format a b w =
     (if mime_matches a b ''application'' ''yang-data+json'' w \<or> mime_matches a b ''application'' ''yang-patch+json'' w then Some JSON
      else if mime_matches a b ''application'' ''yang-data+xml'' w \<or> mime_matches a b ''application'' ''yang-patch+xml'' w then Some XML
      else None)"

lemma lower_append [simp]: "lower (a @ b) = lower a @ lower b"
  by (simp add: lower_def)

lemma lower_slash [simp]: "lower ''/'' = ''/''"
  by (simp add: lower_def to_lower_slash)

lemma dataTypeFromMimeType_eq:
  assumes "mime_token a" "mime_token b"
  shows "dataTypeFromMimeType (a @ ''/'' @ b) w = Inr (supported_format (lower a) (lower b) w)"
proof -
  have t: "mime_token ''application''" "mime_token ''yang-data+json''" "mime_token ''yang-patch+json''"
    "mime_token ''yang-data+xml''" "mime_token ''yang-patch+xml''"
    by (simp_all add: mime_token_def)
  have s: "mimeMatch (lower a @ ''/'' @ lower b) (''application'' @ ''/'' @ y) w = Inr (mime_matches (lower a) (lower b) ''application'' y w)"
    if "mime_token y" for y
    using assms t(1) that by (intro mimeMatch_eq) simp_all
  note m = s [OF t(2)] s [OF t(3)] s [OF t(4)] s [OF t(5)]
  show ?thesis
    unfolding dataTypeFromMimeType_def Let_def lower_append lower_slash
    using m by (simp add: orE_def supported_format_def)
qed

lemma dataTypeFromMimeType_shaped: "mime_shaped m \<Longrightarrow> \<exists>r. dataTypeFromMimeType m w = Inr r"
  by (auto simp: mime_shaped_def) (metis append_Cons append_Nil dataTypeFromMimeType_eq)

lemma firstSupported_shaped: "list_all mime_shaped ms \<Longrightarrow> \<exists>r. firstSupported ms = Inr r"
proof (induction ms)
  case (Cons m ms)
  then show ?case using dataTypeFromMimeType_shaped [of m ALLOWED] by (auto split: option.splits)
qed simp

lemma only_errors_chooseDataEncoding: "only_errors (chooseDataEncoding stod headers)"
proof -
  have a: "only_errors (firstSupported (parseAcceptHeader stod h))" for h
    using firstSupported_shaped [of "parseAcceptHeader stod h"] parseAcceptHeader_shaped [of _ stod h]
    by (auto simp: list_all_iff)
  have "only_errors (dataTypeFromMimeType (last (parseAcceptHeader stod h)) FORBIDDEN)" if "parseAcceptHeader stod h \<noteq> []" for h
    using dataTypeFromMimeType_shaped [of "last (parseAcceptHeader stod h)" FORBIDDEN] parseAcceptHeader_shaped [of _ stod h] that
    by (auto simp: only_errors_def)
  with a show ?thesis
    unfolding chooseDataEncoding_def Let_def
    by (auto intro!: only_errors_bindE split: option.splits if_splits)
qed

end
