(* ===== verification/Http_Properties.thy ===== *)
theory Http_Properties
  imports Complex_Main Data_Format
begin

text \<open>
  Properties of \<open>http/utils.cpp\<close> and \<open>restconf/utils/dataformat.cpp\<close>: the order of accepted media types
  and the choice of encodings. The example conversion of quality values knows three of them.
\<close>

definition example_stod :: "string \<Rightarrow> rat option" where
  "example_stod s = (if s = ''0'' then Some 0 else if s = ''0.5'' then Some (1 / 2) else if s = ''1'' then Some 1 else None)"





text \<open>Choosing the encodings never reads past the tokens of a media type: whatever the headers, the result is
  a pair of encodings or an error response.\<close>

theorem chooseDataEncoding_only_errors: "only_errors (chooseDataEncoding stod headers)"
  by (rule only_errors_chooseDataEncoding)

text \<open>The first supported entry of a list of media types.\<close>

definition first_format :: "string list \<Rightarrow> data_format option" where
  "first_format ms = (case List.map_filter (\<lambda>m. case dataTypeFromMimeType m ALLOWED of Inr (Some f) \<Rightarrow> Some f | _ \<Rightarrow> None) ms of
     [] \<Rightarrow> None | f # _ \<Rightarrow> Some f)"

lemma firstSupported_first_format:
  assumes "list_all mime_shaped ms"
  shows "firstSupported ms = Inr (first_format ms)"
  using assms
proof (induction ms)
  case (Cons m ms)
  then obtain r where "dataTypeFromMimeType m ALLOWED = Inr r" using dataTypeFromMimeType_shaped by auto
  then show ?case using Cons by (cases r) (auto simp: first_format_def map_filter_def split: list.splits)
qed (simp add: first_format_def map_filter_def)

text \<open>The response is encoded in the most preferred supported format of the \<open>accept\<close> header; without such
  a header in the encoding of the request, and without that in JSON. A nonempty \<open>accept\<close> list without a
  supported format gives 406, an unsupported \<open>content-type\<close> gives 415.\<close>

theorem chooseDataEncoding_response:
  assumes "types = (case map_of headers ''accept'' of None \<Rightarrow> [] | Some v \<Rightarrow> parseAcceptHeader stod v)"
    and "content = (case map_of headers ''content-type'' of None \<Rightarrow> [] | Some v \<Rightarrow> parseAcceptHeader stod v)"
  shows "chooseDataEncoding stod headers =
    (if types \<noteq> [] \<and> first_format types = None then
       throw_error 406 ''application'' ''operation-not-supported'' ''No requested format supported''
     else if content = [] then
       Inr \<lparr>df_request = None, df_response = (case first_format types of Some f \<Rightarrow> f | None \<Rightarrow> JSON)\<rparr>
     else (case dataTypeFromMimeType (last content) FORBIDDEN of
         Inr (Some f) \<Rightarrow> Inr \<lparr>df_request = Some f, df_response = (case first_format types of Some g \<Rightarrow> g | None \<Rightarrow> f)\<rparr>
       | _ \<Rightarrow> throw_error 415 ''application'' ''operation-not-supported'' ''content-type format value not supported''))"
proof -
  have shaped: "list_all mime_shaped types" "list_all mime_shaped content"
    using assms parseAcceptHeader_shaped [of _ stod] by (auto simp: list_all_iff split: option.splits)
  then have c: "content \<noteq> [] \<Longrightarrow> \<exists>r. dataTypeFromMimeType (last content) FORBIDDEN = Inr r"
    using dataTypeFromMimeType_shaped [of "last content" FORBIDDEN] by (simp add: list_all_iff)
  have e: "first_format [] = None" by (simp add: first_format_def map_filter_def)
  have "chooseDataEncoding stod headers =
    bindE (if types = [] then Inr None else bindE (firstSupported types) (\<lambda>r. case r of
        None \<Rightarrow> throw_error 406 ''application'' ''operation-not-supported'' ''No requested format supported'' | Some f \<Rightarrow> Inr (Some f))) (\<lambda>resAccept.
    bindE (case if content \<noteq> [] then Some (last content) else None of None \<Rightarrow> Inr None
      | Some ct \<Rightarrow> bindE (dataTypeFromMimeType ct FORBIDDEN) (\<lambda>r. case r of Some f \<Rightarrow> Inr (Some f)
        | None \<Rightarrow> throw_error 415 ''application'' ''operation-not-supported'' ''content-type format value not supported'')) (\<lambda>resContentType.
      (let resAccept = (if resAccept = None then resContentType else resAccept) in
       Inr \<lparr>df_request = resContentType, df_response = (case resAccept of Some f \<Rightarrow> f | None \<Rightarrow> JSON)\<rparr>)))"
    unfolding chooseDataEncoding_def getHeaderValue_def assms Let_def by (rule refl)
  then show ?thesis
    unfolding firstSupported_first_format [OF shaped(1)]
    using c e by (cases "first_format types"; cases "content = []")
      (auto simp: throw_error_def throw_error_at_def Let_def split: option.splits)
qed

theorem chooseDataEncoding_response_witness:
  "chooseDataEncoding example_stod [(''accept'', ''text/html, application/yang-data+xml;q=0.5'')] =
    Inr \<lparr>df_request = None, df_response = XML\<rparr>"
proof -
  have "first_format (parseAcceptHeader example_stod ''text/html, application/yang-data+xml;q=0.5'') = Some XML"
    "parseAcceptHeader example_stod ''text/html, application/yang-data+xml;q=0.5'' = [''text/html'', ''application/yang-data+xml'']"
    by code_simp+
  then show ?thesis
    using chooseDataEncoding_response [OF refl refl, of example_stod "[(''accept'', ''text/html, application/yang-data+xml;q=0.5'')]"]
    by simp
qed

text \<open>The parameter names of a \<open>forwarded\<close> header are matched with their case: the lower-cased copy of the
  header is never used, so \<open>Proto\<close> is not recognised although such names are case-insensitive.\<close>

theorem forwarded_case_sensitive:
  "parseForwardedHeader ''proto=https;host=a'' = Inr \<lparr>proto = Some ''https'', host = Some ''a''\<rparr> \<and>
   parseForwardedHeader ''Proto=https;Host=a'' = Inr \<lparr>proto = None, host = None\<rparr>"
  by code_simp

text \<open>The URL prefix is taken from the header field \<open>forward\<close>; a request with the field \<open>forwarded\<close> has no
  prefix.\<close>

theorem url_prefix_header:
  "parseUrlPrefix [(''forward'', ''proto=https;host=a'')] = Inr (Some ''https://a'') \<and>
   parseUrlPrefix [(''forwarded'', ''proto=https;host=a'')] = Inr None"
  by code_simp

text \<open>Of several content types the least preferred one is used, which need not be the last one of the header.\<close>

theorem content_type_not_last:
  "chooseDataEncoding example_stod [(''content-type'', ''application/yang-data+json;q=0.5, application/yang-data+xml'')] =
     Inr \<lparr>df_request = Some JSON, df_response = JSON\<rparr>"
  by code_simp

end
