(* ===== verification/Auth_Pam.thy ===== *)
theory Auth_Pam
  imports X3 Exceptions "HOL-Library.Word"
begin

text \<open>
  \<open>auth/PAM.cpp\<close>: HTTP Basic credentials and the PAM transaction. The bytes that Boost's iterators
  decode from a base64 text are the parameter \<open>b64_bytes\<close>; the PAM library is the parameter \<open>pam\<close>, a record
  of the calls the source makes; \<open>strdup\<close> is a parameter because its failure is handled.
\<close>

section \<open>Basic credentials\<close>

definition base64Blob :: "string parser" where
  "base64Blob = pbind (pstar (pchar (\<lambda>c. is_alnum c \<or> c = CHR ''+'' \<or> c = CHR ''/'')))
     (\<lambda>s. pmap (\<lambda>_. s) (pupto 2 (plit ''='')))"

text \<open>\<open>x3::no_case[x3::lit("basic")]\<close>.\<close>

fun plit_no_case :: "string \<Rightarrow> unit parser" where
  "plit_no_case [] s = Match () s"
| "plit_no_case (c # cs) [] = NoMatch"
| "plit_no_case (c # cs) (x # s) = (if to_lower c = to_lower x then plit_no_case cs s else NoMatch)"

definition headerGrammar :: "string parser" where
  "headerGrammar = pthen (plit_no_case ''basic'') (pthen (plit '' '') base64Blob)"

record user_pass =
  username :: string
  password :: string

definition username_rule :: "string parser" where
  "username_rule = pplus (pdiff (pchar (\<lambda>_. True)) (plit '':''))"

definition password_rule :: "string parser" where
  "password_rule = pplus (pchar (\<lambda>_. True))"

definition userPass :: "user_pass parser" where
  "userPass = pbind username_rule (\<lambda>u. pthen (plit '':'')
     (pmap (\<lambda>p. \<lparr>username = u, password = p\<rparr>) password_rule))"

definition b64_decode :: "(string \<Rightarrow> string) \<Rightarrow> string \<Rightarrow> string" where
  "b64_decode b64_bytes val = rev (dropWhile (\<lambda>c. c = CHR 0x00) (rev (b64_bytes val)))"

definition throw_auth :: "string \<Rightarrow> nat option \<Rightarrow> exn + 'a" where
  "throw_auth message delay = Inl (Auth_Error \<lparr>auth_message = message, auth_delay = delay\<rparr>)"

definition parseBasicAuth :: "(string \<Rightarrow> string) \<Rightarrow> string \<Rightarrow> exn + user_pass" where
  "parseBasicAuth b64_bytes blob =
     (case pbind headerGrammar (\<lambda>b. pmap (\<lambda>_. b) peoi) blob of
        Match b64 _ \<Rightarrow>
          (case pbind userPass (\<lambda>u. pmap (\<lambda>_. u) peoi) (b64_decode b64_bytes b64) of
             Match res _ \<Rightarrow> Inr res
           | _ \<Rightarrow> throw_auth ''Cannot parse the user-pass authorization blob'' None)
      | _ \<Rightarrow> throw_auth ''Cannot parse the Basic authorization header'' None)"

section \<open>The PAM conversation\<close>

datatype pam_msg_style = PAM_PROMPT_ECHO_ON | PAM_PROMPT_ECHO_OFF | PAM_ERROR_MSG | PAM_TEXT_INFO | PAM_OTHER_STYLE

datatype pam_result = PAM_SUCCESS | PAM_BUF_ERR | PAM_CONV_ERR | PAM_ERROR nat

text \<open>The loop over the messages: an early return drops (and frees) the responses collected so far.\<close>

fun pam_userpass_conv :: "(string \<Rightarrow> string option) \<Rightarrow> user_pass \<Rightarrow> pam_msg_style list \<Rightarrow> pam_result + string option list" where
  "pam_userpass_conv strdup up [] = Inr []"
| "pam_userpass_conv strdup up (style # msgs) =
     bindE (case style of
         PAM_PROMPT_ECHO_ON \<Rightarrow> (case strdup (c_str (username up)) of None \<Rightarrow> Inl PAM_BUF_ERR | Some s \<Rightarrow> Inr (Some s))
       | PAM_PROMPT_ECHO_OFF \<Rightarrow> (case strdup (c_str (password up)) of None \<Rightarrow> Inl PAM_BUF_ERR | Some s \<Rightarrow> Inr (Some s))
       | PAM_ERROR_MSG \<Rightarrow> Inr None
       | PAM_TEXT_INFO \<Rightarrow> Inr None
       | PAM_OTHER_STYLE \<Rightarrow> Inl PAM_CONV_ERR)
     (\<lambda>str. bindE (pam_userpass_conv strdup up msgs) (\<lambda>resp. Inr (str # resp)))"

section \<open>The PAM transaction\<close>

text \<open>
  PAM as the source uses it. \<open>pam_start\<close> gives its result and whether it returned a handle;
  \<open>pam_authenticate\<close> talks to the conversation function and calls \<open>pam_register_delay\<close> with its result
  and a delay in microseconds, an \<open>unsigned\<close>; the calls are the second part of what it gives.
\<close>

type_synonym pam_conv = "pam_msg_style list \<Rightarrow> pam_result + string option list"

record pam =
  pam_start :: "string \<Rightarrow> string \<Rightarrow> pam_result \<times> bool"
  pam_set_rhost :: "string \<Rightarrow> pam_result"
  pam_set_fail_delay :: pam_result
  pam_authenticate :: "pam_conv \<Rightarrow> pam_result \<times> (pam_result \<times> 32 word) list"
  pam_acct_mgmt :: pam_result
  pam_get_user :: "pam_result \<times> string"
  pam_strerror :: "pam_result \<Rightarrow> string"

text \<open>What the callbacks share; the delay of the last call remains.\<close>

record pam_conv_data =
  cd_userPass :: user_pass
  cd_delay :: "nat option"

definition pam_register_delay :: "pam_result \<Rightarrow> 32 word \<Rightarrow> pam_conv_data \<Rightarrow> pam_conv_data" where
  "pam_register_delay retval usec_delay data = data\<lparr>cd_delay := Some (unat usec_delay)\<rparr>"

text \<open>\<open>check\<close> throws unless the last call succeeded. A step pairs \<open>res\<close> at the end of the scope with the outcome.\<close>

definition pam_check :: "pam \<Rightarrow> pam_result \<Rightarrow> nat option \<Rightarrow> string \<Rightarrow> pam_result \<times> (exn + 'a) \<Rightarrow> pam_result \<times> (exn + 'a)" where
  "pam_check pam res delay f k =
     (if res \<noteq> PAM_SUCCESS then (res, throw_auth (''PAM: '' @ f @ '': '' @ pam_strerror pam res) delay) else k)"

definition pam_transaction :: "(string \<Rightarrow> string option) \<Rightarrow> pam \<Rightarrow> pam_conv_data \<Rightarrow> string option \<Rightarrow> pam_result \<times> (exn + string)" where
  "pam_transaction strdup pam data remoteHost =
     pam_check pam (case remoteHost of None \<Rightarrow> PAM_SUCCESS | Some h \<Rightarrow> pam_set_rhost pam (c_str h)) (cd_delay data) ''pam_set_item(PAM_RHOST)''
    (pam_check pam (pam_set_fail_delay pam) (cd_delay data) ''pam_set_item(PAM_FAIL_DELAY)''
    (case pam_authenticate pam (pam_userpass_conv strdup (cd_userPass data)) of (authRes, registered) \<Rightarrow>
     (let delay = cd_delay (foldl (\<lambda>d (retval, usec). pam_register_delay retval usec d) data registered) in
      pam_check pam authRes delay ''pam_authenticate''
     (pam_check pam (pam_acct_mgmt pam) delay ''pam_acct_mgmt''
     (case pam_get_user pam of (userRes, item) \<Rightarrow>
      pam_check pam userRes delay ''pam_get_item(PAM_USER)'' (userRes, Inr item))))))"

text \<open>
  \<open>authenticate_pam\<close> on parsed credentials. The result pairs the codes passed to \<open>pam_end\<close> by the
  scope guard (none without a handle) with the outcome.
\<close>

definition authenticate_userpass :: "(string \<Rightarrow> string option) \<Rightarrow> pam \<Rightarrow> user_pass \<Rightarrow> string option \<Rightarrow> pam_result list \<times> (exn + string)" where
  "authenticate_userpass strdup pam up remoteHost =
     (let data = \<lparr>cd_userPass = up, cd_delay = None\<rparr>;
          (startRes, hasHandle) = pam_start pam ''rousette'' (c_str (username up));
          (res, r) = pam_check pam startRes (cd_delay data) ''pam_start()'' (pam_transaction strdup pam data remoteHost)
      in (if hasHandle then [res] else [], r))"

definition authenticate_pam :: "(string \<Rightarrow> string) \<Rightarrow> (string \<Rightarrow> string option) \<Rightarrow> pam \<Rightarrow> string \<Rightarrow> string option \<Rightarrow> exn + string" where
  "authenticate_pam b64_bytes strdup pam blob remoteHost =
     bindE (parseBasicAuth b64_bytes blob) (\<lambda>up. snd (authenticate_userpass strdup pam up remoteHost))"

section \<open>Credentials read from a header\<close>

lemma pplus_pchar_all: "pplus (pchar (\<lambda>_. True)) s = (if s = [] then NoMatch else Match s [])"
  by (simp add: pplus_pchar)

lemma pdiff_char: "pdiff (pchar (\<lambda>_. True)) (plit [d]) = pchar (\<lambda>c. c \<noteq> d)"
proof
  show "pdiff (pchar (\<lambda>_. True)) (plit [d]) s = pchar (\<lambda>c. c \<noteq> d) s" for s
    by (cases s) (auto simp: pdiff_def)
qed

text \<open>What a decoded blob must look like: a nonempty name without a colon, a colon, a nonempty rest.\<close>

lemma userPass_unfold:
  "userPass s = (let u = takeWhile (\<lambda>c. c \<noteq> CHR '':'') s; r = dropWhile (\<lambda>c. c \<noteq> CHR '':'') s in
     if u = [] \<or> r = [] \<or> tl r = [] then NoMatch else Match \<lparr>username = u, password = tl r\<rparr> [])"
proof -
  have u: "s \<noteq> [] \<and> hd s \<noteq> CHR '':'' \<longleftrightarrow> takeWhile (\<lambda>c. c \<noteq> CHR '':'') s \<noteq> []" by (cases s) auto
  show ?thesis
  proof (cases "dropWhile (\<lambda>c. c \<noteq> CHR '':'') s")
    case Nil
    then show ?thesis
      by (simp add: userPass_def username_rule_def pdiff_char pplus_pchar u pthen_def pbind_def del: dropWhile_eq_Nil_conv)
  next
    case (Cons c r)
    then have c: "c = CHR '':''" using hd_dropWhile [of "\<lambda>c. c \<noteq> CHR '':''" s] by simp
    show ?thesis unfolding Let_def Cons
      by (simp add: userPass_def username_rule_def password_rule_def pdiff_char pplus_pchar u pplus_pchar_all [unfolded pplus_pchar]
          Cons c pthen_def pbind_def pmap_def pattr_def)
  qed
qed

lemma userPass_Match_iff:
  "userPass s = Match up q \<longleftrightarrow> q = [] \<and> s = username up @ '':'' @ password up \<and> username up \<noteq> [] \<and>
     CHR '':'' \<notin> set (username up) \<and> password up \<noteq> []" (is "?l \<longleftrightarrow> ?r")
proof
  let ?P = "\<lambda>c. c \<noteq> CHR '':''"
  assume ?l
  then have c: "\<not> (takeWhile ?P s = [] \<or> dropWhile ?P s = [] \<or> tl (dropWhile ?P s) = [])"
    unfolding userPass_unfold Let_def by (rule contrapos_pn) (simp only: if_True presult.distinct not_False_eq_True)
  then have "up = \<lparr>username = takeWhile ?P s, password = tl (dropWhile ?P s)\<rparr>" "q = []"
    using \<open>?l\<close> unfolding userPass_unfold Let_def by (simp_all only: if_False presult.inject)
  then have l: "username up = takeWhile ?P s" "password up = tl (dropWhile ?P s)" "username up \<noteq> []"
      "dropWhile ?P s \<noteq> []" "password up \<noteq> []" "q = []"
    using c by (simp_all del: dropWhile_eq_Nil_conv takeWhile_eq_Nil_iff)
  have "dropWhile ?P s = CHR '':'' # password up"
    using hd_dropWhile [OF l(4)] l(2,4) by (cases "dropWhile ?P s") simp_all
  then have "s = username up @ '':'' @ password up" using takeWhile_dropWhile_id [of ?P s] l(1) by simp
  moreover have "CHR '':'' \<notin> set (username up)" unfolding l(1) using set_takeWhileD [of "CHR '':''" ?P s] by blast
  ultimately show ?r using l by simp
next
  assume r: ?r
  then have "takeWhile (\<lambda>c. c \<noteq> CHR '':'') s = username up" "dropWhile (\<lambda>c. c \<noteq> CHR '':'') s = CHR '':'' # password up"
    by (auto simp: takeWhile_append dropWhile_append)
  then show ?l using r by (simp add: userPass_unfold)
qed

lemma userPass_iff:
  "pbind userPass (\<lambda>u. pmap (\<lambda>_. u) peoi) s = Match up r \<longleftrightarrow>
     r = [] \<and> s = username up @ '':'' @ password up \<and> username up \<noteq> [] \<and> CHR '':'' \<notin> set (username up) \<and> password up \<noteq> []"
  by (simp add: x3_match_iffs userPass_Match_iff) metis

lemma parseBasicAuth_Inr_iff:
  "parseBasicAuth dec blob = Inr up \<longleftrightarrow>
     (\<exists>b64. pbind headerGrammar (\<lambda>b. pmap (\<lambda>_. b) peoi) blob = Match b64 [] \<and>
        b64_decode dec b64 = username up @ '':'' @ password up \<and>
        username up \<noteq> [] \<and> CHR '':'' \<notin> set (username up) \<and> password up \<noteq> [])"
proof -
  have e: "r = []" if "pbind headerGrammar (\<lambda>b. pmap (\<lambda>_. b) peoi) blob = Match b64 r" for b64 r
    using that by (auto simp: x3_match_iffs)
  have "parseBasicAuth dec blob = Inr up \<longleftrightarrow>
    (\<exists>b64 r q. pbind headerGrammar (\<lambda>b. pmap (\<lambda>_. b) peoi) blob = Match b64 r \<and>
      pbind userPass (\<lambda>u. pmap (\<lambda>_. u) peoi) (b64_decode dec b64) = Match up q)"
    by (auto simp: parseBasicAuth_def throw_auth_def split: presult.splits)
  then show ?thesis unfolding userPass_iff using e by blast
qed

lemma plit_no_case_self: "plit_no_case l (l @ r) = Match () r"
  by (induction l) auto

definition base64_text :: "string \<Rightarrow> bool" where
  "base64_text s \<longleftrightarrow> list_all (\<lambda>c. is_alnum c \<or> c = CHR ''+'' \<or> c = CHR ''/'') s"

lemma headerGrammar_print:
  assumes "base64_text b" and "n \<le> 2"
  shows "pbind headerGrammar (\<lambda>b. pmap (\<lambda>_. b) peoi) (''Basic '' @ b @ replicate n (CHR ''='')) = Match b []"
proof -
  let ?P = "\<lambda>c. is_alnum c \<or> c = CHR ''+'' \<or> c = CHR ''/''"
  have no: "\<not> ?P (CHR ''='')" by (simp add: char_class_defs less_eq_char_def)
  have "takeWhile ?P (b @ replicate n (CHR ''='')) = b" "dropWhile ?P (b @ replicate n (CHR ''='')) = replicate n (CHR ''='')"
    using assms(1) no by (cases n; auto simp: base64_text_def list_all_iff takeWhile_append dropWhile_append)+
  moreover have "n = 0 \<or> n = 1 \<or> n = 2" using assms(2) by auto
  then have "\<exists>us. pupto 2 (plit ''='') (replicate n (CHR ''='')) = Match us []"
    by (auto simp: eval_nat_numeral palt_def pattr_def pmap_def pbind_def)
  moreover have "to_lower (CHR ''B'') = CHR ''b''" by code_simp
  then have "plit_no_case ''basic'' (''Basic'' @ r) = Match () r" for r
    by (simp add: to_lower_def [of "CHR ''b''"] is_upper_def less_eq_char_def)
  ultimately show ?thesis
    by (auto simp: headerGrammar_def base64Blob_def pstar_pchar pthen_def pbind_def pmap_def pattr_def)
qed

section \<open>Success means that PAM accepted the credentials\<close>

lemma throw_auth_simps [simp]: "throw_auth m d \<noteq> Inr a"
  by (simp add: throw_auth_def)

lemma pam_transaction_Inr:
  "snd (pam_transaction strdup pam data rh) = Inr u \<Longrightarrow>
     fst (pam_authenticate pam (pam_userpass_conv strdup (cd_userPass data))) = PAM_SUCCESS \<and> pam_acct_mgmt pam = PAM_SUCCESS \<and>
     pam_get_user pam = (PAM_SUCCESS, u)"
  by (auto simp: pam_transaction_def pam_check_def Let_def split: prod.splits if_splits)

lemma authenticate_userpass_Inr:
  assumes "snd (authenticate_userpass strdup pam up rh) = Inr u"
  shows "fst (pam_start pam ''rousette'' (c_str (username up))) = PAM_SUCCESS \<and>
    fst (pam_authenticate pam (pam_userpass_conv strdup up)) = PAM_SUCCESS \<and>
    pam_acct_mgmt pam = PAM_SUCCESS \<and> pam_get_user pam = (PAM_SUCCESS, u)"
  using assms pam_transaction_Inr [of strdup pam "\<lparr>cd_userPass = up, cd_delay = None\<rparr>" rh u]
  by (auto simp: authenticate_userpass_def pam_check_def Let_def split: prod.splits if_splits)

text \<open>A delayed answer waits for the time that PAM registered last, which fits the 32 bits of an \<open>unsigned\<close>.\<close>

lemma registered_delay:
  "cd_delay (foldl (\<lambda>d (retval, usec). pam_register_delay retval usec d) data registered) =
     (if registered = [] then cd_delay data else Some (unat (snd (last registered))))"
  by (induction registered arbitrary: data) (auto simp: pam_register_delay_def)

lemma pam_delay:
  assumes "snd (authenticate_userpass strdup pam up rh) = Inl e"
  shows "\<exists>m d. e = Auth_Error \<lparr>auth_message = m, auth_delay = d\<rparr> \<and>
    (d = None \<or> (\<exists>registered. snd (pam_authenticate pam (pam_userpass_conv strdup up)) = registered \<and> registered \<noteq> [] \<and> d = Some (unat (snd (last registered)))))"
  using assms
  by (auto simp: authenticate_userpass_def pam_transaction_def pam_check_def Let_def throw_auth_def registered_delay split: prod.splits if_splits)

text \<open>The conversation reveals the password only to prompts that hide their input.\<close>

definition conv_answer :: "user_pass \<Rightarrow> pam_msg_style \<Rightarrow> string option" where
  "conv_answer up style = (case style of PAM_PROMPT_ECHO_ON \<Rightarrow> Some (c_str (username up))
     | PAM_PROMPT_ECHO_OFF \<Rightarrow> Some (c_str (password up)) | _ \<Rightarrow> None)"

lemma pam_userpass_conv_eq:
  assumes "\<And>s. strdup s = Some s"
  shows "pam_userpass_conv strdup up msgs =
    (if PAM_OTHER_STYLE \<in> set msgs then Inl PAM_CONV_ERR else Inr (map (conv_answer up) msgs))"
proof (induction msgs)
  case (Cons m msgs)
  then show ?case using assms by (cases m) (auto simp: conv_answer_def)
qed simp

end
