(* ===== verification/Auth_Nacm.thy ===== *)
theory Auth_Nacm
  imports Auth_Pam Http_Utils Yang_Utils
begin

text \<open>
  \<open>auth/Nacm.cpp\<close> and \<open>auth/Http.cpp\<close>: the check of the NACM configuration that decides whether
  anonymous access is enabled, the authorization of a request, and the delayed error response. The
  names of the anonymous user and group come from a generated header and are parameters; a session is
  the part of sysrepo's session state that the code changes.
\<close>

section \<open>NACM configuration\<close>

text \<open>The leafs of \<open>/ietf-netconf-acm:nacm/rule-list/rule\<close>; \<open>None\<close> is an absent node.\<close>

record nacm_rule =
  rule_module_name :: "string option"
  rule_rpc_name :: "string option"
  rule_notification_name :: "string option"
  rule_path :: "string option"
  rule_access_operations :: "string option"
  rule_action :: "string option"

record nacm_rule_list =
  rl_groups :: "string list"
  rl_rules :: "nacm_rule list"

definition isWhitelistedRPC :: "string option \<Rightarrow> string option \<Rightarrow> bool" where
  "isWhitelistedRPC moduleNameNode rpcNameNode = (case (moduleNameNode, rpcNameNode) of
     (Some m, Some r) \<Rightarrow> m = ''ietf-subscribed-notifications'' \<and> r = ''establish-subscription''
   | _ \<Rightarrow> False)"

definition isRuleForAnonymousAccess :: "nacm_rule \<Rightarrow> bool" where
  "isRuleForAnonymousAccess rule = (case rule_access_operations rule of
     None \<Rightarrow> False
   | Some ops \<Rightarrow> ops = ''read'' \<or> ops = ''exec'' \<and> isWhitelistedRPC (rule_module_name rule) (rule_rpc_name rule))"

text \<open>\<open>rule.findPath(...)->asTerm().valueStr() == s\<close>, undefined on an absent node.\<close>

definition leaf_is :: "string option \<Rightarrow> string \<Rightarrow> exn + bool" where
  "leaf_is l s = (case l of None \<Rightarrow> Inl (Undefined ''isRuleWildcardDeny'') | Some v \<Rightarrow> Inr (v = s))"

definition andE :: "exn + bool \<Rightarrow> exn + bool \<Rightarrow> exn + bool" where
  "andE a b = bindE a (\<lambda>x. if x then b else Inr False)"

definition isRuleWildcardDeny :: "nacm_rule \<Rightarrow> exn + bool" where
  "isRuleWildcardDeny rule = andE (leaf_is (rule_action rule) ''deny'')
     (andE (leaf_is (rule_module_name rule) ''*'') (leaf_is (rule_access_operations rule) ''*''))"

definition validAnonymousNacmRules :: "nacm_rule_list list option \<Rightarrow> string \<Rightarrow> exn + bool" where
  "validAnonymousNacmRules data anonGroup = (case data of
      None \<Rightarrow> Inr False
    | Some [] \<Rightarrow> Inr False
    | Some (firstRuleSet # _) \<Rightarrow>
        (let rules = rl_rules firstRuleSet; groups = rl_groups firstRuleSet in
         if \<not> list_ex (\<lambda>e. e = anonGroup) groups then Inr False
         else if rules = [] then Inr False
         else if \<not> list_all isRuleForAnonymousAccess (butlast rules) then Inr False
         else bindE (isRuleWildcardDeny (last rules)) (\<lambda>deny. if \<not> deny then Inr False else Inr True)))"

section \<open>The NACM component\<close>

record nacm =
  m_anonymousEnabled :: bool

definition Nacm_init :: nacm where
  "Nacm_init = \<lparr>m_anonymousEnabled = False\<rparr>"

text \<open>The callback on a change of \<open>ietf-netconf-acm\<close>.\<close>

definition onModuleChange :: "string \<Rightarrow> nacm_rule_list list option \<Rightarrow> nacm \<Rightarrow> exn + nacm" where
  "onModuleChange anonGroup data nacm =
     bindE (validAnonymousNacmRules data anonGroup) (\<lambda>v. Inr (nacm\<lparr>m_anonymousEnabled := v\<rparr>))"

definition authorize :: "string \<Rightarrow> nacm \<Rightarrow> sr_session \<Rightarrow> string \<Rightarrow> sr_session \<times> bool" where
  "authorize anonUser nacm session user =
     (if user = anonUser \<and> \<not> m_anonymousEnabled nacm then (session, False)
      else (session\<lparr>nacmUser := Some user\<rparr>, True))"

text \<open>\<open>authorizeRequest\<close>: \<open>authenticate\<close> is \<open>authenticate_pam\<close> without a remote host.\<close>

definition authorizeRequest :: "string \<Rightarrow> (string \<Rightarrow> exn + string) \<Rightarrow> nacm \<Rightarrow> sr_session \<Rightarrow> header_map \<Rightarrow> exn + sr_session" where
  "authorizeRequest anonUser authenticate nacm sess headers =
     bindE (case getHeaderValue headers ''authorization'' of
              Some authHeader \<Rightarrow> authenticate authHeader
            | None \<Rightarrow> Inr anonUser) (\<lambda>user.
       case authorize anonUser nacm sess user of
         (sess', True) \<Rightarrow> Inr sess'
       | (_, False) \<Rightarrow> throw_auth ''Access denied.'' None)"

section \<open>The delayed error response\<close>

text \<open>
  \<open>processAuthError\<close>: without a delay the response callback runs at once; with a delay it runs when the
  timer completes, unless the connection was closed first.
\<close>

datatype auth_failure_state = Waiting | Responded | Dropped

datatype auth_failure_event = Timer_Expires | Connection_Closes

fun processAuthError :: "auth_error \<Rightarrow> auth_failure_state" where
  "processAuthError e = (case auth_delay e of Some _ \<Rightarrow> Waiting | None \<Rightarrow> Responded)"

inductive auth_failure_step :: "auth_failure_state \<Rightarrow> auth_failure_event \<Rightarrow> auth_failure_state \<Rightarrow> bool" where
  timer: "auth_failure_step Waiting Timer_Expires Responded"
| close: "auth_failure_step Waiting Connection_Closes Dropped"
| close_late: "auth_failure_step Responded Connection_Closes Responded"
| timer_cancelled: "auth_failure_step Dropped Timer_Expires Dropped"

inductive auth_failure_run :: "auth_failure_state \<Rightarrow> auth_failure_event list \<Rightarrow> auth_failure_state \<Rightarrow> bool" where
  nil: "auth_failure_run s [] s"
| step: "auth_failure_step s e t \<Longrightarrow> auth_failure_run t es u \<Longrightarrow> auth_failure_run s (e # es) u"

inductive_cases auth_failure_stepE: "auth_failure_step s e t"

code_pred auth_failure_step .

section \<open>RFC 8341 decisions\<close>

text \<open>
  An access request and its decision by rule lists: the first rule that matches, in the order of the
  rule lists whose groups hold one of the user's groups (RFC 8341, section 3.4). Which rule matches
  which request is decided by the NACM implementation, the parameter \<open>matches\<close>.
\<close>

datatype access_operation = Acc_Create | Acc_Read | Acc_Update | Acc_Delete | Acc_Exec

record access_request =
  acc_operation :: access_operation
  acc_module :: string
  acc_rpc :: "string option"
  acc_path :: string

definition applicable_rules :: "nacm_rule_list list \<Rightarrow> string list \<Rightarrow> nacm_rule list" where
  "applicable_rules rls groups = concat (map rl_rules (filter (\<lambda>rl. list_ex (\<lambda>g. g \<in> set groups \<or> g = ''*'') (rl_groups rl)) rls))"

definition nacm_decision :: "(nacm_rule \<Rightarrow> access_request \<Rightarrow> bool) \<Rightarrow> nacm_rule_list list \<Rightarrow> string list \<Rightarrow> access_request \<Rightarrow> string option" where
  "nacm_decision matches rls groups q =
     Option.bind (find (\<lambda>r. matches r q) (applicable_rules rls groups)) rule_action"

text \<open>What the policy means to allow to anonymous users.\<close>

definition anonymous_may :: "access_request \<Rightarrow> bool" where
  "anonymous_may q \<longleftrightarrow> acc_operation q = Acc_Read \<or>
     acc_operation q = Acc_Exec \<and> acc_module q = ''ietf-subscribed-notifications'' \<and> acc_rpc q = Some ''establish-subscription''"

text \<open>Documented behaviour of rule matching that the policy relies on.\<close>

definition matches_operations :: "(nacm_rule \<Rightarrow> access_request \<Rightarrow> bool) \<Rightarrow> bool" where
  "matches_operations matches \<longleftrightarrow> (\<forall>r q. matches r q \<longrightarrow>
     (rule_access_operations r = Some ''read'' \<longrightarrow> acc_operation q = Acc_Read) \<and>
     (rule_access_operations r = Some ''exec'' \<longrightarrow> acc_operation q = Acc_Exec) \<and>
     (\<forall>m. rule_module_name r = Some m \<longrightarrow> m \<noteq> ''*'' \<longrightarrow> acc_module q = m) \<and>
     (\<forall>p. rule_rpc_name r = Some p \<longrightarrow> p \<noteq> ''*'' \<longrightarrow> acc_rpc q = Some p))"

definition unrestricted :: "nacm_rule \<Rightarrow> bool" where
  "unrestricted r \<longleftrightarrow> rule_rpc_name r = None \<and> rule_notification_name r = None \<and> rule_path r = None"

definition matches_wildcard :: "(nacm_rule \<Rightarrow> access_request \<Rightarrow> bool) \<Rightarrow> bool" where
  "matches_wildcard matches \<longleftrightarrow> (\<forall>r q. rule_module_name r = Some ''*'' \<longrightarrow> rule_access_operations r = Some ''*'' \<longrightarrow>
     unrestricted r \<longrightarrow> matches r q)"

text \<open>RFC 8341, section 3.4: matching for requests on modules, operations and data nodes.\<close>

fun operation_name :: "access_operation \<Rightarrow> string" where
  "operation_name Acc_Create = ''create''"
| "operation_name Acc_Read = ''read''"
| "operation_name Acc_Update = ''update''"
| "operation_name Acc_Delete = ''delete''"
| "operation_name Acc_Exec = ''exec''"

definition leaf_matches :: "string option \<Rightarrow> (string \<Rightarrow> bool) \<Rightarrow> bool" where
  "leaf_matches l P = (case l of None \<Rightarrow> True | Some v \<Rightarrow> v = ''*'' \<or> P v)"

definition rfc8341_matches :: "nacm_rule \<Rightarrow> access_request \<Rightarrow> bool" where
  "rfc8341_matches r q \<longleftrightarrow>
     leaf_matches (rule_module_name r) (\<lambda>m. m = acc_module q) \<and>
     leaf_matches (rule_access_operations r) (\<lambda>ops. operation_name (acc_operation q) \<in> set (split_on (CHR '' '') ops)) \<and>
     leaf_matches (rule_rpc_name r) (\<lambda>n. acc_rpc q = Some n) \<and>
     rule_notification_name r = None \<and>
     (case rule_path r of None \<Rightarrow> True | Some p \<Rightarrow> p = acc_path q)"

section \<open>The policy is enforced\<close>

lemma validAnonymousNacmRules_True:
  assumes "validAnonymousNacmRules data anonGroup = Inr True"
  obtains rl rls where "data = Some (rl # rls)" "anonGroup \<in> set (rl_groups rl)" "rl_rules rl \<noteq> []"
    "list_all isRuleForAnonymousAccess (butlast (rl_rules rl))"
    "rule_action (last (rl_rules rl)) = Some ''deny''" "rule_module_name (last (rl_rules rl)) = Some ''*''"
    "rule_access_operations (last (rl_rules rl)) = Some ''*''"
  using assms
  by (auto simp: validAnonymousNacmRules_def Let_def isRuleWildcardDeny_def andE_def leaf_is_def bindE_eq_Inr_iff list_ex_iff
      split: option.splits list.splits if_splits)

lemma find_butlast_last:
  assumes "xs \<noteq> []" and "\<forall>x \<in> set (butlast xs). \<not> P x" and "P (last xs)"
  shows "find P (xs @ ys) = Some (last xs)"
  using assms by (induction xs) (auto split: if_splits)

text \<open>A rule for anonymous access matches only what anonymous users may do.\<close>

lemma anonymous_rule_matches:
  assumes "matches_operations matches" and "isRuleForAnonymousAccess r" and "matches r q"
  shows "anonymous_may q"
proof -
  have sn: "''ietf-subscribed-notifications'' \<noteq> ''*''" "''establish-subscription'' \<noteq> ''*''" by simp_all
  show ?thesis using assms sn
    by (auto simp: isRuleForAnonymousAccess_def isWhitelistedRPC_def matches_operations_def anonymous_may_def
        split: option.splits)
qed

lemma anonymous_denied:
  assumes "matches_operations matches" and "matches_wildcard matches"
    and "validAnonymousNacmRules (Some rls) anonGroup = Inr True" and "unrestricted (last (rl_rules (hd rls)))"
    and "anonGroup \<in> set groups" and "\<not> anonymous_may q"
  shows "nacm_decision matches rls groups q = Some ''deny''"
proof -
  obtain rl rls' where rl: "rls = rl # rls'" "anonGroup \<in> set (rl_groups rl)" "rl_rules rl \<noteq> []"
    "list_all isRuleForAnonymousAccess (butlast (rl_rules rl))"
    "rule_action (last (rl_rules rl)) = Some ''deny''" "rule_module_name (last (rl_rules rl)) = Some ''*''"
    "rule_access_operations (last (rl_rules rl)) = Some ''*''"
    using assms(3) by (auto elim: validAnonymousNacmRules_True)
  have "list_ex (\<lambda>g. g \<in> set groups \<or> g = ''*'') (rl_groups rl)" using rl(2) assms(5) by (auto simp: list_ex_iff)
  then have rest: "applicable_rules rls groups = rl_rules rl @ applicable_rules rls' groups"
    by (simp add: applicable_rules_def rl(1))
  have "\<forall>r \<in> set (butlast (rl_rules rl)). \<not> matches r q"
    using anonymous_rule_matches [OF assms(1)] rl(4) assms(6) by (auto simp: list_all_iff)
  moreover have "matches (last (rl_rules rl)) q"
    using assms(2,4) rl by (auto simp: matches_wildcard_def)
  ultimately have "find (\<lambda>r. matches r q) (applicable_rules rls groups) = Some (last (rl_rules rl))"
    unfolding rest by (intro find_butlast_last rl(3))
  then show ?thesis using rl(5) by (simp add: nacm_decision_def)
qed

lemma split_on_single: "split_on (CHR '' '') ''read'' = [''read'']" "split_on (CHR '' '') ''exec'' = [''exec'']"
  by simp_all

lemma rfc8341_laws: "matches_operations rfc8341_matches" "matches_wildcard rfc8341_matches"
proof -
  show "matches_operations rfc8341_matches"
    unfolding matches_operations_def
  proof (intro allI impI)
    fix r q
    assume "rfc8341_matches r q"
    then show "(rule_access_operations r = Some ''read'' \<longrightarrow> acc_operation q = Acc_Read) \<and>
     (rule_access_operations r = Some ''exec'' \<longrightarrow> acc_operation q = Acc_Exec) \<and>
     (\<forall>m. rule_module_name r = Some m \<longrightarrow> m \<noteq> ''*'' \<longrightarrow> acc_module q = m) \<and>
     (\<forall>p. rule_rpc_name r = Some p \<longrightarrow> p \<noteq> ''*'' \<longrightarrow> acc_rpc q = Some p)"
      by (cases "acc_operation q") (auto simp: rfc8341_matches_def leaf_matches_def)
  qed
  show "matches_wildcard rfc8341_matches"
    by (auto simp: matches_wildcard_def unrestricted_def rfc8341_matches_def leaf_matches_def)
qed

section \<open>Authorization\<close>

lemma authorizeRequest_Inr_iff:
  "authorizeRequest anonUser auth nacm sess hs = Inr sess' \<longleftrightarrow>
     (\<exists>u. (case map_of hs ''authorization'' of None \<Rightarrow> u = anonUser | Some h \<Rightarrow> auth h = Inr u) \<and>
        (u = anonUser \<longrightarrow> m_anonymousEnabled nacm) \<and> sess' = sess\<lparr>nacmUser := Some u\<rparr>)"
  by (auto simp: authorizeRequest_def authorize_def getHeaderValue_def bindE_eq_Inr_iff
      split: option.splits if_splits)

lemma auth_failure_run_Responded: "auth_failure_run Responded es s \<Longrightarrow> s = Responded"
proof (induction Responded es s rule: auth_failure_run.induct)
  case (step e t es u)
  then show ?case by (auto elim: auth_failure_stepE)
qed simp

lemma auth_failure_run_Dropped: "auth_failure_run Dropped es s \<Longrightarrow> s = Dropped"
proof (induction Dropped es s rule: auth_failure_run.induct)
  case (step e t es u)
  then show ?case by (auto elim: auth_failure_stepE)
qed simp

text \<open>A delayed response is sent exactly if the timer is the first event.\<close>

lemma auth_failure_run_Waiting:
  assumes "auth_failure_run Waiting es s"
  shows "s = (case es of [] \<Rightarrow> Waiting | Timer_Expires # _ \<Rightarrow> Responded | Connection_Closes # _ \<Rightarrow> Dropped)"
  using assms
  by (cases rule: auth_failure_run.cases)
    (auto elim!: auth_failure_stepE dest: auth_failure_run_Responded auth_failure_run_Dropped)

end
