(* ===== verification/Auth_Properties.thy ===== *)
theory Auth_Properties
  imports Auth_Nacm
begin

text \<open>
  Properties of \<open>auth/\<close>: what an anonymous user can do under an accepted NACM configuration, whose
  identity a request gets, and what a successful PAM transaction means.
\<close>

section \<open>Examples\<close>

definition example_rule :: nacm_rule where
  "example_rule = \<lparr>rule_module_name = Some ''m'', rule_rpc_name = None, rule_notification_name = None, rule_path = None,
     rule_access_operations = Some ''read'', rule_action = Some ''permit''\<rparr>"

definition example_deny :: nacm_rule where
  "example_deny = \<lparr>rule_module_name = Some ''*'', rule_rpc_name = None, rule_notification_name = None, rule_path = None,
     rule_access_operations = Some ''*'', rule_action = Some ''deny''\<rparr>"

definition example_nacm :: "nacm_rule_list list" where
  "example_nacm = [\<lparr>rl_groups = [''anon''], rl_rules = [example_rule, example_deny]\<rparr>,
     \<lparr>rl_groups = [''*''], rl_rules = [example_deny\<lparr>rule_action := Some ''permit''\<rparr>]\<rparr>]"

definition example_write :: access_request where
  "example_write = \<lparr>acc_operation = Acc_Update, acc_module = ''m'', acc_rpc = None, acc_path = ''/m:top''\<rparr>"

definition example_pam :: pam where
  "example_pam = \<lparr>pam_start = (\<lambda>_ _. (PAM_SUCCESS, True)), pam_set_rhost = (\<lambda>_. PAM_SUCCESS), pam_set_fail_delay = PAM_SUCCESS,
     pam_authenticate = (\<lambda>conv. (if conv [PAM_PROMPT_ECHO_OFF] = Inr [Some ''pass''] then PAM_SUCCESS else PAM_ERROR 7, [])),
     pam_acct_mgmt = PAM_SUCCESS, pam_get_user = (PAM_SUCCESS, ''user''), pam_strerror = (\<lambda>_. ''failure'')\<rparr>"

section \<open>Anonymous access\<close>



text \<open>The check does not look at the RPC name of the last rule: a configuration whose last rule denies only
  one RPC passes it, and the rule lists that follow then decide about writes of anonymous users.\<close>

theorem narrowed_deny_passes:
  "let rls = [\<lparr>rl_groups = [''anon''], rl_rules = [example_deny\<lparr>rule_rpc_name := Some ''reboot''\<rparr>]\<rparr>,
              \<lparr>rl_groups = [''*''], rl_rules = [example_deny\<lparr>rule_action := Some ''permit''\<rparr>]\<rparr>] in
   validAnonymousNacmRules (Some rls) ''anon'' = Inr True \<and>
   nacm_decision rfc8341_matches rls [''anon''] example_write = Some ''permit''"
  by code_simp

definition last_rule_complete :: "nacm_rule_list list option \<Rightarrow> bool" where
  "last_rule_complete data = (case data of
     Some (rl # _) \<Rightarrow> rl_rules rl = [] \<or> (let r = last (rl_rules rl) in
       rule_action r \<noteq> None \<and> rule_module_name r \<noteq> None \<and> rule_access_operations r \<noteq> None)
   | _ \<Rightarrow> True)"

lemma isRuleWildcardDeny_complete:
  "rule_action r \<noteq> None \<Longrightarrow> rule_module_name r \<noteq> None \<Longrightarrow> rule_access_operations r \<noteq> None \<Longrightarrow> \<exists>v. isRuleWildcardDeny r = Inr v"
  by (auto simp: isRuleWildcardDeny_def andE_def leaf_is_def)

text \<open>A configuration with all leafs of its last anonymous rule present is always decided, and the flag that
  enables anonymous access is exactly the result for the last configuration.\<close>

theorem onModuleChange_flag:
  assumes "last_rule_complete data"
  shows "\<exists>v. validAnonymousNacmRules data anonGroup = Inr v \<and>
    onModuleChange anonGroup data nacm = Inr (nacm\<lparr>m_anonymousEnabled := v\<rparr>)"
proof -
  have "\<exists>v. validAnonymousNacmRules data anonGroup = Inr v"
  proof (cases "(\<exists>rl rls. data = Some (rl # rls) \<and> rl_rules rl \<noteq> [])")
    case True
    then obtain rl rls where d: "data = Some (rl # rls)" "rl_rules rl \<noteq> []" by blast
    then obtain v where "isRuleWildcardDeny (last (rl_rules rl)) = Inr v"
      using assms isRuleWildcardDeny_complete by (auto simp: last_rule_complete_def Let_def)
    then show ?thesis using d by (auto simp: validAnonymousNacmRules_def Let_def)
  next
    case False
    then show ?thesis by (auto simp: validAnonymousNacmRules_def Let_def split: option.splits list.splits)
  qed
  then show ?thesis by (auto simp: onModuleChange_def)
qed

theorem onModuleChange_flag_witness:
  "\<exists>v. validAnonymousNacmRules (Some example_nacm) ''anon'' = Inr v \<and>
    onModuleChange ''anon'' (Some example_nacm) Nacm_init = Inr (Nacm_init\<lparr>m_anonymousEnabled := v\<rparr>)"
  by (rule onModuleChange_flag) (simp add: last_rule_complete_def example_nacm_def example_deny_def)

section \<open>Identity of a request\<close>

text \<open>C32. A request is authorized exactly when it has no \<open>authorization\<close> header and anonymous access is enabled,
  or its header authenticates a user who is not the anonymous user while anonymous access is disabled; the
  session then acts as that user and is otherwise unchanged.\<close>

theorem authorizeRequest_exact:
  "authorizeRequest anonUser auth nacm sess hs = Inr sess' \<longleftrightarrow>
     (\<exists>u. (case map_of hs ''authorization'' of None \<Rightarrow> u = anonUser | Some h \<Rightarrow> auth h = Inr u) \<and>
        \<not> (u = anonUser \<and> \<not> m_anonymousEnabled nacm) \<and> sess' = sess\<lparr>nacmUser := Some u\<rparr>)"
  unfolding authorizeRequest_Inr_iff by auto

text \<open>C33. A user returned by the PAM transaction was authenticated: the header holds credentials, \<open>pam_start\<close>,
  \<open>pam_authenticate\<close> with a conversation that answers with those credentials, and \<open>pam_acct_mgmt\<close> all
  succeeded, and the name is the one PAM reports.\<close>

theorem authenticate_pam_sound:
  assumes "authenticate_pam dec strdup pam blob rh = Inr u"
  shows "\<exists>up. parseBasicAuth dec blob = Inr up \<and>
    fst (pam_start pam ''rousette'' (c_str (username up))) = PAM_SUCCESS \<and>
    fst (pam_authenticate pam (pam_userpass_conv strdup up)) = PAM_SUCCESS \<and>
    pam_acct_mgmt pam = PAM_SUCCESS \<and> pam_get_user pam = (PAM_SUCCESS, u)"
  using assms by (auto simp: authenticate_pam_def bindE_eq_Inr_iff dest: authenticate_userpass_Inr)

theorem authenticate_pam_sound_witness:
  "authenticate_pam (\<lambda>_. ''user:pass'') Some example_pam ''Basic dXNlcjpwYXNz'' None = Inr ''user'' \<and>
   fst (pam_authenticate example_pam (pam_userpass_conv Some \<lparr>username = ''user'', password = ''pass''\<rparr>)) = PAM_SUCCESS"
proof -
  have a: "authenticate_pam (\<lambda>_. ''user:pass'') Some example_pam ''Basic dXNlcjpwYXNz'' None = Inr ''user''" by code_simp
  have "parseBasicAuth (\<lambda>_. ''user:pass'') ''Basic dXNlcjpwYXNz'' = Inr \<lparr>username = ''user'', password = ''pass''\<rparr>" by code_simp
  then show ?thesis using authenticate_pam_sound [OF a] a by simp
qed

text \<open>The conversation answers a visible prompt with the user name and a hidden one with the password, gives
  nothing to messages, and fails for any other kind of message; the password never answers a visible prompt.\<close>

theorem conversation_answers:
  "pam_userpass_conv Some up msgs =
     (if PAM_OTHER_STYLE \<in> set msgs then Inl PAM_CONV_ERR else Inr (map (conv_answer up) msgs))"
  by (rule pam_userpass_conv_eq) simp

text \<open>C34. Credentials written as a Basic header read back unchanged, for every nonempty user name without a colon
  and every nonempty password, whatever padding of zero bytes the decoder adds, unless the password ends in a
  zero byte.\<close>

theorem basic_auth_roundtrip:
  assumes "base64_text b" and "n \<le> 2" and "dec b = u @ '':'' @ p @ replicate k (CHR 0x00)"
    and "u \<noteq> []" and "CHR '':'' \<notin> set u" and "p \<noteq> []" and "last p \<noteq> CHR 0x00"
  shows "parseBasicAuth dec (''Basic '' @ b @ replicate n (CHR ''='')) = Inr \<lparr>username = u, password = p\<rparr>"
proof -
  have p: "dropWhile (\<lambda>c. c = CHR 0x00) (rev p @ r) = rev p @ r" for r
    using assms(6,7) by (cases p rule: rev_cases) auto
  have "dropWhile (\<lambda>c. c = CHR 0x00) (replicate k (CHR 0x00) @ r) = dropWhile (\<lambda>c. c = CHR 0x00) r" for r
    by (induction k) auto
  then have "b64_decode dec b = u @ '':'' @ p"
    using p [of "CHR '':'' # rev u"] assms(3) by (simp add: b64_decode_def)
  then show ?thesis
    using assms headerGrammar_print [OF assms(1,2)] by (auto simp: parseBasicAuth_Inr_iff)
qed

theorem basic_auth_roundtrip_witness:
  "parseBasicAuth (\<lambda>_. ''user:pass'') ''Basic dXNlcjpwYXNz'' = Inr \<lparr>username = ''user'', password = ''pass''\<rparr>"
  using basic_auth_roundtrip [of "''dXNlcjpwYXNz''" 0 "\<lambda>_. ''user:pass''" "''user''" "''pass''" 0]
  by (simp add: base64_text_def char_class_defs less_eq_char_def)

text \<open>The response to a failed authentication with a delay is sent exactly when the timer expires before
  the connection closes, and never twice; without a delay it is sent at once.\<close>

theorem auth_error_response:
  assumes "auth_failure_run (processAuthError e) es s"
  shows "s = (if auth_delay e = None \<or> (es \<noteq> [] \<and> hd es = Timer_Expires) then Responded
    else if es = [] then Waiting else Dropped)"
proof (cases "auth_delay e")
  case None
  then show ?thesis using assms auth_failure_run_Responded by simp
next
  case (Some d)
  then have "auth_failure_run Waiting es s" using assms by simp
  from auth_failure_run_Waiting [OF this] Some show ?thesis
    by (auto split: list.splits auth_failure_event.splits)
qed

theorem auth_error_response_witness:
  "\<exists>s. auth_failure_run (processAuthError \<lparr>auth_message = [], auth_delay = Some 5\<rparr>) [Connection_Closes, Timer_Expires] s \<and> s = Dropped"
proof -
  have r: "auth_failure_run (processAuthError \<lparr>auth_message = [], auth_delay = Some 5\<rparr>) [Connection_Closes, Timer_Expires] Dropped"
    by (auto intro!: auth_failure_run.intros auth_failure_step.intros)
  show ?thesis using auth_error_response [OF r] r by auto
qed

end
