(* ===== verification/Event_Stream.thy ===== *)
theory Event_Stream
  imports Exceptions
begin

text \<open>
  \<open>http/EventStream.cpp\<close>: delivery of messages to an HTTP client as server-sent events. The state of
  the object, its operations under the mutex, and the tasks it posts to the event loop; the response
  object \<open>res\<close> dies when its \<open>on_close\<close> handler returns, and a use of it after that is undefined.
  The interface \<open>byte_channel\<close> states what the sender of messages relies on.
\<close>

section \<open>State\<close>

datatype stream_state = HasEvents | WaitingForEvents | WantToClose | Closed

text \<open>
  Tasks posted to the event loop: the lambda of \<open>enqueue\<close>, the lambda of the termination handler, and a
  lambda whose weak pointer was taken in the constructor and never locks.
\<close>

datatype posted_task = Resume_Unless_Closed | Resume_If_WantToClose | Expired_Weak

record event_stream =
  es_state :: stream_state
  es_queue :: "string list"
  es_shared :: bool
  es_eventSub :: bool
  es_terminateSub :: bool
  es_posted :: "posted_task list"
  es_res_alive :: bool
  es_ping :: bool

definition use_res :: "event_stream \<Rightarrow> (event_stream \<Rightarrow> 'a) \<Rightarrow> exn + 'a" where
  "use_res s k = (if es_res_alive s then Inr (k s) else Inl (Undefined ''EventStream: res is gone''))"

section \<open>Operations\<close>

text \<open>
  \<open>std::sregex_token_iterator\<close> over the text between newlines: an empty last token is not produced,
  except for the empty string, which is one empty token.
\<close>

definition newline_tokens :: "string \<Rightarrow> string list" where
  "newline_tokens what = (let ts = split_on (CHR 0x0A) what in
     if length ts > 1 \<and> last ts = [] then butlast ts else ts)"

definition format_event :: "string \<Rightarrow> string \<Rightarrow> string" where
  "format_event fieldName what =
     concat (map (\<lambda>t. fieldName @ '': '' @ t @ [CHR 0x0A]) (newline_tokens what)) @ [CHR 0x0A]"

definition post_task :: "posted_task \<Rightarrow> event_stream \<Rightarrow> exn + event_stream" where
  "post_task t s = use_res s (\<lambda>s. s\<lparr>es_posted := es_posted s @ [if es_shared s then t else Expired_Weak]\<rparr>)"

definition enqueue :: "string \<Rightarrow> string \<Rightarrow> event_stream \<Rightarrow> exn + event_stream" where
  "enqueue fieldName what s =
     (let buf = format_event fieldName what in
      if es_state s = Closed \<or> es_state s = WantToClose then Inr s
      else post_task Resume_Unless_Closed (s\<lparr>es_queue := es_queue s @ [buf], es_state := HasEvents\<rparr>))"

text \<open>The loop of \<open>send_chunk\<close>: the rest of the queue, the bytes copied so far and the room left.\<close>

fun send_loop :: "nat \<Rightarrow> string list \<Rightarrow> string \<times> string list" where
  "send_loop room [] = ([], [])"
| "send_loop room (front # queue) =
     (let num = min (length front) room in
      if num < length front then (take num front, drop num front # queue)
      else (let (out, q) = send_loop (room - num) queue in (take num front @ out, q)))"

definition send_chunk :: "nat \<Rightarrow> event_stream \<Rightarrow> exn + (event_stream \<times> string)" where
  "send_chunk len s =
     (if es_state s \<noteq> HasEvents then Inl (Logic_Error ''send_chunk'')
      else (let (out, queue) = send_loop len (es_queue s) in
        Inr (s\<lparr>es_queue := queue, es_state := (if queue = [] then WaitingForEvents else HasEvents)\<rparr>, out)))"

text \<open>\<open>process\<close> as nghttp2 calls it: data, \<open>NGHTTP2_ERR_DEFERRED\<close>, or no data with \<open>NGHTTP2_DATA_FLAG_EOF\<close>.\<close>

datatype process_result = Data string | Deferred | Eof

definition process :: "nat \<Rightarrow> event_stream \<Rightarrow> exn + (event_stream \<times> process_result)" where
  "process len s = (case es_state s of
      HasEvents \<Rightarrow> bindE (send_chunk len s) (\<lambda>(s, out). Inr (s, Data out))
    | WaitingForEvents \<Rightarrow> Inr (s, Deferred)
    | WantToClose \<Rightarrow> Inr (s, Eof)
    | Closed \<Rightarrow> Inl (Logic_Error ''response already closed''))"

text \<open>The handler of the termination signal (after its callback).\<close>

definition on_termination :: "event_stream \<Rightarrow> exn + event_stream" where
  "on_termination s =
     (if es_state s = Closed then Inr s
      else post_task Resume_If_WantToClose (s\<lparr>es_state := WantToClose\<rparr>))"

definition on_close :: "event_stream \<Rightarrow> event_stream" where
  "on_close s = s\<lparr>es_ping := False, es_eventSub := False, es_terminateSub := False, es_state := Closed, es_res_alive := False\<rparr>"

text \<open>A posted task: the result says whether it called \<open>res.resume()\<close>.\<close>

definition run_task :: "posted_task \<Rightarrow> event_stream \<Rightarrow> exn + bool" where
  "run_task t s = (case t of
      Expired_Weak \<Rightarrow> Inr False
    | Resume_If_WantToClose \<Rightarrow> if es_state s = WantToClose then use_res s (\<lambda>_. True) else Inr False
    | Resume_Unless_Closed \<Rightarrow> if es_state s = Closed then Inr False else use_res s (\<lambda>_. True))"

definition start_ping :: "event_stream \<Rightarrow> event_stream" where
  "start_ping s = s\<lparr>es_ping := True\<rparr>"

text \<open>The completion of the ping timer; \<open>aborted\<close> is \<open>operation_aborted\<close>.\<close>

definition on_ping :: "bool \<Rightarrow> event_stream \<Rightarrow> exn + event_stream" where
  "on_ping aborted s =
     (if aborted then Inr s else bindE (enqueue [] [CHR 0x0A] s) (\<lambda>s. Inr (start_ping s)))"

text \<open>The constructor and \<open>activate\<close>: subscriptions are made after the initial event.\<close>

definition EventStream :: "string option \<Rightarrow> exn + event_stream" where
  "EventStream initialEvent =
     (let s = \<lparr>es_state = WaitingForEvents, es_queue = [], es_shared = False, es_eventSub = False,
               es_terminateSub = False, es_posted = [], es_res_alive = True, es_ping = False\<rparr> in
      bindE (case initialEvent of None \<Rightarrow> Inr s | Some e \<Rightarrow> enqueue ''data'' e s) (\<lambda>s.
        Inr (s\<lparr>es_eventSub := True, es_terminateSub := True\<rparr>)))"

definition activate :: "event_stream \<Rightarrow> exn + event_stream" where
  "activate s = use_res s start_ping"

definition create :: "string option \<Rightarrow> exn + event_stream" where
  "create initialEvent = bindE (EventStream initialEvent) (\<lambda>s. activate (s\<lparr>es_shared := True\<rparr>))"

section \<open>The life of a stream\<close>

text \<open>
  What can happen to a stream: a message on the signal, a ping, a call of \<open>process\<close>, termination, the
  closing of the response, and a posted task. The nghttp2 server calls \<open>process\<close> and \<open>on_close\<close> only
  until the response is closed; a disconnected signal delivers nothing.
\<close>

datatype stream_event =
    Message string
  | Ping bool
  | Process nat
  | Terminate
  | Close
  | Run_Task

definition stream_step :: "stream_event \<Rightarrow> event_stream \<Rightarrow> exn + (event_stream \<times> process_result)" where
  "stream_step e s = (case e of
      Message m \<Rightarrow> if es_eventSub s then bindE (enqueue ''data'' m s) (\<lambda>s. Inr (s, Deferred)) else Inr (s, Deferred)
    | Ping aborted \<Rightarrow> bindE (on_ping aborted s) (\<lambda>s. Inr (s, Deferred))
    | Process len \<Rightarrow> process len s
    | Terminate \<Rightarrow> if es_terminateSub s then bindE (on_termination s) (\<lambda>s. Inr (s, Deferred)) else Inr (s, Deferred)
    | Close \<Rightarrow> Inr (on_close s, Deferred)
    | Run_Task \<Rightarrow> (case es_posted s of [] \<Rightarrow> Inr (s, Deferred)
        | t # ts \<Rightarrow> bindE (run_task t s) (\<lambda>_. Inr (s\<lparr>es_posted := ts\<rparr>, Deferred))))"

definition event_enabled :: "stream_event \<Rightarrow> event_stream \<Rightarrow> bool" where
  "event_enabled e s = (case e of Process len \<Rightarrow> es_res_alive s | Close \<Rightarrow> es_res_alive s | _ \<Rightarrow> True)"

text \<open>Reachable states, with the events accepted into the queue and the bytes handed to nghttp2.\<close>

definition accepted :: "stream_event \<Rightarrow> event_stream \<Rightarrow> string" where
  "accepted e s = (case e of
      Message m \<Rightarrow> if es_eventSub s \<and> es_state s \<noteq> Closed \<and> es_state s \<noteq> WantToClose then format_event ''data'' m else []
    | Ping aborted \<Rightarrow> if \<not> aborted \<and> es_state s \<noteq> Closed \<and> es_state s \<noteq> WantToClose then format_event [] [CHR 0x0A] else []
    | _ \<Rightarrow> [])"

fun sent :: "process_result \<Rightarrow> string" where
  "sent (Data out) = out"
| "sent _ = []"

inductive stream_reachable :: "string option \<Rightarrow> event_stream \<Rightarrow> string \<Rightarrow> string \<Rightarrow> bool" for initialEvent where
  initial: "create initialEvent = Inr s \<Longrightarrow>
    stream_reachable initialEvent s (case initialEvent of None \<Rightarrow> [] | Some e \<Rightarrow> format_event ''data'' e) []"
| step: "stream_reachable initialEvent s acc out \<Longrightarrow> event_enabled e s \<Longrightarrow> stream_step e s = Inr (s', r) \<Longrightarrow>
    stream_reachable initialEvent s' (acc @ accepted e s) (out @ sent r)"

section \<open>The interface of a channel\<close>

text \<open>
  What a producer of messages relies on: a message is appended to what is pending, and each pull takes
  a prefix of it, nonempty while there is room and something pending.
\<close>

locale byte_channel =
  fixes ready :: "'s \<Rightarrow> bool"
    and push :: "'m \<Rightarrow> 's \<Rightarrow> 's"
    and pull :: "nat \<Rightarrow> 's \<Rightarrow> 's \<times> string"
    and content :: "'s \<Rightarrow> string"
    and encode :: "'m \<Rightarrow> string"
  assumes push_ready: "ready s \<Longrightarrow> ready (push m s)"
    and push_content: "ready s \<Longrightarrow> content (push m s) = content s @ encode m"
    and pull_ready: "ready s \<Longrightarrow> ready (fst (pull n s))"
    and pull_content: "ready s \<Longrightarrow> content s = snd (pull n s) @ content (fst (pull n s))"
    and pull_bound: "ready s \<Longrightarrow> length (snd (pull n s)) \<le> n"
    and pull_progress: "ready s \<Longrightarrow> 0 < n \<Longrightarrow> content s \<noteq> [] \<Longrightarrow> snd (pull n s) \<noteq> []"
begin

fun transfer :: "('m + nat) list \<Rightarrow> 's \<Rightarrow> 's \<times> string" where
  "transfer [] s = (s, [])"
| "transfer (Inl m # ops) s = transfer ops (push m s)"
| "transfer (Inr n # ops) s = (let (s', out) = pull n s; (t, rest) = transfer ops s' in (t, out @ rest))"

definition pushed :: "('m + nat) list \<Rightarrow> string" where
  "pushed ops = concat (map (\<lambda>op. case op of Inl m \<Rightarrow> encode m | Inr _ \<Rightarrow> []) ops)"

text \<open>Whatever the interleaving of messages and pulls, the bytes sent and the bytes pending are the messages in order.\<close>

lemma transfer_content:
  "ready s \<Longrightarrow> transfer ops s = (t, out) \<Longrightarrow> ready t \<and> content s @ pushed ops = out @ content t"
proof (induction ops s arbitrary: t out rule: transfer.induct)
  case (1 s)
  then show ?case by (simp add: pushed_def)
next
  case (2 m ops s)
  have IH: "ready t \<and> content (push m s) @ pushed ops = out @ content t"
    by (rule 2(1) [OF push_ready [OF 2(2)]]) (use 2(3) in simp)
  have "content s @ pushed (Inl m # ops) = content (push m s) @ pushed ops"
    unfolding push_content [OF 2(2)] by (simp add: pushed_def)
  then show ?case using IH by (simp only: simp_thms)
next
  case (3 n ops s)
  obtain s' o1 o2 where p: "pull n s = (s', o1)" "transfer ops s' = (t, o2)" "out = o1 @ o2"
    using 3(3) by (auto simp: Let_def split: prod.splits)
  have "ready s'" using pull_ready [OF 3(2), of n] p(1) by simp
  then have "ready t \<and> content s' @ pushed ops = o2 @ content t" using 3(1) [OF p(1) [symmetric]] p(2) by auto
  moreover have "content s = o1 @ content s'" using pull_content [OF 3(2), of n] p(1) by simp
  ultimately show ?case using p(3) by (simp add: pushed_def)
qed

text \<open>Enough pulls with room for at least one byte deliver everything that is pending.\<close>

lemma transfer_drains:
  "ready s \<Longrightarrow> \<forall>n \<in> set ns. 0 < n \<Longrightarrow> length (content s) \<le> length ns \<Longrightarrow>
     content (fst (transfer (map Inr ns) s)) = [] \<and> snd (transfer (map Inr ns) s) = content s"
proof (induction ns arbitrary: s)
  case (Cons n ns)
  obtain s' out where p: "pull n s = (s', out)" by (cases "pull n s")
  have r: "ready s'" using pull_ready [OF Cons.prems(1), of n] p by simp
  have c: "content s = out @ content s'" using pull_content [OF Cons.prems(1), of n] p by simp
  have "length (content s') \<le> length ns"
  proof (cases "content s = []")
    case False
    then have "out \<noteq> []" using pull_progress [OF Cons.prems(1), of n] Cons.prems(2) p by simp
    then show ?thesis using c Cons.prems(3) by (cases out) auto
  qed (use c in simp)
  then have "content (fst (transfer (map Inr ns) s')) = [] \<and> snd (transfer (map Inr ns) s') = content s'"
    using Cons.IH [OF r] Cons.prems(2) by simp
  then show ?case using p c by (simp add: case_prod_unfold)
qed simp

end

section \<open>The stream is a channel\<close>

definition open_stream :: "event_stream \<Rightarrow> bool" where
  "open_stream s \<longleftrightarrow> es_res_alive s \<and> es_state s \<in> {HasEvents, WaitingForEvents} \<and>
     (es_state s = HasEvents \<longleftrightarrow> es_queue s \<noteq> []) \<and> (\<forall>b \<in> set (es_queue s). b \<noteq> [])"

definition stream_push :: "string \<times> string \<Rightarrow> event_stream \<Rightarrow> event_stream" where
  "stream_push m s = (case enqueue (fst m) (snd m) s of Inr s' \<Rightarrow> s' | Inl _ \<Rightarrow> s)"

definition stream_pull :: "nat \<Rightarrow> event_stream \<Rightarrow> event_stream \<times> string" where
  "stream_pull n s = (case process n s of Inr (s', r) \<Rightarrow> (s', sent r) | Inl _ \<Rightarrow> (s, []))"

definition stream_content :: "event_stream \<Rightarrow> string" where
  "stream_content s = concat (es_queue s)"

lemma send_loop_concat: "send_loop n q = (out, q') \<Longrightarrow> concat q = out @ concat q' \<and> length out \<le> n"
proof (induction n q arbitrary: out q' rule: send_loop.induct)
  case (2 room front queue)
  show ?case
  proof (cases "min (length front) room < length front")
    case True
    then show ?thesis using 2(2) by (auto simp: min_def split: if_splits)
  next
    case False
    then obtain o2 q2 where "send_loop (room - length front) queue = (o2, q2)" "out = front @ o2" "q' = q2" "length front \<le> room"
      using 2(2) by (auto simp: Let_def min_def split: prod.splits if_splits)
    then show ?thesis using 2(1) [OF refl False] by (auto simp: min_def)
  qed
qed simp

lemma send_loop_nonempty: "\<forall>b \<in> set q. b \<noteq> [] \<Longrightarrow> send_loop n q = (out, q') \<Longrightarrow> \<forall>b \<in> set q'. b \<noteq> []"
proof (induction n q arbitrary: out q' rule: send_loop.induct)
  case (2 room front queue)
  then show ?case by (auto simp: Let_def min_def split: prod.splits if_splits)
qed simp

lemma send_loop_progress: "\<forall>b \<in> set q. b \<noteq> [] \<Longrightarrow> q \<noteq> [] \<Longrightarrow> 0 < n \<Longrightarrow> send_loop n q = (out, q') \<Longrightarrow> out \<noteq> []"
  by (cases q) (auto simp: Let_def min_def split: prod.splits if_splits)

lemma format_event_nonempty [simp]: "format_event f w \<noteq> []"
  by (simp add: format_event_def)

lemma enqueue_open:
  "open_stream s \<Longrightarrow> enqueue f w s =
     Inr (s\<lparr>es_queue := es_queue s @ [format_event f w], es_state := HasEvents,
       es_posted := es_posted s @ [if es_shared s then Resume_Unless_Closed else Expired_Weak]\<rparr>)"
proof -
  assume s: "open_stream s"
  then have "es_res_alive s" "\<not> (es_state s = Closed \<or> es_state s = WantToClose)" by (auto simp: open_stream_def)
  then show ?thesis by (simp add: enqueue_def post_task_def use_res_def)
qed

lemma process_open:
  "open_stream s \<Longrightarrow> process n s =
     (if es_queue s = [] then Inr (s, Deferred)
      else (let (out, q) = send_loop n (es_queue s) in
        Inr (s\<lparr>es_queue := q, es_state := (if q = [] then WaitingForEvents else HasEvents)\<rparr>, Data out)))"
proof -
  assume s: "open_stream s"
  show ?thesis
  proof (cases "es_queue s = []")
    case True
    then have "es_state s = WaitingForEvents" using s by (auto simp: open_stream_def)
    then show ?thesis using True by (simp add: process_def)
  next
    case False
    then have "es_state s = HasEvents" using s by (simp add: open_stream_def)
    then show ?thesis using False by (simp add: process_def send_chunk_def case_prod_unfold Let_def)
  qed
qed

interpretation stream: byte_channel open_stream stream_push stream_pull stream_content "\<lambda>m. format_event (fst m) (snd m)"
proof unfold_locales
  fix s m n
  assume s: "open_stream s"
  have push: "stream_push m s = s\<lparr>es_queue := es_queue s @ [format_event (fst m) (snd m)], es_state := HasEvents,
       es_posted := es_posted s @ [if es_shared s then Resume_Unless_Closed else Expired_Weak]\<rparr>"
    using s by (simp add: stream_push_def enqueue_open)
  show "open_stream (stream_push m s)"
    using s unfolding push open_stream_def by simp
  show "stream_content (stream_push m s) = stream_content s @ format_event (fst m) (snd m)"
    unfolding push by (simp add: stream_content_def)
  obtain out q where q: "send_loop n (es_queue s) = (out, q)" by (cases "send_loop n (es_queue s)")
  have pull: "stream_pull n s = (if es_queue s = [] then (s, [])
      else (s\<lparr>es_queue := q, es_state := (if q = [] then WaitingForEvents else HasEvents)\<rparr>, out))"
    using s q by (simp add: stream_pull_def process_open)
  have ne: "\<forall>b \<in> set (es_queue s). b \<noteq> []" using s by (simp add: open_stream_def)
  note l = send_loop_concat [OF q] send_loop_nonempty [OF ne q]
  show "open_stream (fst (stream_pull n s))"
    using s l unfolding pull open_stream_def by auto
  show "stream_content s = snd (stream_pull n s) @ stream_content (fst (stream_pull n s))"
    using l unfolding pull stream_content_def by (cases "es_queue s = []") auto
  show "length (snd (stream_pull n s)) \<le> n"
    using l unfolding pull by simp
  show "snd (stream_pull n s) \<noteq> []" if "0 < n" "stream_content s \<noteq> []"
    using that send_loop_progress [OF ne _ that(1) q] unfolding pull stream_content_def by auto
qed

end
