(* ===== verification/Event_Stream_Laws.thy ===== *)
theory Event_Stream_Laws
  imports Event_Stream
begin

text \<open>
  Invariants of a stream over its whole life, by induction on what can happen to it, and the reading
  of the delivered bytes by a client that follows the server-sent events specification.
\<close>

section \<open>Invariant\<close>

definition stream_inv :: "event_stream \<Rightarrow> string \<Rightarrow> string \<Rightarrow> bool" where
  "stream_inv s acc out \<longleftrightarrow>
     (es_res_alive s \<longleftrightarrow> es_state s \<noteq> Closed) \<and>
     (es_state s = HasEvents \<longrightarrow> es_queue s \<noteq> []) \<and> (es_state s = WaitingForEvents \<longrightarrow> es_queue s = []) \<and>
     (\<forall>b \<in> set (es_queue s). b \<noteq> []) \<and>
     (es_state s = Closed \<longrightarrow> \<not> es_eventSub s \<and> \<not> es_terminateSub s) \<and>
     acc = out @ concat (es_queue s)"

lemma stream_inv_open: "stream_inv s acc out \<Longrightarrow> es_state s \<notin> {WantToClose, Closed} \<Longrightarrow> open_stream s"
  by (cases "es_state s") (auto simp: stream_inv_def open_stream_def)

lemma enqueue_inv:
  assumes "stream_inv s acc out"
  obtains s' where "enqueue f w s = Inr s'"
    "stream_inv s' (acc @ (if es_state s \<noteq> Closed \<and> es_state s \<noteq> WantToClose then format_event f w else [])) out"
    "es_eventSub s' = es_eventSub s" "es_terminateSub s' = es_terminateSub s"
proof (cases "es_state s \<in> {WantToClose, Closed}")
  case True
  then have "enqueue f w s = Inr s" by (auto simp: enqueue_def)
  then show ?thesis using that [of s] assms True by auto
next
  case False
  then have "open_stream s" using stream_inv_open [OF assms] by simp
  then show ?thesis using that [OF enqueue_open] assms False by (auto simp: stream_inv_def)
qed

lemma stream_inv_start_ping [simp]: "stream_inv (start_ping s) acc out = stream_inv s acc out"
  by (simp add: start_ping_def stream_inv_def)

lemma create_inv:
  "\<exists>s. create i = Inr s \<and> stream_inv s (case i of None \<Rightarrow> [] | Some e \<Rightarrow> format_event ''data'' e) []"
  by (cases i) (simp_all add: create_def EventStream_def activate_def use_res_def enqueue_def post_task_def stream_inv_def start_ping_def)

lemma process_inv:
  assumes "stream_inv s acc out" and "es_res_alive s"
  shows "\<exists>s' r. process n s = Inr (s', r) \<and> stream_inv s' acc (out @ sent r) \<and> length (sent r) \<le> n"
proof (cases "es_state s")
  case HasEvents
  obtain o1 q where q: "send_loop n (es_queue s) = (o1, q)" by (cases "send_loop n (es_queue s)")
  have "\<forall>b \<in> set (es_queue s). b \<noteq> []" using assms by (simp add: stream_inv_def)
  note l = send_loop_concat [OF q] send_loop_nonempty [OF this q]
  show ?thesis using HasEvents q l assms
    by (auto simp: process_def send_chunk_def stream_inv_def)
qed (use assms in \<open>auto simp: process_def stream_inv_def\<close>)

lemma on_termination_inv:
  assumes "stream_inv s acc out"
  shows "\<exists>s'. on_termination s = Inr s' \<and> stream_inv s' acc out"
  using assms by (auto simp: on_termination_def post_task_def use_res_def stream_inv_def)

lemma run_task_inv:
  assumes "stream_inv s acc out"
  shows "\<exists>b. run_task t s = Inr b"
  using assms by (cases t) (auto simp: run_task_def use_res_def stream_inv_def)

text \<open>Every enabled event is handled without an exception and keeps the invariant.\<close>

lemma stream_step_inv:
  assumes inv: "stream_inv s acc out" and en: "event_enabled e s"
  shows "\<exists>s' r. stream_step e s = Inr (s', r) \<and> stream_inv s' (acc @ accepted e s) (out @ sent r)"
proof (cases e)
  case (Message m)
  obtain s' where "enqueue ''data'' m s = Inr s'"
    "stream_inv s' (acc @ (if es_state s \<noteq> Closed \<and> es_state s \<noteq> WantToClose then format_event ''data'' m else [])) out"
    using enqueue_inv [OF inv] by metis
  then show ?thesis using inv Message by (cases "es_eventSub s") (auto simp: stream_step_def accepted_def split: if_splits)
next
  case (Ping aborted)
  obtain s' where "enqueue [] [CHR 0x0A] s = Inr s'"
    "stream_inv s' (acc @ (if es_state s \<noteq> Closed \<and> es_state s \<noteq> WantToClose then format_event [] [CHR 0x0A] else [])) out"
    using enqueue_inv [OF inv] by metis
  then show ?thesis using inv Ping
    by (cases aborted) (auto simp: stream_step_def accepted_def on_ping_def split: if_splits)
next
  case (Process n)
  then show ?thesis using process_inv [OF inv, of n] en by (auto simp: stream_step_def accepted_def event_enabled_def)
next
  case Terminate
  then show ?thesis using on_termination_inv [OF inv] inv by (auto simp: stream_step_def accepted_def)
next
  case Close
  then show ?thesis using inv by (auto simp: stream_step_def accepted_def on_close_def stream_inv_def)
next
  case Run_Task
  have tl: "stream_inv (s\<lparr>es_posted := ts\<rparr>) acc out" for ts using inv by (simp add: stream_inv_def)
  obtain b where "run_task (hd (es_posted s)) s = Inr b" using run_task_inv [OF inv] by blast
  then show ?thesis using Run_Task inv tl
    by (cases "es_posted s") (auto simp: stream_step_def accepted_def)
qed

lemma stream_reachable_inv: "stream_reachable i s acc out \<Longrightarrow> stream_inv s acc out"
proof (induction rule: stream_reachable.induct)
  case (initial s)
  then show ?case using create_inv [of i] by auto
next
  case (step s acc out e s' r)
  then show ?case using stream_step_inv [of s acc out e] by auto
qed

section \<open>Closing is final\<close>

definition closing :: "event_stream \<Rightarrow> bool" where
  "closing s \<longleftrightarrow> es_state s = WantToClose \<or> es_state s = Closed"

lemma closing_step:
  assumes "closing s" and "stream_step e s = Inr (s', r)"
  shows "closing s' \<and> sent r = [] \<and> accepted e s = []"
  using assms
  by (cases e) (auto simp: stream_step_def closing_def enqueue_def on_ping_def process_def on_termination_def post_task_def
      use_res_def on_close_def start_ping_def accepted_def bindE_eq_Inr_iff split: if_splits stream_state.splits list.splits)

section \<open>What the client reads\<close>

text \<open>
  The line-based reading of an event stream: \<open>data\<close> lines are collected, a blank line dispatches the
  collected data, joined by newlines, and a line that starts with a colon is a comment.
\<close>

fun sse_feed :: "string list \<Rightarrow> string list \<Rightarrow> string list" where
  "sse_feed buf [] = []"
| "sse_feed buf (l # ls) =
     (if l = [] then (if buf = [] then sse_feed [] ls else join [CHR 0x0A] buf # sse_feed [] ls)
      else if hd l = CHR '':'' then sse_feed buf ls
      else if take 6 l = ''data: '' then sse_feed (buf @ [drop 6 l]) ls
      else sse_feed buf ls)"

definition sse_lines :: "string \<Rightarrow> string list" where
  "sse_lines s = butlast (split_on (CHR 0x0A) s)"

definition sse_messages :: "string \<Rightarrow> string list" where
  "sse_messages s = sse_feed [] (sse_lines s)"

definition strip_final_newline :: "string \<Rightarrow> string" where
  "strip_final_newline s = (if s \<noteq> [] \<and> last s = CHR 0x0A then butlast s else s)"

lemma sse_lines_append: "CHR 0x0A \<notin> set l \<Longrightarrow> sse_lines (l @ CHR 0x0A # s) = l # sse_lines s"
  by (simp add: sse_lines_def split_on_append split_on_nonempty)

lemma sse_lines_Nil [simp]: "sse_lines [] = []"
  by (simp add: sse_lines_def)

lemma split_on_no_sep: "t \<in> set (split_on c s) \<Longrightarrow> c \<notin> set t"
  by (induction s arbitrary: t) (auto split: list.splits if_splits)

lemma join_split_on: "join [c] (split_on c s) = s"
proof (induction s)
  case (Cons x s)
  show ?case
  proof (cases "split_on c s")
    case Nil
    then show ?thesis using split_on_nonempty by blast
  next
    case (Cons t ts)
    then show ?thesis using Cons.IH by (cases ts) auto
  qed
qed simp

lemma join_snoc: "xs \<noteq> [] \<Longrightarrow> join sep (xs @ [y]) = join sep xs @ sep @ y"
  by (induction xs rule: induct_list012) auto

lemma newline_tokens_no_newline: "t \<in> set (newline_tokens s) \<Longrightarrow> CHR 0x0A \<notin> set t"
  by (auto simp: newline_tokens_def Let_def split: if_splits dest: in_set_butlastD split_on_no_sep)

lemma newline_tokens_nonempty: "newline_tokens s \<noteq> []"
  using split_on_nonempty [of "CHR 0x0A" s]
  by (cases "split_on (CHR 0x0A) s" rule: rev_cases) (auto simp: newline_tokens_def Let_def split: if_splits)

text \<open>The tokens of a message are its lines, without a newline at its very end.\<close>

lemma join_newline_tokens: "join [CHR 0x0A] (newline_tokens s) = strip_final_newline s"
proof (cases "split_on (CHR 0x0A) s" rule: rev_cases)
  case Nil
  then show ?thesis using split_on_nonempty by blast
next
  case (snoc ts t)
  have s: "s = join [CHR 0x0A] (ts @ [t])" using join_split_on [of "CHR 0x0A" s] snoc by simp
  have t: "CHR 0x0A \<notin> set t" using split_on_no_sep snoc by (metis in_set_conv_decomp)
  show ?thesis
  proof (cases "ts = []")
    case True
    moreover have "\<not> (t \<noteq> [] \<and> last t = CHR 0x0A)" using t last_in_set [of t] by metis
    ultimately show ?thesis using s snoc by (auto simp: newline_tokens_def strip_final_newline_def)
  next
    case False
    then have "s = join [CHR 0x0A] ts @ CHR 0x0A # t" using s join_snoc by fastforce
    moreover have "t \<noteq> [] \<Longrightarrow> last t \<noteq> CHR 0x0A" using t last_in_set [of t] by metis
    ultimately show ?thesis using False snoc s
      by (cases "t = []") (auto simp: newline_tokens_def strip_final_newline_def butlast_append join_snoc)
  qed
qed

lemma sse_feed_data:
  assumes "\<forall>t \<in> set ts. CHR 0x0A \<notin> set t"
  shows "sse_feed buf (sse_lines (concat (map (\<lambda>t. ''data'' @ '': '' @ t @ [CHR 0x0A]) ts) @ rest)) =
    sse_feed (buf @ ts) (sse_lines rest)"
  using assms
proof (induction ts arbitrary: buf)
  case (Cons t ts)
  have "sse_lines (''data: '' @ t @ CHR 0x0A # r) = (''data: '' @ t) # sse_lines r" for r
    using sse_lines_append [of "''data: '' @ t" r] Cons.prems by simp
  then show ?case using Cons by simp
qed simp

lemma sse_feed_message:
  "sse_feed [] (sse_lines (format_event ''data'' m @ rest)) = strip_final_newline m # sse_feed [] (sse_lines rest)"
proof -
  have "sse_lines (CHR 0x0A # rest) = [] # sse_lines rest" using sse_lines_append [of "[]" rest] by simp
  then show ?thesis
    using sse_feed_data [of "newline_tokens m" "[]" "CHR 0x0A # rest"] newline_tokens_no_newline [of _ m] newline_tokens_nonempty [of m]
    by (simp add: format_event_def join_newline_tokens)
qed

lemma sse_feed_ping: "sse_feed [] (sse_lines (format_event [] [CHR 0x0A] @ rest)) = sse_feed [] (sse_lines rest)"
proof -
  have f: "format_event [] [CHR 0x0A] = '': '' @ [CHR 0x0A, CHR 0x0A]" by (simp add: format_event_def newline_tokens_def)
  have "sse_lines ('': '' @ CHR 0x0A # CHR 0x0A # rest) = '': '' # [] # sse_lines rest"
    using sse_lines_append [of "'': ''" "CHR 0x0A # rest"] sse_lines_append [of "[]" rest] by simp
  then show ?thesis by (simp add: f)
qed

text \<open>Messages (\<open>Some\<close>) and keep-alive pings (\<open>None\<close>) in the order they were queued.\<close>

definition wire :: "string option list \<Rightarrow> string" where
  "wire evs = concat (map (\<lambda>e. case e of Some m \<Rightarrow> format_event ''data'' m | None \<Rightarrow> format_event [] [CHR 0x0A]) evs)"

lemma sse_messages_wire: "sse_messages (wire evs) = map strip_final_newline (List.map_filter id evs)"
proof (induction evs)
  case Nil
  then show ?case by (simp add: wire_def sse_messages_def)
next
  case (Cons e evs)
  then show ?case
    by (cases e) (simp_all add: wire_def sse_messages_def sse_feed_message sse_feed_ping map_filter_def)
qed

end
