(* ===== verification/Stream_Properties.thy ===== *)
theory Stream_Properties
  imports Event_Stream_Laws
begin

text \<open>Properties of \<open>http/EventStream.cpp\<close> over the whole life of a stream.\<close>

text \<open>C6. At every moment of the life of a stream, the bytes handed to the client followed by the bytes still
  queued are exactly the encodings of the accepted messages and pings, in order: nothing is lost, duplicated or
  reordered, whatever the sizes of the chunks.\<close>

theorem stream_in_order:
  assumes "stream_reachable initialEvent s acc out"
  shows "acc = out @ concat (es_queue s)"
  using stream_reachable_inv [OF assms] by (simp add: stream_inv_def)

lemma example_run:
  "\<exists>s. stream_reachable (Some ''hi'') s (format_event ''data'' ''hi'' @ format_event ''data'' ''you'') (take 10 (format_event ''data'' ''hi''))"
proof -
  have "\<exists>s0 s1 s2. create (Some ''hi'') = Inr s0 \<and> stream_step (Message ''you'') s0 = Inr (s1, Deferred) \<and>
      stream_step (Process 10) s1 = Inr (s2, Data (take 10 (format_event ''data'' ''hi''))) \<and>
      event_enabled (Message ''you'') s0 \<and> event_enabled (Process 10) s1 \<and>
      accepted (Message ''you'') s0 = format_event ''data'' ''you'' \<and> accepted (Process 10) s1 = []"
    by (simp add: create_def EventStream_def activate_def use_res_def enqueue_def post_task_def start_ping_def
        stream_step_def process_def send_chunk_def event_enabled_def accepted_def format_event_def newline_tokens_def)
  then obtain s0 s1 s2 where c: "create (Some ''hi'') = Inr s0" "stream_step (Message ''you'') s0 = Inr (s1, Deferred)"
      "stream_step (Process 10) s1 = Inr (s2, Data (take 10 (format_event ''data'' ''hi'')))"
      "event_enabled (Message ''you'') s0" "event_enabled (Process 10) s1"
      "accepted (Message ''you'') s0 = format_event ''data'' ''you''" "accepted (Process 10) s1 = []"
    by blast
  have "stream_reachable (Some ''hi'') s0 (format_event ''data'' ''hi'') []"
    using stream_reachable.initial [OF c(1)] by simp
  from stream_reachable.step [OF this c(4,2)]
  have "stream_reachable (Some ''hi'') s1 (format_event ''data'' ''hi'' @ format_event ''data'' ''you'') []" by (simp add: c(6))
  from stream_reachable.step [OF this c(5,3)] show ?thesis by (auto simp: c(7))
qed

theorem stream_in_order_witness:
  "\<exists>s :: event_stream. format_event ''data'' ''hi'' @ format_event ''data'' ''you'' = take 10 (format_event ''data'' ''hi'') @ concat (es_queue s)"
proof -
  obtain s where r: "stream_reachable (Some ''hi'') s (format_event ''data'' ''hi'' @ format_event ''data'' ''you'')
      (take 10 (format_event ''data'' ''hi''))"
    using example_run ..
  show ?thesis by (rule exI [of _ s]) (rule stream_in_order [OF r])
qed

text \<open>C35. Every event that can happen to a stream in any state it can reach is handled without an exception: the
  branches for impossible states are not reached, and the response object is never used after it is closed,
  neither by late messages, pings or termination nor by tasks that were posted before.\<close>

theorem stream_never_fails:
  assumes "stream_reachable initialEvent s acc out" and "event_enabled e s"
  shows "\<exists>s' r. stream_step e s = Inr (s', r)"
  using stream_step_inv [OF stream_reachable_inv [OF assms(1)] assms(2)] by blast

theorem stream_never_fails_witness:
  "\<exists>s acc out s' r. stream_reachable (Some ''hi'') s acc out \<and> stream_step Close s = Inr (s', r)"
proof -
  obtain s where c: "create (Some ''hi'') = Inr s" "es_res_alive s"
    by (simp add: create_def EventStream_def activate_def use_res_def enqueue_def post_task_def start_ping_def)
  note r = stream_reachable.initial [OF c(1)]
  have "event_enabled Close s" using c(2) by (simp add: event_enabled_def)
  from stream_never_fails [OF r this] show ?thesis using r by blast
qed


definition example_stream :: event_stream where
  "example_stream = \<lparr>es_state = HasEvents, es_queue = [''data: x'' @ [CHR 0x0A, CHR 0x0A]], es_shared = True, es_eventSub = True,
     es_terminateSub = True, es_posted = [], es_res_alive = True, es_ping = True\<rparr>"

lemma example_stream_open: "open_stream example_stream"
  by (simp add: open_stream_def example_stream_def)


text \<open>Calls of \<open>process\<close> with room for at least one byte, as many as there are pending bytes, deliver everything
  that is pending.\<close>

theorem stream_drains:
  assumes "open_stream s" and "\<forall>n \<in> set ns. 0 < n" and "length (stream_content s) \<le> length ns"
  shows "snd (stream.transfer (map Inr ns) s) = stream_content s \<and> stream_content (fst (stream.transfer (map Inr ns) s)) = []"
  using stream.transfer_drains [OF assms] by blast

theorem stream_drains_witness:
  "snd (stream.transfer (map Inr (replicate 9 1)) example_stream) = ''data: x'' @ [CHR 0x0A, CHR 0x0A]"
  using stream_drains [OF example_stream_open, of "replicate 9 1"] by (simp add: example_stream_def stream_content_def)

text \<open>Once termination was requested or the response is closed, a stream accepts no message and sends no byte
  any more, and stays so.\<close>

theorem closing_is_final:
  assumes "closing s" and "stream_step e s = Inr (s', r)"
  shows "closing s' \<and> sent r = [] \<and> accepted e s = []"
  using assms by (rule closing_step)

theorem closing_is_final_witness:
  "closing (example_stream\<lparr>es_state := WantToClose\<rparr>) \<and> accepted (Message ''m'') (example_stream\<lparr>es_state := WantToClose\<rparr>) = []"
proof -
  have c: "closing (example_stream\<lparr>es_state := WantToClose\<rparr>)" by (simp add: closing_def)
  have "stream_step (Message ''m'') (example_stream\<lparr>es_state := WantToClose\<rparr>) = Inr (example_stream\<lparr>es_state := WantToClose\<rparr>, Deferred)"
    by (simp add: stream_step_def enqueue_def example_stream_def)
  from closing_is_final [OF c this] show ?thesis by blast
qed

text \<open>A client that reads the whole stream as server-sent events gets exactly the messages, in order, each
  without a newline at its very end; keep-alive pings are invisible.\<close>

theorem client_reads_messages: "sse_messages (wire evs) = map strip_final_newline (List.map_filter id evs)"
  by (rule sse_messages_wire)

end
