(* ===== verification/Dynamic_Subscriptions.thy ===== *)
theory Dynamic_Subscriptions
  imports Auth_Nacm Data_Format
begin

text \<open>
  \<open>restconf/DynamicSubscriptions.cpp\<close>: the subscriptions established by RPC, their owners, their
  inactivity timers and the HTTP streams that consume them. \<open>SubscriptionData\<close> objects are shared
  between the table of subscriptions and the streams, so they live in a heap; an object that neither
  refers to is destroyed. sysrepo's subscription calls are parameters.
\<close>

section \<open>One subscription\<close>

datatype sub_state = Start | ReceiverActive | Terminating

text \<open>
  The inactivity timer: idle, or waiting with a completion handler whose weak pointer locks or has been
  taken before the object was owned by a \<open>shared_ptr\<close>, when \<open>weak_from_this()\<close> is empty.
\<close>

datatype inactivity_timer = Timer_Idle | Timer_Armed bool

record 'u subscription_data =
  sd_id :: nat
  sd_dataFormat :: data_format
  sd_uuid :: 'u
  sd_user :: string
  sd_state :: sub_state
  sd_timer :: inactivity_timer

text \<open>Calls of \<open>sysrepo::DynamicSubscription::terminate\<close>, with the subscription id and the reason.\<close>

type_synonym terminations = "(nat \<times> string option) list"

definition inactivityStart :: "bool \<Rightarrow> 'u subscription_data \<Rightarrow> 'u subscription_data" where
  "inactivityStart shared d = (if sd_state d = Terminating then d else d\<lparr>sd_timer := Timer_Armed shared\<rparr>)"

definition inactivityCancel :: "'u subscription_data \<Rightarrow> 'u subscription_data" where
  "inactivityCancel d = d\<lparr>sd_timer := Timer_Idle\<rparr>"

text \<open>The constructor: the object is not yet owned by a \<open>shared_ptr\<close> when it starts the timer.\<close>

definition SubscriptionData :: "nat \<Rightarrow> data_format \<Rightarrow> 'u \<Rightarrow> string \<Rightarrow> 'u subscription_data" where
  "SubscriptionData sub format uid user =
     inactivityStart False \<lparr>sd_id = sub, sd_dataFormat = format, sd_uuid = uid, sd_user = user,
       sd_state = Start, sd_timer = Timer_Idle\<rparr>"

definition clientDisconnected :: "'u subscription_data \<Rightarrow> 'u subscription_data" where
  "clientDisconnected d = (if sd_state d = Terminating then d else inactivityStart True (d\<lparr>sd_state := Start\<rparr>))"

definition clientConnected :: "'u subscription_data \<Rightarrow> 'u subscription_data" where
  "clientConnected d = (inactivityCancel d)\<lparr>sd_state := ReceiverActive\<rparr>"

definition isReadyToAcceptClient :: "'u subscription_data \<Rightarrow> bool" where
  "isReadyToAcceptClient d \<longleftrightarrow> sd_state d = Start"

text \<open>\<open>terminate\<close> swallows the errors of sysrepo; the result has the calls made.\<close>

definition terminate :: "string option \<Rightarrow> 'u subscription_data \<Rightarrow> 'u subscription_data \<times> terminations" where
  "terminate reason d = (if sd_state d = Terminating then (d, [])
     else (d\<lparr>sd_state := Terminating\<rparr>, [(sd_id d, reason)]))"

definition stop_subscription :: "'u subscription_data \<Rightarrow> 'u subscription_data" where
  "stop_subscription d = (inactivityCancel d)\<lparr>sd_state := Terminating\<rparr>"

section \<open>The table of subscriptions\<close>

text \<open>\<open>std::map\<close> from UUIDs, in key order.\<close>

fun om_insert :: "'k::linorder \<Rightarrow> 'v \<Rightarrow> ('k \<times> 'v) list \<Rightarrow> ('k \<times> 'v) list" where
  "om_insert k v [] = [(k, v)]"
| "om_insert k v ((k', v') # m) =
     (if k < k' then (k, v) # (k', v') # m else if k = k' then (k, v) # m else (k', v') # om_insert k v m)"

definition om_erase :: "'k \<Rightarrow> ('k \<times> 'v) list \<Rightarrow> ('k \<times> 'v) list" where
  "om_erase k m = filter (\<lambda>e. fst e \<noteq> k) m"

record 'u dyn_subs =
  m_subscriptions :: "('u \<times> nat) list"
  ds_heap :: "nat \<Rightarrow> 'u subscription_data option"
  ds_next :: nat
  ds_streams :: "nat list"
  ds_terminations :: terminations

definition DynamicSubscriptions_init :: "'u dyn_subs" where
  "DynamicSubscriptions_init = \<lparr>m_subscriptions = [], ds_heap = (\<lambda>_. None), ds_next = 0, ds_streams = [], ds_terminations = []\<rparr>"

definition update_data :: "nat \<Rightarrow> 'u subscription_data \<times> terminations \<Rightarrow> 'u dyn_subs \<Rightarrow> 'u dyn_subs" where
  "update_data a dt s = s\<lparr>ds_heap := (ds_heap s)(a := Some (fst dt)), ds_terminations := ds_terminations s @ snd dt\<rparr>"

text \<open>The last \<open>shared_ptr\<close> to an object runs its destructor.\<close>

definition release :: "nat \<Rightarrow> 'u dyn_subs \<Rightarrow> 'u dyn_subs" where
  "release a s =
     (if a \<in> snd ` set (m_subscriptions s) \<or> a \<in> set (ds_streams s) then s
      else (case ds_heap s a of
        None \<Rightarrow> s
      | Some d \<Rightarrow> (update_data a (terminate None (inactivityCancel d)) s)\<lparr>ds_heap := (ds_heap s)(a := None)\<rparr>))"

definition find_by_id :: "nat \<Rightarrow> 'u dyn_subs \<Rightarrow> ('u \<times> nat \<times> 'u subscription_data) option" where
  "find_by_id subId s = (case find (\<lambda>e. map_option sd_id (ds_heap s (snd e)) = Some subId) (m_subscriptions s) of
      None \<Rightarrow> None
    | Some (u, a) \<Rightarrow> (case ds_heap s a of None \<Rightarrow> None | Some d \<Rightarrow> Some (u, a, d)))"

text \<open>\<open>getSubscriptionForUser\<close>, by UUID and by id; a found object is given by its address.\<close>

definition may_access :: "string \<Rightarrow> 'u subscription_data \<Rightarrow> string option \<Rightarrow> bool" where
  "may_access recoveryUser d user \<longleftrightarrow> Some (sd_user d) = user \<or> user = Some recoveryUser"

definition getSubscriptionForUser :: "string \<Rightarrow> 'u \<Rightarrow> string option \<Rightarrow> 'u dyn_subs \<Rightarrow> (nat \<times> 'u subscription_data) option" where
  "getSubscriptionForUser recoveryUser uid user s = (case map_of (m_subscriptions s) uid of
      None \<Rightarrow> None
    | Some a \<Rightarrow> (case ds_heap s a of
        None \<Rightarrow> None
      | Some d \<Rightarrow> if may_access recoveryUser d user then Some (a, d) else None))"

definition getSubscriptionForUserById :: "string \<Rightarrow> nat \<Rightarrow> string option \<Rightarrow> 'u dyn_subs \<Rightarrow> (nat \<times> 'u subscription_data) option" where
  "getSubscriptionForUserById recoveryUser subId user s = (case find_by_id subId s of
      None \<Rightarrow> None
    | Some (u, a, d) \<Rightarrow> if may_access recoveryUser d user then Some (a, d) else None)"

section \<open>RPC input\<close>

record establish_input =
  in_encoding :: "string option"
  in_stream :: "string option"
  in_stream_filter_name :: "string option"
  in_stop_time :: "string option"
  in_stream_xpath_filter :: "string option"
  in_stream_subtree_filter :: "string option"
  in_replay_start_time :: "string option"

record establish_output =
  out_replay_start_time_revision :: "string option"
  out_id :: "string option"
  out_uri :: "string option"

definition getEncoding :: "establish_input \<Rightarrow> data_format \<Rightarrow> exn + data_format" where
  "getEncoding rpcInput requestEncoding = (case in_encoding rpcInput of
      None \<Rightarrow> Inr requestEncoding
    | Some e \<Rightarrow>
        if e = ''ietf-subscribed-notifications:encode-json'' then Inr JSON
        else if e = ''ietf-subscribed-notifications:encode-xml'' then Inr XML
        else throw_error 400 ''application'' ''invalid-attribute''
          (''Unsupported encoding in establish-subscription: '' @ [quote] @ e @ [quote] @
           ''. Currently we support only '' @ [quote] @ ''encode-xml'' @ [quote] @ '' and '' @ [quote] @ ''encode-json'' @ [quote] @ '' identities.''))"

text \<open>
  \<open>session.subscribeNotifications\<close> gives the id and the revised start time, both as text where the code
  only prints them, or throws; times are passed on as their YANG text.
\<close>

type_synonym subscribe_call = "(string + string) option \<Rightarrow> string \<Rightarrow> string option \<Rightarrow> string option \<Rightarrow> exn + (nat \<times> string option)"

definition subscription_filter :: "establish_input \<Rightarrow> (string + string) option" where
  "subscription_filter rpcInput = (case in_stream_xpath_filter rpcInput of
      Some x \<Rightarrow> Some (Inl x)
    | None \<Rightarrow> map_option Inr (in_stream_subtree_filter rpcInput))"

definition makeStreamSubscription :: "subscribe_call \<Rightarrow> establish_input \<Rightarrow> establish_output \<Rightarrow> exn + (nat \<times> establish_output)" where
  "makeStreamSubscription subscribe rpcInput rpcOutput = (case in_stream rpcInput of
      None \<Rightarrow> throw_error 400 ''application'' ''invalid-attribute'' ''Stream is required''
    | Some stream \<Rightarrow>
        if in_stream_filter_name rpcInput \<noteq> None then
          throw_error 400 ''application'' ''invalid-attribute'' ''Stream filtering with predefined filters is not supported''
        else
          bindE (subscribe (subscription_filter rpcInput) stream (in_stop_time rpcInput) (in_replay_start_time rpcInput)) (\<lambda>(subId, revised).
            Inr (subId, if revised \<noteq> None \<and> in_replay_start_time rpcInput \<noteq> None
                        then rpcOutput\<lparr>out_replay_start_time_revision := revised\<rparr> else rpcOutput)))"

section \<open>Operations of the table\<close>

definition catch_sysrepo :: "exn + 'a \<Rightarrow> exn + 'a" where
  "catch_sysrepo m = (case m of
      Inl (Sysrepo_Error c w) \<Rightarrow> throw_error 400 ''application'' ''invalid-attribute'' w
    | _ \<Rightarrow> m)"

text \<open>The assignment \<open>m_subscriptions[uid] = make_shared(...)\<close> releases what the entry held before.\<close>

definition store_subscription :: "'u::linorder \<Rightarrow> 'u subscription_data \<Rightarrow> 'u dyn_subs \<Rightarrow> 'u dyn_subs" where
  "store_subscription uid d s =
     (let a = ds_next s; old = map_of (m_subscriptions s) uid;
          s' = s\<lparr>ds_heap := (ds_heap s)(a := Some d), ds_next := Suc a, m_subscriptions := om_insert uid a (m_subscriptions s)\<rparr>
      in case old of None \<Rightarrow> s' | Some b \<Rightarrow> release b s')"

definition establishSubscription :: "subscribe_call \<Rightarrow> ('u::linorder \<Rightarrow> string) \<Rightarrow> string \<Rightarrow> string option \<Rightarrow> 'u \<Rightarrow> string option \<Rightarrow>
    data_format \<Rightarrow> establish_input \<Rightarrow> establish_output \<Rightarrow> 'u dyn_subs \<Rightarrow> exn + ('u dyn_subs \<times> establish_output)" where
  "establishSubscription subscribe uuid_string restconfStreamUri nacm_user uid requestSchemeAndHost requestEncoding rpcInput rpcOutput s =
     (case requestSchemeAndHost of
        None \<Rightarrow> throw_error 400 ''application'' ''invalid-value'' ''Request scheme and host information is required to establish subscription.''
      | Some schemeAndHost \<Rightarrow>
          bindE (getEncoding rpcInput requestEncoding) (\<lambda>dataFormat.
          catch_sysrepo (bindE (makeStreamSubscription subscribe rpcInput rpcOutput) (\<lambda>(subId, rpcOutput).
            (let rpcOutput = rpcOutput\<lparr>out_id := Some (to_string subId),
                   out_uri := Some (schemeAndHost @ restconfStreamUri @ ''subscribed/'' @ uuid_string uid)\<rparr> in
             case nacm_user of
               None \<Rightarrow> Inl (Undefined ''establishSubscription: no NACM user'')
             | Some user \<Rightarrow> Inr (store_subscription uid (SubscriptionData subId dataFormat uid user) s, rpcOutput))))))"

text \<open>
  \<open>deleteSubscription\<close>, for both \<open>delete-subscription\<close> and \<open>kill-subscription\<close>. \<open>sr_terminate\<close> is sysrepo's
  \<open>terminate\<close>, which may throw; the local \<open>shared_ptr\<close> goes out of scope at the end.
\<close>

definition deleteSubscription :: "string \<Rightarrow> (nat \<Rightarrow> exn + unit) \<Rightarrow> string option \<Rightarrow> bool \<Rightarrow> nat option \<Rightarrow> string \<Rightarrow> 'u dyn_subs \<Rightarrow> exn + 'u dyn_subs" where
  "deleteSubscription recoveryUser sr_terminate nacm_user isKill input_id rpcPath s = (case input_id of
      None \<Rightarrow> Inl (Undefined ''deleteSubscription: no id'')
    | Some subId \<Rightarrow> (case getSubscriptionForUserById recoveryUser subId nacm_user s of
        None \<Rightarrow> throw_error_at 404 ''application'' ''invalid-value'' ''Subscription not found.'' (Some rpcPath)
      | Some (a, d) \<Rightarrow>
          if \<not> isKill \<and> nacm_user = Some recoveryUser \<and> sd_user d \<noteq> recoveryUser then
            throw_error_at 400 ''application'' ''invalid-attribute''
              ''Trying to delete subscription not created by root. Use kill-subscription instead.'' (Some rpcPath)
          else bindE (sr_terminate subId) (\<lambda>_.
            (let s = s\<lparr>ds_terminations := ds_terminations s @ [(subId, Some ''ietf-subscribed-notifications:no-such-subscription'')]\<rparr> in
             Inr (release a (s\<lparr>m_subscriptions := om_erase (sd_uuid d) (m_subscriptions s)\<rparr>))))))"

text \<open>\<open>terminateSubscription\<close>, the callback of the inactivity timer.\<close>

definition terminateSubscription :: "nat \<Rightarrow> 'u dyn_subs \<Rightarrow> 'u dyn_subs" where
  "terminateSubscription subId s = (case find_by_id subId s of
      None \<Rightarrow> s
    | Some (uid, a, d) \<Rightarrow>
        (let s = update_data a (terminate (Some ''ietf-subscribed-notifications:no-such-subscription'') d) s in
         release a (s\<lparr>m_subscriptions := om_erase uid (m_subscriptions s)\<rparr>)))"

definition stop_all :: "'u dyn_subs \<Rightarrow> 'u dyn_subs" where
  "stop_all s = s\<lparr>ds_heap := (\<lambda>a. if a \<in> snd ` set (m_subscriptions s) then map_option stop_subscription (ds_heap s a) else ds_heap s a)\<rparr>"

text \<open>The completion of the inactivity timer of an object.\<close>

definition timer_expired :: "nat \<Rightarrow> 'u dyn_subs \<Rightarrow> 'u dyn_subs" where
  "timer_expired a s = (case ds_heap s a of
      None \<Rightarrow> s
    | Some d \<Rightarrow> (case sd_timer d of
        Timer_Idle \<Rightarrow> s
      | Timer_Armed shared \<Rightarrow>
          (let s = update_data a (d\<lparr>sd_timer := Timer_Idle\<rparr>, []) s in
           if shared then terminateSubscription (sd_id d) s else s)))"

section \<open>HTTP streams\<close>

text \<open>
  A GET on the URI of a subscription (\<open>Server.cpp\<close>, handler of \<open>/streams/\<close>): the stream shares the
  object and \<open>activate\<close> marks it as consumed.
\<close>

definition connect_stream :: "string \<Rightarrow> 'u \<Rightarrow> string option \<Rightarrow> 'u dyn_subs \<Rightarrow> exn + (nat \<times> 'u dyn_subs)" where
  "connect_stream recoveryUser uid user s = (case getSubscriptionForUser recoveryUser uid user s of
      None \<Rightarrow> throw_error 404 ''application'' ''invalid-value'' ''Subscription not found.''
    | Some (a, d) \<Rightarrow>
        if \<not> isReadyToAcceptClient d then
          throw_error 409 ''application'' ''resource-denied'' ''There is already another GET request on this subscription.''
        else Inr (a, (update_data a (clientConnected d, []) s)\<lparr>ds_streams := a # ds_streams s\<rparr>))"

text \<open>The callbacks of the stream on termination of the server and on the closing of the response.\<close>

definition stream_terminated :: "nat \<Rightarrow> 'u dyn_subs \<Rightarrow> 'u dyn_subs" where
  "stream_terminated a s = (case ds_heap s a of None \<Rightarrow> s
    | Some d \<Rightarrow> update_data a (terminate (Some ''ietf-subscribed-notifications:no-such-subscription'') d) s)"

definition disconnect_stream :: "nat \<Rightarrow> 'u dyn_subs \<Rightarrow> 'u dyn_subs" where
  "disconnect_stream a s = (case ds_heap s a of None \<Rightarrow> s
    | Some d \<Rightarrow>
        (let s' = update_data a (clientDisconnected d, []) s in
         release a (s'\<lparr>ds_streams := remove1 a (ds_streams s')\<rparr>)))"

text \<open>
  \<open>awaitNextNotification\<close>: the notifications of one wake-up, at most \<open>MAX_EVENTS - 1\<close>, are passed to the
  signal in order; the rest waits for the next one.
\<close>

definition MAX_EVENTS :: nat where "MAX_EVENTS = 50"

fun process_notifications :: "nat \<Rightarrow> 'e list \<Rightarrow> 'e list \<times> 'e list" where
  "process_notifications eventsProcessed pipe =
     (if Suc eventsProcessed < MAX_EVENTS \<and> pipe \<noteq> []
      then (let (signalled, rest) = process_notifications (Suc eventsProcessed) (tl pipe) in (hd pipe # signalled, rest))
      else ([], pipe))"

declare process_notifications.simps [simp del]

end
