(* ===== verification/Dynamic_Subscriptions_Laws.thy ===== *)
theory Dynamic_Subscriptions_Laws
  imports Dynamic_Subscriptions
begin

text \<open>
  Invariants of the table of subscriptions under every operation, in any order: who can reach a
  subscription, that a subscription has at most one client, that no object leaks and none is used
  after its destruction, and that its owner never changes.
\<close>

section \<open>The interface of the table\<close>

text \<open>What the code relies on of \<open>std::map\<close>.\<close>

locale ordered_map =
  fixes valid :: "'m \<Rightarrow> bool"
    and look :: "'m \<Rightarrow> 'k \<Rightarrow> 'v option"
    and ins :: "'k \<Rightarrow> 'v \<Rightarrow> 'm \<Rightarrow> 'm"
    and del :: "'k \<Rightarrow> 'm \<Rightarrow> 'm"
  assumes valid_ins: "valid m \<Longrightarrow> valid (ins k v m)"
    and valid_del: "valid m \<Longrightarrow> valid (del k m)"
    and look_ins: "valid m \<Longrightarrow> look (ins k v m) = (look m)(k \<mapsto> v)"
    and look_del: "valid m \<Longrightarrow> look (del k m) = (look m)(k := None)"
begin

lemma look_ins_del: "valid m \<Longrightarrow> look m k = None \<Longrightarrow> look (del k (ins k v m)) = look m"
  by (simp add: look_del look_ins valid_ins fun_upd_idem)

lemma ran_ins: "valid m \<Longrightarrow> ran (look (ins k v m)) \<subseteq> insert v (ran (look m))"
  by (auto simp: look_ins ran_def split: if_splits)

lemma ran_del: "valid m \<Longrightarrow> ran (look (del k m)) \<subseteq> ran (look m)"
  by (auto simp: look_del ran_def split: if_splits)

end

lemma om_insert_keys: "fst ` set (om_insert k v m) = insert k (fst ` set m)"
  by (induction k v m rule: om_insert.induct) auto

lemma om_insert_sorted: "sorted_wrt (<) (map fst m) \<Longrightarrow> sorted_wrt (<) (map fst (om_insert k v m))"
proof (induction k v m rule: om_insert.induct)
  case (2 k v k' v' m)
  have "(\<forall>x \<in> set (om_insert k v m). k' < fst x) \<longleftrightarrow> (\<forall>y \<in> insert k (fst ` set m). k' < y)"
    unfolding om_insert_keys [of k v m, symmetric] by simp
  then show ?case using 2 by auto
qed simp

lemma map_of_om_insert: "sorted_wrt (<) (map fst m) \<Longrightarrow> map_of (om_insert k v m) = (map_of m)(k \<mapsto> v)"
proof (induction k v m rule: om_insert.induct)
  case (2 k v k' v' m)
  then show ?case by (auto simp: fun_eq_iff)
qed simp

lemma map_of_om_erase: "map_of (om_erase k m) = (map_of m)(k := None)"
  by (induction m) (auto simp: om_erase_def fun_eq_iff)

lemma om_erase_sorted: "sorted_wrt (<) (map fst m) \<Longrightarrow> sorted_wrt (<) (map fst (om_erase k m))"
  unfolding om_erase_def by (induction m) auto

lemma sorted_distinct: "sorted_wrt (<) (map fst m) \<Longrightarrow> distinct (map fst (m :: ('k::linorder \<times> 'v) list))"
  by (simp add: strict_sorted_iff)

interpretation table: ordered_map "\<lambda>m. sorted_wrt (<) (map fst m)" map_of om_insert om_erase
  by unfold_locales (simp_all add: om_insert_sorted om_erase_sorted map_of_om_insert map_of_om_erase)

section \<open>Invariant\<close>

definition mapped :: "'u dyn_subs \<Rightarrow> nat set" where
  "mapped s = snd ` set (m_subscriptions s)"

text \<open>One object: who refers to it, and how its state agrees with the streams.\<close>

definition object_ok :: "'u dyn_subs \<Rightarrow> nat \<Rightarrow> 'u subscription_data \<Rightarrow> bool" where
  "object_ok s a d \<longleftrightarrow> a < ds_next s \<and> (a \<in> mapped s \<or> a \<in> set (ds_streams s)) \<and>
     (sd_state d = Start \<longrightarrow> a \<notin> set (ds_streams s)) \<and>
     (sd_state d = ReceiverActive \<longrightarrow> a \<in> set (ds_streams s) \<and> sd_timer d = Timer_Idle)"

definition subs_inv :: "('u::linorder) dyn_subs \<Rightarrow> bool" where
  "subs_inv s \<longleftrightarrow> sorted_wrt (<) (map fst (m_subscriptions s)) \<and> distinct (map snd (m_subscriptions s)) \<and>
     (\<forall>(u, a) \<in> set (m_subscriptions s). \<exists>d. ds_heap s a = Some d \<and> sd_uuid d = u) \<and>
     distinct (ds_streams s) \<and> (\<forall>a \<in> set (ds_streams s). ds_heap s a \<noteq> None) \<and>
     (\<forall>a d. ds_heap s a = Some d \<longrightarrow> object_ok s a d)"

lemma subs_invI:
  assumes "sorted_wrt (<) (map fst (m_subscriptions s))" "distinct (map snd (m_subscriptions s))"
    "\<And>u a. (u, a) \<in> set (m_subscriptions s) \<Longrightarrow> \<exists>d. ds_heap s a = Some d \<and> sd_uuid d = u"
    "distinct (ds_streams s)" "\<And>a. a \<in> set (ds_streams s) \<Longrightarrow> ds_heap s a \<noteq> None"
    "\<And>a d. ds_heap s a = Some d \<Longrightarrow> object_ok s a d"
  shows "subs_inv s"
  using assms unfolding subs_inv_def by blast

lemma subs_invD:
  assumes "subs_inv s"
  shows "sorted_wrt (<) (map fst (m_subscriptions s))" "distinct (map snd (m_subscriptions s))"
    "(u, a) \<in> set (m_subscriptions s) \<Longrightarrow> \<exists>d. ds_heap s a = Some d \<and> sd_uuid d = u"
    "distinct (ds_streams s)" "a \<in> set (ds_streams s) \<Longrightarrow> ds_heap s a \<noteq> None"
    "ds_heap s a = Some d \<Longrightarrow> object_ok s a d"
  using assms unfolding subs_inv_def by blast+

text \<open>The invariant up to one object that may have lost its last reference.\<close>

definition subs_inv_but :: "nat \<Rightarrow> ('u::linorder) dyn_subs \<Rightarrow> bool" where
  "subs_inv_but x s \<longleftrightarrow> sorted_wrt (<) (map fst (m_subscriptions s)) \<and> distinct (map snd (m_subscriptions s)) \<and>
     (\<forall>(u, a) \<in> set (m_subscriptions s). \<exists>d. ds_heap s a = Some d \<and> sd_uuid d = u) \<and>
     distinct (ds_streams s) \<and> (\<forall>a \<in> set (ds_streams s). ds_heap s a \<noteq> None) \<and>
     (\<forall>a d. ds_heap s a = Some d \<longrightarrow> a = x \<and> a \<notin> mapped s \<and> a \<notin> set (ds_streams s) \<or> object_ok s a d)"

lemma subs_inv_but_referred: "subs_inv_but a s \<Longrightarrow> a \<in> mapped s \<Longrightarrow> subs_inv s"
  unfolding subs_inv_but_def subs_inv_def by blast

lemma release_fields:
  "m_subscriptions (release a s) = m_subscriptions s" "ds_streams (release a s) = ds_streams s" "ds_next (release a s) = ds_next s"
  by (simp_all add: release_def update_data_def split: option.splits)

lemma release_heap:
  "ds_heap (release a s) = (if a \<in> mapped s \<or> a \<in> set (ds_streams s) then ds_heap s else (ds_heap s)(a := None))"
  by (auto simp: release_def update_data_def mapped_def split: option.splits)

lemma mapped_release [simp]: "mapped (release a s) = mapped s"
  by (simp add: mapped_def release_fields)

lemma object_ok_release [simp]: "object_ok (release a s) b d = object_ok s b d"
  by (simp add: object_ok_def release_fields)

lemma release_inv:
  assumes "subs_inv_but a s"
  shows "subs_inv (release a s)"
proof (rule subs_invI)
  fix u b
  assume "(u, b) \<in> set (m_subscriptions (release a s))"
  then have b: "(u, b) \<in> set (m_subscriptions s)" by (simp add: release_fields)
  then have "b \<in> mapped s" by (force simp: mapped_def)
  then show "\<exists>d. ds_heap (release a s) b = Some d \<and> sd_uuid d = u"
    using assms b by (auto simp: release_heap subs_inv_but_def)
next
  fix b d
  assume "ds_heap (release a s) b = Some d"
  then show "object_ok (release a s) b d"
    using assms by (auto simp: release_heap subs_inv_but_def split: if_splits)
qed (use assms in \<open>auto simp: subs_inv_but_def release_fields release_heap\<close>)

section \<open>Operations keep the invariant\<close>

text \<open>
  An operation on one object that keeps its identity and fits the streams; \<open>streams\<close> are the addresses
  held by streams afterwards.
\<close>

lemma update_inv:
  assumes inv: "subs_inv s" and a: "ds_heap s a = Some d"
    and d': "sd_uuid d' = sd_uuid d" and ok: "object_ok (s\<lparr>ds_streams := st\<rparr>) a d'"
    and st: "distinct st" "set st \<subseteq> insert a (set (ds_streams s))" "\<forall>b. b \<noteq> a \<longrightarrow> (b \<in> set st \<longleftrightarrow> b \<in> set (ds_streams s))"
  shows "subs_inv ((update_data a (d', ts) s)\<lparr>ds_streams := st\<rparr>)"
proof (rule subs_invI)
  fix u b
  assume "(u, b) \<in> set (m_subscriptions ((update_data a (d', ts) s)\<lparr>ds_streams := st\<rparr>))"
  then show "\<exists>d. ds_heap ((update_data a (d', ts) s)\<lparr>ds_streams := st\<rparr>) b = Some d \<and> sd_uuid d = u"
    using subs_invD(3) [OF inv, of u b] a d' by (auto simp: update_data_def)
next
  fix b e
  assume "ds_heap ((update_data a (d', ts) s)\<lparr>ds_streams := st\<rparr>) b = Some e"
  then show "object_ok ((update_data a (d', ts) s)\<lparr>ds_streams := st\<rparr>) b e"
    using subs_invD(6) [OF inv, of b e] ok st(3)
    by (auto simp: update_data_def object_ok_def mapped_def split: if_splits)
qed (use subs_invD [OF inv] st in \<open>auto simp: update_data_def\<close>)

lemma update_inv_same:
  assumes "subs_inv s" "ds_heap s a = Some d" "sd_uuid d' = sd_uuid d" "object_ok s a d'"
  shows "subs_inv (update_data a (d', ts) s)"
proof -
  have e: "(update_data a (d', ts) s)\<lparr>ds_streams := ds_streams s\<rparr> = update_data a (d', ts) s" "s\<lparr>ds_streams := ds_streams s\<rparr> = s"
    by (simp_all add: update_data_def)
  show ?thesis
    using update_inv [OF assms(1,2,3), of "ds_streams s" ts] assms(4) subs_invD(4) [OF assms(1)] unfolding e by auto
qed

lemma find_SomeD: "find P xs = Some x \<Longrightarrow> x \<in> set xs \<and> P x"
  by (induction xs) (auto split: if_splits)

lemma find_by_id_Some:
  assumes "find_by_id i s = Some (u, a, d)"
  shows "(u, a) \<in> set (m_subscriptions s)" "ds_heap s a = Some d" "sd_id d = i"
proof -
  have f: "find (\<lambda>e. map_option sd_id (ds_heap s (snd e)) = Some i) (m_subscriptions s) = Some (u, a)" "ds_heap s a = Some d"
    using assms by (auto simp: find_by_id_def split: option.splits)
  show "(u, a) \<in> set (m_subscriptions s)" "ds_heap s a = Some d" "sd_id d = i"
    using find_SomeD [OF f(1)] f(2) by auto
qed

lemma map_of_mem: "map_of (m_subscriptions s) u = Some a \<Longrightarrow> (u, a) \<in> set (m_subscriptions s)"
  by (rule map_of_SomeD)

text \<open>Removing an entry from the table and releasing its object.\<close>

lemma erased_unmapped:
  assumes "subs_inv s" and "(u, a) \<in> set (m_subscriptions s)"
  shows "a \<notin> snd ` set (om_erase u (m_subscriptions s))"
proof
  assume "a \<in> snd ` set (om_erase u (m_subscriptions s))"
  then obtain v where "(v, a) \<in> set (m_subscriptions s)" "v \<noteq> u" by (force simp: om_erase_def)
  then show False
    using assms(2) subs_invD(2) [OF assms(1)] inj_onD [of snd "set (m_subscriptions s)" "(v, a)" "(u, a)"]
    by (simp add: distinct_map)
qed

lemma erase_release_inv:
  assumes inv: "subs_inv s" and m: "(u, a) \<in> set (m_subscriptions s)" and t: "ds_heap s a = Some d"
  shows "subs_inv (release a (s\<lparr>ds_terminations := ts, m_subscriptions := om_erase u (m_subscriptions s)\<rparr>))"
proof (rule release_inv)
  let ?s = "s\<lparr>ds_terminations := ts, m_subscriptions := om_erase u (m_subscriptions s)\<rparr>"
  have sub: "set (m_subscriptions ?s) \<subseteq> set (m_subscriptions s)" by (auto simp: om_erase_def)
  have keep: "b \<in> mapped ?s \<longleftrightarrow> b \<in> mapped s" if "b \<noteq> a" for b
  proof
    assume "b \<in> mapped s"
    then obtain v where v: "(v, b) \<in> set (m_subscriptions s)" by (force simp: mapped_def)
    have "v \<noteq> u"
    proof
      assume "v = u"
      then show False
        using v m that eq_key_imp_eq_value [OF sorted_distinct [OF subs_invD(1) [OF inv]], of u a b] by simp
    qed
    then show "b \<in> mapped ?s" using v by (force simp: mapped_def om_erase_def)
  qed (use sub in \<open>force simp: mapped_def\<close>)
  have gone: "a \<notin> mapped ?s" using erased_unmapped [OF inv m] by (simp add: mapped_def)
  have "distinct (map snd (m_subscriptions ?s))"
    using subs_invD(2) [OF inv] by (simp add: om_erase_def distinct_map_filter)
  moreover have "object_ok ?s b e \<or> b = a \<and> b \<notin> mapped ?s \<and> b \<notin> set (ds_streams ?s)" if "ds_heap s b = Some e" for b e
    using subs_invD(6) [OF inv that] keep [of b] gone by (cases "b = a") (auto simp: object_ok_def)
  moreover have "\<forall>(v, b) \<in> set (m_subscriptions ?s). \<exists>d. ds_heap s b = Some d \<and> sd_uuid d = v"
    using subs_invD(3) [OF inv] sub by fast
  ultimately show "subs_inv_but a ?s"
    using subs_invD(1,4,5) [OF inv] table.valid_del [OF subs_invD(1) [OF inv], of u]
    unfolding subs_inv_but_def by auto
qed

lemma terminateSubscription_inv:
  assumes inv: "subs_inv s"
  shows "subs_inv (terminateSubscription i s)"
proof (cases "find_by_id i s")
  case (Some x)
  then obtain u a d where f: "find_by_id i s = Some (u, a, d)" by (cases x) auto
  note m = find_by_id_Some [OF f]
  obtain d' ts where t: "terminate (Some ''ietf-subscribed-notifications:no-such-subscription'') d = (d', ts)" by fastforce
  then have d': "sd_uuid d' = sd_uuid d" "sd_state d' = Terminating" by (auto simp: terminate_def split: if_splits)
  then have "object_ok s a d'" using subs_invD(6) [OF inv m(2)] by (auto simp: object_ok_def)
  then have i: "subs_inv (update_data a (d', ts) s)" by (rule update_inv_same [OF inv m(2) d'(1)])
  let ?s = "update_data a (d', ts) s"
  have "subs_inv (release a (?s\<lparr>ds_terminations := ds_terminations ?s, m_subscriptions := om_erase u (m_subscriptions ?s)\<rparr>))"
    by (rule erase_release_inv [OF i, where d = d']) (use m in \<open>simp_all add: update_data_def\<close>)
  then show ?thesis using f t by (simp add: terminateSubscription_def update_data_def)
qed (use inv in \<open>simp add: terminateSubscription_def\<close>)

lemma timer_expired_inv:
  assumes inv: "subs_inv s"
  shows "subs_inv (timer_expired a s)"
proof (cases "ds_heap s a")
  case (Some d)
  have "object_ok s a (d\<lparr>sd_timer := Timer_Idle\<rparr>)" using subs_invD(6) [OF inv Some] by (simp add: object_ok_def)
  then have "subs_inv (update_data a (d\<lparr>sd_timer := Timer_Idle\<rparr>, []) s)" by (intro update_inv_same [OF inv Some]) simp
  then show ?thesis using Some inv terminateSubscription_inv
    by (auto simp: timer_expired_def Let_def split: inactivity_timer.splits)
qed (use inv in \<open>simp add: timer_expired_def\<close>)

lemma stream_terminated_inv:
  assumes inv: "subs_inv s"
  shows "subs_inv (stream_terminated a s)"
proof (cases "ds_heap s a")
  case (Some d)
  obtain d' ts where t: "terminate (Some ''ietf-subscribed-notifications:no-such-subscription'') d = (d', ts)" by fastforce
  then have d': "sd_uuid d' = sd_uuid d" "sd_state d' = Terminating" by (auto simp: terminate_def split: if_splits)
  then have "object_ok s a d'" using subs_invD(6) [OF inv Some] by (auto simp: object_ok_def)
  then show ?thesis using update_inv_same [OF inv Some d'(1)] Some t by (simp add: stream_terminated_def)
qed (use inv in \<open>simp add: stream_terminated_def\<close>)

lemma connect_stream_inv:
  assumes inv: "subs_inv s" and c: "connect_stream ru u user s = Inr (a, s')"
  shows "subs_inv s'"
proof -
  obtain d where d: "ds_heap s a = Some d" "sd_state d = Start"
    and s': "s' = (update_data a (clientConnected d, []) s)\<lparr>ds_streams := a # ds_streams s\<rparr>"
    using c by (auto simp: connect_stream_def getSubscriptionForUser_def isReadyToAcceptClient_def split: option.splits if_splits)
  note ok = subs_invD(6) [OF inv d(1)]
  show ?thesis unfolding s'
    by (rule update_inv [OF inv d(1)])
      (use ok d(2) subs_invD(4) [OF inv] in \<open>auto simp: clientConnected_def inactivityCancel_def object_ok_def mapped_def\<close>)
qed

lemma disconnect_stream_inv:
  assumes inv: "subs_inv s" and a: "a \<in> set (ds_streams s)"
  shows "subs_inv (disconnect_stream a s)"
proof -
  obtain d where d: "ds_heap s a = Some d" using subs_invD(5) [OF inv a] by auto
  let ?d = "clientDisconnected d"
  let ?s = "(update_data a (?d, []) s)\<lparr>ds_streams := remove1 a (ds_streams s)\<rparr>"
  have st: "a \<notin> set (ds_streams ?s)" "distinct (ds_streams ?s)" "b \<noteq> a \<Longrightarrow> b \<in> set (ds_streams ?s) \<longleftrightarrow> b \<in> set (ds_streams s)" for b
    using subs_invD(4) [OF inv] by (auto simp: set_remove1_eq)
  have dd: "sd_uuid ?d = sd_uuid d" "sd_state ?d \<noteq> ReceiverActive" "sd_state ?d = Start \<or> sd_state ?d = Terminating"
    by (auto simp: clientDisconnected_def inactivityStart_def)
  have "subs_inv_but a ?s"
    unfolding subs_inv_but_def
  proof (intro conjI)
    show "\<forall>b e. ds_heap ?s b = Some e \<longrightarrow> b = a \<and> b \<notin> mapped ?s \<and> b \<notin> set (ds_streams ?s) \<or> object_ok ?s b e"
    proof (intro allI impI)
      fix b e
      assume e: "ds_heap ?s b = Some e"
      show "b = a \<and> b \<notin> mapped ?s \<and> b \<notin> set (ds_streams ?s) \<or> object_ok ?s b e"
      proof (cases "b = a")
        case True
        then show ?thesis using e st(1) dd subs_invD(6) [OF inv d]
          by (auto simp: update_data_def object_ok_def mapped_def)
      next
        case False
        then show ?thesis using e st(3) [OF False] subs_invD(6) [OF inv, of b e]
          by (auto simp: update_data_def object_ok_def mapped_def)
      qed
    qed
    show "\<forall>(u, b) \<in> set (m_subscriptions ?s). \<exists>d. ds_heap ?s b = Some d \<and> sd_uuid d = u"
      using subs_invD(3) [OF inv] d dd(1) by (fastforce simp: update_data_def)
    show "\<forall>b \<in> set (ds_streams ?s). ds_heap ?s b \<noteq> None"
      using subs_invD(5) [OF inv] st by (auto simp: update_data_def)
  qed (use subs_invD(1,2) [OF inv] st(2) in \<open>auto simp: update_data_def\<close>)
  then show ?thesis using release_inv d by (simp add: disconnect_stream_def update_data_def)
qed

lemma stop_all_inv:
  assumes inv: "subs_inv s"
  shows "subs_inv (stop_all s)"
proof (rule subs_invI)
  fix u a
  assume "(u, a) \<in> set (m_subscriptions (stop_all s))"
  then show "\<exists>d. ds_heap (stop_all s) a = Some d \<and> sd_uuid d = u"
    using subs_invD(3) [OF inv, of u a] by (force simp: stop_all_def stop_subscription_def inactivityCancel_def)
next
  fix a d
  assume "ds_heap (stop_all s) a = Some d"
  then show "object_ok (stop_all s) a d"
    using subs_invD(6) [OF inv, of a]
    by (auto simp: stop_all_def stop_subscription_def inactivityCancel_def object_ok_def mapped_def split: if_splits)
qed (use subs_invD [OF inv] in \<open>auto simp: stop_all_def\<close>)

lemma deleteSubscription_Inr:
  assumes "deleteSubscription ru srt user kill inp p s = Inr s'"
  obtains i u a d where "inp = Some i" "find_by_id i s = Some (u, a, d)" "may_access ru d user"
    "kill \<or> user \<noteq> Some ru \<or> sd_user d = ru"
    "s' = release a (s\<lparr>ds_terminations := ds_terminations s @ [(i, Some ''ietf-subscribed-notifications:no-such-subscription'')],
       m_subscriptions := om_erase (sd_uuid d) (m_subscriptions s)\<rparr>)"
  using assms
  by (auto simp: deleteSubscription_def getSubscriptionForUserById_def bindE_eq_Inr_iff split: option.splits if_splits)

lemma deleteSubscription_inv:
  assumes inv: "subs_inv s" and del: "deleteSubscription ru srt user kill inp p s = Inr s'"
  shows "subs_inv s'"
proof -
  obtain i u a d where f: "find_by_id i s = Some (u, a, d)"
    and s': "s' = release a (s\<lparr>ds_terminations := ds_terminations s @ [(i, Some ''ietf-subscribed-notifications:no-such-subscription'')],
       m_subscriptions := om_erase (sd_uuid d) (m_subscriptions s)\<rparr>)"
    using del by (elim deleteSubscription_Inr)
  note m = find_by_id_Some [OF f]
  have "u = sd_uuid d" using subs_invD(3) [OF inv m(1)] m(2) by auto
  then show ?thesis using erase_release_inv [OF inv m(1,2)] s' by simp
qed

section \<open>Establishing a subscription\<close>

lemma set_om_insert: "sorted_wrt (<) (map fst m) \<Longrightarrow> set (om_insert k v m) = insert (k, v) {e \<in> set m. fst e \<noteq> k}"
  by (induction k v m rule: om_insert.induct) auto

lemma om_insert_snd_distinct:
  "sorted_wrt (<) (map fst m) \<Longrightarrow> distinct (map snd m) \<Longrightarrow> v \<notin> snd ` set m \<Longrightarrow> distinct (map snd (om_insert k v m))"
  by (induction k v m rule: om_insert.induct) (auto simp: set_om_insert)

lemma fresh_address:
  assumes "subs_inv s"
  shows "ds_heap s (ds_next s) = None" "ds_next s \<notin> mapped s" "ds_next s \<notin> set (ds_streams s)"
proof -
  show h: "ds_heap s (ds_next s) = None"
    using subs_invD(6) [OF assms, of "ds_next s"] by (cases "ds_heap s (ds_next s)") (auto simp: object_ok_def)
  then show "ds_next s \<notin> mapped s" "ds_next s \<notin> set (ds_streams s)"
    using subs_invD(3,5) [OF assms] by (force simp: mapped_def)+
qed

lemma store_subscription_inv:
  assumes inv: "subs_inv s" and d: "sd_uuid d = u" "sd_state d = Start"
  shows "subs_inv (store_subscription u d s)"
proof -
  let ?a = "ds_next s"
  let ?s = "s\<lparr>ds_heap := (ds_heap s)(?a := Some d), ds_next := Suc ?a, m_subscriptions := om_insert u ?a (m_subscriptions s)\<rparr>"
  note fresh = fresh_address [OF inv] and sorted = subs_invD(1) [OF inv]
  have set: "set (m_subscriptions ?s) = insert (u, ?a) {e \<in> set (m_subscriptions s). fst e \<noteq> u}"
    using set_om_insert [OF sorted] by simp
  have mapped: "b \<in> mapped ?s \<longleftrightarrow> b = ?a \<or> b \<in> mapped s \<and> map_of (m_subscriptions s) u \<noteq> Some b" for b
  proof -
    have "map_of (m_subscriptions s) u = Some b \<longleftrightarrow> (u, b) \<in> set (m_subscriptions s)" for b
      using sorted_distinct [OF sorted] by (simp add: map_of_eq_Some_iff)
    moreover have "(v, b) \<in> set (m_subscriptions s) \<Longrightarrow> (w, b) \<in> set (m_subscriptions s) \<Longrightarrow> v = w" for v w b
      using subs_invD(2) [OF inv] inj_onD [of snd "set (m_subscriptions s)" "(v, b)" "(w, b)"] by (simp add: distinct_map)
    ultimately have *: "map_of (m_subscriptions s) u = Some b \<longleftrightarrow> v = u" if "(v, b) \<in> set (m_subscriptions s)" for v
      using that by blast
    have "b \<in> mapped ?s \<longleftrightarrow> b = ?a \<or> (\<exists>v. (v, b) \<in> set (m_subscriptions s) \<and> v \<noteq> u)"
      unfolding mapped_def set by (auto simp: image_iff)
    moreover have "b \<in> mapped s \<longleftrightarrow> (\<exists>v. (v, b) \<in> set (m_subscriptions s))" by (force simp: mapped_def)
    ultimately show ?thesis using * by metis
  qed
  have but: "subs_inv_but b ?s" if "map_of (m_subscriptions s) u = Some b \<or> map_of (m_subscriptions s) u = None" for b
    unfolding subs_inv_but_def
  proof (intro conjI)
    show "distinct (map snd (m_subscriptions ?s))"
      using om_insert_snd_distinct [OF sorted subs_invD(2) [OF inv]] fresh(2) by (simp add: mapped_def)
    show "\<forall>c e. ds_heap ?s c = Some e \<longrightarrow> c = b \<and> c \<notin> mapped ?s \<and> c \<notin> set (ds_streams ?s) \<or> object_ok ?s c e"
    proof (intro allI impI)
      fix c e
      assume e: "ds_heap ?s c = Some e"
      show "c = b \<and> c \<notin> mapped ?s \<and> c \<notin> set (ds_streams ?s) \<or> object_ok ?s c e"
      proof (cases "c = ?a")
        case True
        then show ?thesis using e d fresh(3) mapped [of c] by (auto simp: object_ok_def)
      next
        case False
        then have "object_ok s c e" using e subs_invD(6) [OF inv, of c e] by simp
        then show ?thesis using False mapped [of c] that by (auto simp: object_ok_def)
      qed
    qed
    show "\<forall>(v, c) \<in> set (m_subscriptions ?s). \<exists>d. ds_heap ?s c = Some d \<and> sd_uuid d = v"
      unfolding set using subs_invD(3) [OF inv] d fresh(2) by (force simp: mapped_def)
  qed (use subs_invD(4,5) [OF inv] table.valid_ins [OF sorted] in \<open>auto\<close>)
  show ?thesis
  proof (cases "map_of (m_subscriptions s) u")
    case None
    then have "subs_inv_but ?a ?s" using but by blast
    then have "subs_inv ?s" using mapped [of ?a] subs_inv_but_referred by blast
    then show ?thesis using None by (simp add: store_subscription_def Let_def)
  next
    case (Some b)
    then show ?thesis using release_inv [OF but [of b]] by (simp add: store_subscription_def Let_def)
  qed
qed

lemma SubscriptionData_fields:
  "sd_uuid (SubscriptionData i f u user) = u" "sd_state (SubscriptionData i f u user) = Start"
  "sd_user (SubscriptionData i f u user) = user" "sd_id (SubscriptionData i f u user) = i"
  "sd_timer (SubscriptionData i f u user) = Timer_Armed False" "sd_dataFormat (SubscriptionData i f u user) = f"
  by (simp_all add: SubscriptionData_def inactivityStart_def)

lemma catch_sysrepo_Inr_iff [simp]: "catch_sysrepo m = Inr a \<longleftrightarrow> m = Inr a"
  by (auto simp: catch_sysrepo_def split: sum.splits exn.splits)

lemma establishSubscription_Inr:
  assumes "establishSubscription subscribe us uri nacm u hst enc inp out s = Inr (s', out')"
  obtains schemeAndHost i f user where "hst = Some schemeAndHost" "nacm = Some user" "getEncoding inp enc = Inr f"
    "s' = store_subscription u (SubscriptionData i f u user) s" "out_id out' = Some (to_string i)"
    "out_uri out' = Some (schemeAndHost @ uri @ ''subscribed/'' @ us u)"
  using assms
  by (auto simp: establishSubscription_def bindE_eq_Inr_iff Let_def split: option.splits)

section \<open>All operations in any order\<close>

inductive subs_step :: "string \<Rightarrow> subscribe_call \<Rightarrow> ('u::linorder \<Rightarrow> string) \<Rightarrow> string \<Rightarrow> (nat \<Rightarrow> exn + unit) \<Rightarrow>
    'u dyn_subs \<Rightarrow> 'u dyn_subs \<Rightarrow> bool" for ru subscribe us uri srt where
  establish: "establishSubscription subscribe us uri nacm u hst enc inp out s = Inr (s', out') \<Longrightarrow> subs_step ru subscribe us uri srt s s'"
| delete: "deleteSubscription ru srt user kill inp p s = Inr s' \<Longrightarrow> subs_step ru subscribe us uri srt s s'"
| timer: "subs_step ru subscribe us uri srt s (timer_expired a s)"
| connect: "connect_stream ru u user s = Inr (a, s') \<Longrightarrow> subs_step ru subscribe us uri srt s s'"
| disconnect: "a \<in> set (ds_streams s) \<Longrightarrow> subs_step ru subscribe us uri srt s (disconnect_stream a s)"
| terminated: "a \<in> set (ds_streams s) \<Longrightarrow> subs_step ru subscribe us uri srt s (stream_terminated a s)"
| stop: "subs_step ru subscribe us uri srt s (stop_all s)"

inductive subs_reachable :: "string \<Rightarrow> subscribe_call \<Rightarrow> ('u::linorder \<Rightarrow> string) \<Rightarrow> string \<Rightarrow> (nat \<Rightarrow> exn + unit) \<Rightarrow> 'u dyn_subs \<Rightarrow> bool"
  for ru subscribe us uri srt where
  init: "subs_reachable ru subscribe us uri srt DynamicSubscriptions_init"
| step: "subs_reachable ru subscribe us uri srt s \<Longrightarrow> subs_step ru subscribe us uri srt s s' \<Longrightarrow> subs_reachable ru subscribe us uri srt s'"

lemma subs_step_inv: "subs_step ru subscribe us uri srt s s' \<Longrightarrow> subs_inv s \<Longrightarrow> subs_inv s'"
proof (induction rule: subs_step.induct)
  case (establish nacm u hst enc inp out s s' out')
  then show ?case by (elim establishSubscription_Inr) (simp add: store_subscription_inv SubscriptionData_fields)
qed (blast intro: deleteSubscription_inv timer_expired_inv connect_stream_inv disconnect_stream_inv stream_terminated_inv stop_all_inv)+

lemma subs_reachable_inv: "subs_reachable ru subscribe us uri srt s \<Longrightarrow> subs_inv s"
proof (induction rule: subs_reachable.induct)
  case init
  show ?case by (simp add: subs_inv_def DynamicSubscriptions_init_def)
qed (rule subs_step_inv)

section \<open>Identity of a subscription\<close>

definition same_identity :: "'u subscription_data \<Rightarrow> 'u subscription_data \<Rightarrow> bool" where
  "same_identity d e \<longleftrightarrow> sd_id e = sd_id d \<and> sd_uuid e = sd_uuid d \<and> sd_user e = sd_user d \<and> sd_dataFormat e = sd_dataFormat d"

definition heap_extends :: "'u dyn_subs \<Rightarrow> 'u dyn_subs \<Rightarrow> bool" where
  "heap_extends s s' \<longleftrightarrow> (\<forall>a d e. ds_heap s a = Some d \<longrightarrow> ds_heap s' a = Some e \<longrightarrow> same_identity d e)"

lemma same_identity_ops [simp]:
  "same_identity d d" "same_identity d (clientConnected d)" "same_identity d (clientDisconnected d)"
  "same_identity d (fst (terminate r d))" "same_identity d (stop_subscription d)" "same_identity d (d\<lparr>sd_timer := t\<rparr>)"
  by (auto simp: same_identity_def clientConnected_def clientDisconnected_def inactivityCancel_def inactivityStart_def
      terminate_def stop_subscription_def)

lemma same_identity_trans: "same_identity d e \<Longrightarrow> same_identity e f \<Longrightarrow> same_identity d f"
  by (simp add: same_identity_def)

lemma release_identity: "ds_heap (release b s) a = Some e \<Longrightarrow> ds_heap s a = Some e"
  by (auto simp: release_heap split: if_splits)

lemma terminateSubscription_identity:
  "ds_heap s a = Some d \<Longrightarrow> ds_heap (terminateSubscription i s) a = Some e \<Longrightarrow> same_identity d e"
  by (auto simp: terminateSubscription_def Let_def update_data_def dest!: release_identity find_by_id_Some(2)
      split: option.splits if_splits)

lemma timer_expired_identity:
  assumes a: "ds_heap s a = Some d" and e: "ds_heap (timer_expired b s) a = Some e"
  shows "same_identity d e"
proof (cases "ds_heap s b")
  case (Some x)
  show ?thesis
  proof (cases "sd_timer x")
    case (Timer_Armed shared)
    let ?s = "update_data b (x\<lparr>sd_timer := Timer_Idle\<rparr>, []) s"
    obtain d' where d': "ds_heap ?s a = Some d'" "same_identity d d'"
      using a Some by (cases "a = b") (auto simp: update_data_def)
    have "same_identity d' e"
      using e Some Timer_Armed d'(1) terminateSubscription_identity [OF d'(1)]
      by (cases shared) (auto simp: timer_expired_def)
    then show ?thesis by (rule same_identity_trans [OF d'(2)])
  qed (use a e Some in \<open>simp add: timer_expired_def\<close>)
qed (use a e in \<open>simp add: timer_expired_def\<close>)

lemma subs_step_identity:
  assumes "subs_step ru subscribe us uri srt s s'" and inv: "subs_inv s"
  shows "heap_extends s s'"
  using assms(1)
proof cases
  case (establish nacm u hst enc inp out out')
  have "ds_heap s a = Some d \<Longrightarrow> ds_heap (store_subscription u x s) a = Some e \<Longrightarrow> same_identity d e" for a d e x
    using fresh_address(1) [OF inv]
    by (auto simp: store_subscription_def Let_def dest!: release_identity split: option.splits if_splits)
  then show ?thesis using establish by (elim establishSubscription_Inr) (auto simp: heap_extends_def)
next
  case (delete user kill inp p)
  then show ?thesis by (elim deleteSubscription_Inr) (auto simp: heap_extends_def dest!: release_identity)
next
  case (timer a)
  then show ?thesis unfolding timer(1) heap_extends_def using timer_expired_identity by blast
next
  case (connect u user a)
  then show ?thesis
    by (auto simp: heap_extends_def connect_stream_def getSubscriptionForUser_def update_data_def split: option.splits if_splits)
next
  case (disconnect a)
  then show ?thesis
    by (auto simp: heap_extends_def disconnect_stream_def update_data_def Let_def dest!: release_identity split: option.splits if_splits)
next
  case (terminated a)
  then show ?thesis
    by (auto simp: heap_extends_def stream_terminated_def update_data_def split: option.splits if_splits)
next
  case stop
  then show ?thesis by (auto simp: heap_extends_def stop_all_def split: if_splits)
qed

text \<open>Addresses are not used again: an object that is gone stays gone.\<close>

lemma release_fresh: "ds_heap s a = None \<Longrightarrow> ds_heap (release b s) a = None"
  by (simp add: release_heap)

lemma terminateSubscription_fresh:
  "ds_heap s a = None \<Longrightarrow> ds_heap (terminateSubscription i s) a = None \<and> ds_next (terminateSubscription i s) = ds_next s"
  by (auto simp: terminateSubscription_def Let_def update_data_def release_fields release_heap
      dest!: find_by_id_Some(2) split: option.splits)

lemma subs_step_fresh:
  assumes "subs_step ru subscribe us uri srt s s'" and "a < ds_next s" and "ds_heap s a = None"
  shows "a < ds_next s' \<and> ds_heap s' a = None"
  using assms(1)
proof cases
  case (establish nacm u hst enc inp out out')
  then show ?thesis using assms(2,3)
    by (elim establishSubscription_Inr)
      (auto simp: store_subscription_def Let_def release_fields intro!: release_fresh split: option.splits)
next
  case (delete user kill inp p)
  then show ?thesis using assms(2,3) by (elim deleteSubscription_Inr) (auto simp: release_fields intro!: release_fresh)
next
  case (timer b)
  have up: "ds_heap (update_data b x s) a = None \<and> ds_next (update_data b x s) = ds_next s" if "ds_heap s b = Some d" for x d
    using that assms(3) by (auto simp: update_data_def)
  have "ds_heap (timer_expired b s) a = None \<and> ds_next (timer_expired b s) = ds_next s"
  proof (cases "ds_heap s b")
    case (Some d)
    note up' = up [OF Some] and fresh = terminateSubscription_fresh [OF conjunct1 [OF up [OF Some]]]
    show ?thesis using Some assms(3) up' fresh
      by (cases "sd_timer d") (auto simp: timer_expired_def Let_def)
  qed (use assms(3) in \<open>simp add: timer_expired_def\<close>)
  then show ?thesis using assms(2) timer by simp
next
  case (connect u user b)
  then show ?thesis using assms(2,3)
    by (auto simp: connect_stream_def getSubscriptionForUser_def update_data_def split: option.splits if_splits)
next
  case (disconnect b)
  then show ?thesis using assms(2,3)
    by (auto simp: disconnect_stream_def update_data_def Let_def release_fields intro!: release_fresh split: option.splits)
next
  case (terminated b)
  then show ?thesis using assms(2,3) by (auto simp: stream_terminated_def update_data_def split: option.splits)
next
  case stop
  then show ?thesis using assms(2,3) by (simp add: stop_all_def)
qed

lemma subs_step_next:
  assumes "subs_step ru subscribe us uri srt s s'"
  shows "ds_next s \<le> ds_next s'"
  using assms
proof cases
  case (establish nacm u hst enc inp out out')
  then show ?thesis
    by (elim establishSubscription_Inr) (simp add: store_subscription_def Let_def release_fields split: option.splits)
next
  case (delete user kill inp p)
  then show ?thesis by (elim deleteSubscription_Inr) (simp add: release_fields)
next
  case (timer b)
  then show ?thesis
    by (simp add: timer_expired_def terminateSubscription_def Let_def update_data_def release_fields
        split: option.splits inactivity_timer.splits)
next
  case (connect u user b)
  then show ?thesis by (auto simp: connect_stream_def update_data_def split: option.splits if_splits)
qed (auto simp: disconnect_stream_def stream_terminated_def stop_all_def update_data_def Let_def release_fields split: option.splits)

text \<open>What is known of an object at its creation holds as long as it exists.\<close>

lemma subs_steps_identity:
  assumes "(subs_step ru subscribe us uri srt)\<^sup>*\<^sup>* s s'" and "subs_inv s" and "ds_heap s a = Some d"
  shows "subs_inv s' \<and> a < ds_next s' \<and> (\<forall>e. ds_heap s' a = Some e \<longrightarrow> same_identity d e)"
  using assms(1)
proof induction
  case base
  then show ?case using assms(2,3) subs_invD(6) [OF assms(2,3)] by (auto simp: object_ok_def)
next
  case (step y z)
  note ext = subs_step_identity [OF step(2)]
  show ?case
  proof (cases "ds_heap y a")
    case None
    then show ?thesis using subs_step_fresh [OF step(2) _ None] subs_step_inv [OF step(2)] step(3) by simp
  next
    case (Some e)
    then have "same_identity d f" if "ds_heap z a = Some f" for f
      using ext step(3) that same_identity_trans unfolding heap_extends_def by metis
    then show ?thesis using subs_step_inv [OF step(2)] subs_step_next [OF step(2)] step(3) by auto
  qed
qed

section \<open>Facts for the properties\<close>

lemma find_by_id_unique:
  assumes "(u, a) \<in> set (m_subscriptions s)" and "ds_heap s a = Some d" and "sd_id d = i"
    and "\<And>e. e \<in> set (m_subscriptions s) \<Longrightarrow> map_option sd_id (ds_heap s (snd e)) = Some i \<Longrightarrow> e = (u, a)"
  shows "find_by_id i s = Some (u, a, d)"
proof -
  let ?P = "\<lambda>e. map_option sd_id (ds_heap s (snd e)) = Some i"
  have "?P (u, a)" using assms(2,3) by simp
  then have "find ?P (m_subscriptions s) \<noteq> None" using assms(1) unfolding find_None_iff by blast
  then obtain e where e: "find ?P (m_subscriptions s) = Some e" by auto
  then have "e = (u, a)" using assms(4) find_SomeD [OF e] by blast
  then show ?thesis using e assms(2) by (simp add: find_by_id_def)
qed

lemma store_subscription_fields:
  assumes "subs_inv s"
  shows "map_of (m_subscriptions (store_subscription u d s)) u = Some (ds_next s)"
    "ds_heap (store_subscription u d s) (ds_next s) = Some d"
proof -
  note sorted = subs_invD(1) [OF assms] and fresh = fresh_address [OF assms]
  show "map_of (m_subscriptions (store_subscription u d s)) u = Some (ds_next s)"
    by (simp add: store_subscription_def Let_def release_fields map_of_om_insert [OF sorted] split: option.splits)
  have "b \<noteq> ds_next s" if "map_of (m_subscriptions s) u = Some b" for b
    using map_of_SomeD [OF that] fresh(2) by (force simp: mapped_def)
  then show "ds_heap (store_subscription u d s) (ds_next s) = Some d"
    by (auto simp: store_subscription_def Let_def release_heap split: option.splits)
qed

lemma process_notifications_take_drop:
  "process_notifications n pipe = (take (MAX_EVENTS - Suc n) pipe, drop (MAX_EVENTS - Suc n) pipe)"
proof (induction n pipe rule: process_notifications.induct)
  case (1 n pipe)
  show ?case
  proof (cases "Suc n < MAX_EVENTS \<and> pipe \<noteq> []")
    case True
    then obtain x xs where p: "pipe = x # xs" by (cases pipe) auto
    have "MAX_EVENTS - Suc n = Suc (MAX_EVENTS - Suc (Suc n))" using True by arith
    then show ?thesis using 1 [OF True] True p by (subst process_notifications.simps) simp
  next
    case False
    then show ?thesis by (subst process_notifications.simps) (use False in auto)
  qed
qed

end
