(* ===== verification/Subscription_Properties.thy ===== *)
theory Subscription_Properties
  imports Dynamic_Subscriptions_Laws
begin

text \<open>Properties of \<open>restconf/DynamicSubscriptions.cpp\<close> over every interleaving of its operations.\<close>

text \<open>A concrete run for the witnesses: UUIDs are numbers, sysrepo accepts every subscription with id 7.\<close>

definition example_subscribe :: subscribe_call where
  "example_subscribe f stream stop start = Inr (7, None)"

definition example_input :: establish_input where
  "example_input = \<lparr>in_encoding = None, in_stream = Some ''NETCONF'', in_stream_filter_name = None, in_stop_time = None,
     in_stream_xpath_filter = None, in_stream_subtree_filter = None, in_replay_start_time = None\<rparr>"

definition example_table :: "nat dyn_subs" where
  "example_table = store_subscription 3 (SubscriptionData 7 JSON 3 ''alice'') DynamicSubscriptions_init"

definition example_connected :: "nat dyn_subs" where
  "example_connected = (update_data 0 (clientConnected (SubscriptionData 7 JSON 3 ''alice''), []) example_table)\<lparr>ds_streams := [0]\<rparr>"

abbreviation example_reachable :: "nat dyn_subs \<Rightarrow> bool" where
  "example_reachable \<equiv> subs_reachable ''root'' example_subscribe (\<lambda>_. ''u'') ''/streams/'' (\<lambda>_. Inr ())"

abbreviation example_establish :: "exn + (nat dyn_subs \<times> establish_output)" where
  "example_establish \<equiv> establishSubscription example_subscribe (\<lambda>_. ''u'') ''/streams/'' (Some ''alice'') 3 (Some ''http://h'') JSON
     example_input \<lparr>out_replay_start_time_revision = None, out_id = None, out_uri = None\<rparr> DynamicSubscriptions_init"

lemma example_established: "\<exists>out. example_establish = Inr (example_table, out)"
  by (simp add: establishSubscription_def getEncoding_def example_input_def makeStreamSubscription_def example_subscribe_def
      example_table_def catch_sysrepo_def)

lemma example_table_eq:
  "m_subscriptions example_table = [(3, 0)]" "ds_heap example_table = [0 \<mapsto> SubscriptionData 7 JSON 3 ''alice'']"
  "ds_streams example_table = []" "ds_next example_table = 1" "ds_terminations example_table = []"
  by (simp_all add: example_table_def store_subscription_def DynamicSubscriptions_init_def)

lemma example_table_reachable: "example_reachable example_table"
proof -
  obtain out where "example_establish = Inr (example_table, out)" using example_established by blast
  from subs_step.establish [OF this] show ?thesis by (rule subs_reachable.step [OF subs_reachable.init])
qed

lemma example_connect: "connect_stream ''root'' 3 (Some ''alice'') example_table = Inr (0, example_connected)"
  by (simp add: connect_stream_def getSubscriptionForUser_def example_table_eq may_access_def isReadyToAcceptClient_def
      SubscriptionData_fields example_connected_def)

lemma example_connected_reachable: "example_reachable example_connected"
  by (rule subs_reachable.step [OF example_table_reachable subs_step.connect [OF example_connect]])

section \<open>Access\<close>



text \<open>C10. A subscription established by a user can be consumed by that user and the NACM recovery user only, whatever
  happens between the two: no sequence of operations changes the owner of an object, and its address is not used again.\<close>

theorem only_owner_connects:
  assumes "subs_reachable ru subscribe us uri srt s"
    and "establishSubscription subscribe us uri (Some owner) u hst enc inp out s = Inr (s1, out')"
    and "map_of (m_subscriptions s1) u = Some a"
    and "(subs_step ru subscribe us uri srt)\<^sup>*\<^sup>* s1 s2"
    and "connect_stream ru u user s2 = Inr (a, s3)"
  shows "user = Some owner \<or> user = Some ru"
proof -
  note inv = subs_reachable_inv [OF assms(1)]
  have inv1: "subs_inv s1" by (rule subs_step_inv [OF subs_step.establish [OF assms(2)] inv])
  obtain d where d: "ds_heap s1 a = Some d" using subs_invD(3) [OF inv1 map_of_SomeD [OF assms(3)]] by blast
  have "sd_user d = owner"
    using assms(2,3) d fresh_address [OF inv] subs_invD(1) [OF inv]
    by (elim establishSubscription_Inr)
      (auto simp: store_subscription_def Let_def release_fields map_of_om_insert SubscriptionData_fields dest!: release_identity
        split: option.splits if_splits)
  moreover obtain e where e: "ds_heap s2 a = Some e" "may_access ru e user"
    using assms(5) by (auto simp: connect_stream_def getSubscriptionForUser_def split: option.splits if_splits)
  ultimately have "sd_user e = owner" using subs_steps_identity [OF assms(4) inv1 d] by (simp add: same_identity_def)
  then show ?thesis using e(2) by (auto simp: may_access_def)
qed

theorem only_owner_connects_witness:
  "(\<exists>out. example_establish = Inr (example_table, out)) \<and> connect_stream ''root'' 3 (Some ''alice'') example_table = Inr (0, example_connected) \<and>
   (Some ''alice'' = Some ''alice'' \<or> Some ''alice'' = Some ''root'')"
proof -
  obtain out where e: "example_establish = Inr (example_table, out)" using example_established by blast
  from only_owner_connects [OF subs_reachable.init e _ rtranclp.rtrancl_refl example_connect]
  show ?thesis using e example_connect by (simp add: example_table_eq)
qed

text \<open>C37. \<open>delete-subscription\<close> and \<open>kill-subscription\<close> remove one subscription with the given id and leave the others
  in the table; the caller is its owner, or the recovery user, who has to use \<open>kill-subscription\<close> for the
  subscriptions of others. A client that consumes the subscription keeps its object, otherwise it is destroyed.\<close>

theorem delete_authorised:
  assumes "subs_reachable ru subscribe us uri srt s" and "deleteSubscription ru srt user isKill (Some i) p s = Inr s'"
  shows "\<exists>u a d. map_of (m_subscriptions s) u = Some a \<and> ds_heap s a = Some d \<and> sd_id d = i \<and>
    (user = Some (sd_user d) \<or> user = Some ru \<and> isKill) \<and>
    map_of (m_subscriptions s') = (map_of (m_subscriptions s))(u := None) \<and>
    (\<forall>b. b \<noteq> a \<longrightarrow> ds_heap s' b = ds_heap s b) \<and> (ds_heap s' a = None \<longleftrightarrow> a \<notin> set (ds_streams s))"
proof -
  note inv = subs_reachable_inv [OF assms(1)]
  obtain u a d where f: "find_by_id i s = Some (u, a, d)" and acc: "may_access ru d user" "isKill \<or> user \<noteq> Some ru \<or> sd_user d = ru"
    and s': "s' = release a (s\<lparr>ds_terminations := ds_terminations s @ [(i, Some ''ietf-subscribed-notifications:no-such-subscription'')],
       m_subscriptions := om_erase (sd_uuid d) (m_subscriptions s)\<rparr>)" (is "_ = release a ?s")
    using assms(2) by (elim deleteSubscription_Inr) auto
  note m = find_by_id_Some [OF f]
  have u: "sd_uuid d = u" using subs_invD(3) [OF inv m(1)] m(2) by auto
  have look: "map_of (m_subscriptions s) u = Some a"
    using m(1) sorted_distinct [OF subs_invD(1) [OF inv]] by (simp add: map_of_eq_Some_iff)
  have gone: "a \<notin> mapped ?s" using erased_unmapped [OF inv m(1)] u by (simp add: mapped_def)
  have "map_of (m_subscriptions s') = (map_of (m_subscriptions s))(u := None)"
    unfolding s' using table.look_del [OF subs_invD(1) [OF inv], of u] u by (simp add: release_fields)
  moreover have "(\<forall>b. b \<noteq> a \<longrightarrow> ds_heap s' b = ds_heap s b) \<and> (ds_heap s' a = None \<longleftrightarrow> a \<notin> set (ds_streams s))"
    unfolding s' using gone m(2) by (auto simp: release_heap)
  moreover have "user = Some (sd_user d) \<or> user = Some ru \<and> isKill" using acc by (auto simp: may_access_def)
  ultimately show ?thesis using look m(2,3) by (intro exI [of _ u] exI [of _ a] exI [of _ d]) simp
qed

theorem delete_authorised_witness:
  "\<exists>s'. deleteSubscription ''root'' (\<lambda>_. Inr ()) (Some ''root'') True (Some 7) ''/p'' example_table = Inr s' \<and>
    m_subscriptions s' = []"
proof -
  obtain s' where s': "deleteSubscription ''root'' (\<lambda>_. Inr ()) (Some ''root'') True (Some 7) ''/p'' example_table = Inr s'"
    by (simp add: deleteSubscription_def getSubscriptionForUserById_def find_by_id_def example_table_eq SubscriptionData_fields may_access_def)
  obtain u a d where "map_of (m_subscriptions example_table) u = Some a"
      "map_of (m_subscriptions s') = (map_of (m_subscriptions example_table))(u := None)"
    using delete_authorised [OF example_table_reachable s'] by blast
  then have "map_of (m_subscriptions s') = Map.empty" by (auto simp: example_table_eq split: if_splits)
  then show ?thesis using s' by (simp add: map_of_eq_empty_iff)
qed

section \<open>Lifetime\<close>

text \<open>C38. No \<open>SubscriptionData\<close> leaks and none is used after its destruction: in every reachable state the objects
  that exist are exactly those the table or a stream refers to, and an object that is marked as consumed has a stream.\<close>

theorem no_leak:
  assumes "subs_reachable ru subscribe us uri srt s"
  shows "(ds_heap s a \<noteq> None \<longleftrightarrow> a \<in> snd ` set (m_subscriptions s) \<or> a \<in> set (ds_streams s)) \<and>
    (map_option sd_state (ds_heap s a) = Some ReceiverActive \<longrightarrow> a \<in> set (ds_streams s))"
proof -
  note inv = subs_reachable_inv [OF assms]
  have "a \<in> snd ` set (m_subscriptions s) \<Longrightarrow> ds_heap s a \<noteq> None" using subs_invD(3) [OF inv] by force
  then show ?thesis using subs_invD(5,6) [OF inv, of a] by (auto simp: object_ok_def mapped_def)
qed

theorem no_leak_witness: "ds_heap example_connected 0 \<noteq> None \<longleftrightarrow> 0 \<in> snd ` set (m_subscriptions example_connected) \<or> 0 \<in> set (ds_streams example_connected)"
  using no_leak [OF example_connected_reachable, of 0] by (rule conjunct1)

text \<open>When its client disconnects, a subscription of the table that is not terminating gets its inactivity timer
  started, and the expiry of that timer removes it from the table and destroys it, provided that sysrepo gave its id
  to no other subscription.\<close>

theorem inactivity_removes:
  assumes "subs_reachable ru subscribe us uri srt s" and "a \<in> set (ds_streams s)"
    and "map_of (m_subscriptions s) u = Some a" and "ds_heap s a = Some d" and "sd_state d \<noteq> Terminating"
    and "\<And>v b e. map_of (m_subscriptions s) v = Some b \<Longrightarrow> ds_heap s b = Some e \<Longrightarrow> sd_id e = sd_id d \<Longrightarrow> v = u"
  shows "map_of (m_subscriptions (timer_expired a (disconnect_stream a s))) = (map_of (m_subscriptions s))(u := None) \<and>
    ds_heap (timer_expired a (disconnect_stream a s)) a = None"
proof -
  note inv = subs_reachable_inv [OF assms(1)]
  let ?d = "clientDisconnected d"
  let ?s = "update_data a (?d\<lparr>sd_timer := Timer_Idle\<rparr>, []) (disconnect_stream a s)"
  have m: "(u, a) \<in> set (m_subscriptions s)" using assms(3) by (rule map_of_SomeD)
  then have "a \<in> mapped s" by (force simp: mapped_def)
  then have dis: "disconnect_stream a s = (update_data a (?d, []) s)\<lparr>ds_streams := remove1 a (ds_streams s)\<rparr>"
    using assms(4) by (simp add: disconnect_stream_def release_def update_data_def mapped_def)
  have dd: "sd_timer ?d = Timer_Armed True" "sd_id ?d = sd_id d"
    using assms(5) by (simp_all add: clientDisconnected_def inactivityStart_def)
  have t: "timer_expired a (disconnect_stream a s) = terminateSubscription (sd_id d) ?s"
    using dd by (simp add: timer_expired_def dis update_data_def Let_def)
  have h: "ds_heap ?s = (ds_heap s)(a \<mapsto> ?d\<lparr>sd_timer := Timer_Idle\<rparr>)" "m_subscriptions ?s = m_subscriptions s"
    by (simp_all add: dis update_data_def fun_eq_iff)
  have uniq: "e = (u, a)" if mem: "e \<in> set (m_subscriptions s)" and same: "map_option sd_id (ds_heap ?s (snd e)) = Some (sd_id d)" for e
  proof -
    have e: "map_of (m_subscriptions s) (fst e) = Some (snd e)"
      using mem sorted_distinct [OF subs_invD(1) [OF inv]] by (simp add: map_of_eq_Some_iff)
    obtain x where "ds_heap s (snd e) = Some x" "sd_id x = sd_id d"
      using same assms(4) dd(2) unfolding h by (cases "snd e = a") auto
    then have "fst e = u" by (rule assms(6) [OF e])
    then show ?thesis using e assms(3) by (simp add: prod_eq_iff)
  qed
  have dd': "sd_id (?d\<lparr>sd_timer := Timer_Idle\<rparr>) = sd_id d" using dd(2) by simp
  have f: "find_by_id (sd_id d) ?s = Some (u, a, ?d\<lparr>sd_timer := Timer_Idle\<rparr>)"
    by (rule find_by_id_unique) (use m dd' uniq in \<open>simp_all only: h fun_upd_same\<close>)
  let ?t = "update_data a (terminate (Some ''ietf-subscribed-notifications:no-such-subscription'') (?d\<lparr>sd_timer := Timer_Idle\<rparr>)) ?s"
  have tt: "timer_expired a (disconnect_stream a s) = release a (?t\<lparr>m_subscriptions := om_erase u (m_subscriptions s)\<rparr>)"
    unfolding t terminateSubscription_def f by (simp add: Let_def update_data_def dis)
  have "a \<notin> mapped (?t\<lparr>m_subscriptions := om_erase u (m_subscriptions s)\<rparr>)"
    using erased_unmapped [OF inv m] by (simp add: mapped_def)
  moreover have "a \<notin> set (remove1 a (ds_streams s))" using subs_invD(4) [OF inv] by simp
  ultimately show ?thesis
    unfolding tt using table.look_del [OF subs_invD(1) [OF inv], of u]
    by (simp add: release_fields release_heap) (simp add: update_data_def dis)
qed

lemma clientConnected_state: "sd_state (clientConnected d) = ReceiverActive"
  by (simp add: clientConnected_def)

theorem inactivity_removes_witness:
  "map_of (m_subscriptions (timer_expired 0 (disconnect_stream 0 example_connected))) = Map.empty \<and>
   ds_heap (timer_expired 0 (disconnect_stream 0 example_connected)) 0 = None"
proof -
  have c: "m_subscriptions example_connected = [(3, 0)]" "ds_streams example_connected = [0]"
    "ds_heap example_connected 0 = Some (clientConnected (SubscriptionData 7 JSON 3 ''alice''))"
    by (simp_all add: example_connected_def update_data_def example_table_eq)
  have "(map_of (m_subscriptions example_connected))(3 := None) = Map.empty" by (simp add: c fun_eq_iff)
  moreover have "v = 3" if "map_of (m_subscriptions example_connected) v = Some b" for v b
    using that by (simp add: c split: if_splits)
  ultimately show ?thesis
    using inactivity_removes [OF example_connected_reachable _ _ c(3)]
    by (metis c(1,2) clientConnected_state list.set_intros(1) map_of_Cons_code(2) sub_state.distinct(5))
qed

text \<open>The inactivity timer that the constructor starts has no effect: \<open>weak_from_this()\<close> is still empty there, so
  a subscription no client ever connects to stays in the table when that timer expires.\<close>

theorem initial_timer_dead:
  assumes "subs_reachable ru subscribe us uri srt s"
    and "establishSubscription subscribe us uri (Some owner) u hst enc inp out s = Inr (s1, out')"
  shows "\<exists>a d. map_of (m_subscriptions s1) u = Some a \<and> ds_heap s1 a = Some d \<and> sd_timer d \<noteq> Timer_Idle \<and>
    m_subscriptions (timer_expired a s1) = m_subscriptions s1 \<and> ds_heap (timer_expired a s1) a = Some (d\<lparr>sd_timer := Timer_Idle\<rparr>)"
proof -
  note inv = subs_reachable_inv [OF assms(1)]
  obtain i f where s1: "s1 = store_subscription u (SubscriptionData i f u owner) s"
    using assms(2) by (elim establishSubscription_Inr) auto
  note stored = store_subscription_fields [OF inv, of u "SubscriptionData i f u owner"]
  show ?thesis
    by (rule exI [of _ "ds_next s"], rule exI [of _ "SubscriptionData i f u owner"])
      (simp add: s1 stored timer_expired_def SubscriptionData_fields update_data_def)
qed

theorem initial_timer_dead_witness: "m_subscriptions (timer_expired 0 example_table) = m_subscriptions example_table"
proof -
  obtain out where "example_establish = Inr (example_table, out)" using example_established by blast
  from initial_timer_dead [OF subs_reachable.init this] show ?thesis
    by (auto simp: example_table_eq split: if_splits)
qed

text \<open>Deleting a subscription no client consumes terminates it in sysrepo twice: by the RPC itself, and without a
  reason by the destructor, because the RPC does not mark the object as terminating.\<close>

theorem delete_terminates_twice:
  assumes "subs_reachable ru subscribe us uri srt s" and "deleteSubscription ru srt user isKill (Some i) p s = Inr s'"
    and "find_by_id i s = Some (u, a, d)" and "a \<notin> set (ds_streams s)" and "sd_state d \<noteq> Terminating"
  shows "ds_terminations s' =
    ds_terminations s @ [(i, Some ''ietf-subscribed-notifications:no-such-subscription''), (i, None)]"
proof -
  note inv = subs_reachable_inv [OF assms(1)] and m = find_by_id_Some [OF assms(3)]
  have u: "sd_uuid d = u" using subs_invD(3) [OF inv m(1)] m(2) by auto
  have "s' = release a (s\<lparr>ds_terminations := ds_terminations s @ [(i, Some ''ietf-subscribed-notifications:no-such-subscription'')],
       m_subscriptions := om_erase u (m_subscriptions s)\<rparr>)"
    using assms(2,3) u by (elim deleteSubscription_Inr) simp
  then show ?thesis using assms(4,5) m erased_unmapped [OF inv m(1)]
    by (simp add: release_def update_data_def terminate_def inactivityCancel_def)
qed

theorem delete_terminates_twice_witness:
  "\<exists>s'. deleteSubscription ''root'' (\<lambda>_. Inr ()) (Some ''alice'') False (Some 7) ''/p'' example_table = Inr s' \<and>
    ds_terminations s' = [(7, Some ''ietf-subscribed-notifications:no-such-subscription''), (7, None)]"
proof -
  have f: "find_by_id 7 example_table = Some (3, 0, SubscriptionData 7 JSON 3 ''alice'')"
    by (simp add: find_by_id_def example_table_eq SubscriptionData_fields)
  then obtain s' where s': "deleteSubscription ''root'' (\<lambda>_. Inr ()) (Some ''alice'') False (Some 7) ''/p'' example_table = Inr s'"
    by (simp add: deleteSubscription_def getSubscriptionForUserById_def SubscriptionData_fields may_access_def)
  show ?thesis using delete_terminates_twice [OF example_table_reachable s' f] s' by (simp add: example_table_eq SubscriptionData_fields)
qed

section \<open>Notifications\<close>

text \<open>One wake-up of the stream passes on the first 49 pending notifications, in order, and leaves the others for
  the next one; it ends however many are pending.\<close>

theorem process_notifications_batch: "process_notifications 0 pipe = (take 49 pipe, drop 49 pipe)"
  using process_notifications_take_drop [of 0 pipe] by (simp add: MAX_EVENTS_def)

end
