(* ===== verification/Data_Tree.thy ===== *)
theory Data_Tree
  imports Uri_Request
begin

text \<open>
  libyang data trees as the request handlers of \<open>restconf/Server.cpp\<close> see them. Siblings are a list;
  a node inside a tree, which the code holds as a \<open>DataNode\<close> that shares the tree, is a position: the
  index among the siblings followed by the indices among the children. What builds, looks up and
  prints trees is libyang's and comes in the record \<open>'n ly_data\<close>.
\<close>

section \<open>Trees\<close>

record meta_attr =
  me_module :: string
  me_name :: string
  me_value :: string
  me_internal :: bool

datatype 'n dnode = DNode (dn_schema: 'n) (dn_opaque: bool) (dn_value: string) (dn_meta: "meta_attr list") (dn_children: "'n dnode list")

type_synonym position = "nat list"

fun node_at :: "'n dnode list \<Rightarrow> position \<Rightarrow> 'n dnode option" where
  "node_at fs [] = None"
| "node_at fs [i] = (if i < length fs then Some (fs ! i) else None)"
| "node_at fs (i # j # p) = (if i < length fs then node_at (dn_children (fs ! i)) (j # p) else None)"

fun update_children :: "('n dnode list \<Rightarrow> 'n dnode list) \<Rightarrow> 'n dnode \<Rightarrow> 'n dnode" where
  "update_children f (DNode s opq v ms cs) = DNode s opq v ms (f cs)"

fun update_at :: "position \<Rightarrow> ('n dnode \<Rightarrow> 'n dnode) \<Rightarrow> 'n dnode list \<Rightarrow> 'n dnode list" where
  "update_at [] f fs = fs"
| "update_at [i] f fs = (if i < length fs then fs[i := f (fs ! i)] else fs)"
| "update_at (i # j # p) f fs = (if i < length fs then fs[i := update_children (update_at (j # p) f) (fs ! i)] else fs)"

text \<open>\<open>DataNode::newMeta\<close>.\<close>

fun add_meta :: "meta_attr \<Rightarrow> 'n dnode \<Rightarrow> 'n dnode" where
  "add_meta m (DNode s opq v ms cs) = DNode s opq v (ms @ [m]) cs"

definition user_meta :: "string \<Rightarrow> string \<Rightarrow> string \<Rightarrow> meta_attr" where
  "user_meta module nm v = \<lparr>me_module = module, me_name = nm, me_value = v, me_internal = False\<rparr>"

definition newMeta :: "string \<Rightarrow> string \<Rightarrow> string \<Rightarrow> position \<Rightarrow> 'n dnode list \<Rightarrow> 'n dnode list" where
  "newMeta module nm v pos tree = update_at pos (add_meta (user_meta module nm v)) tree"

lemma enumerate_size [termination_simp]: "(i, c) \<in> set (List.enumerate k cs) \<Longrightarrow> size c < Suc (size_list size cs)"
proof (induction cs arbitrary: k)
  case (Cons a cs)
  show ?case
  proof (cases "(i, c) \<in> set (List.enumerate (Suc k) cs)")
    case True
    show ?thesis using Cons.IH [OF True] by simp
  next
    case False
    then show ?thesis using Cons.prems by simp
  qed
qed simp

text \<open>\<open>DataNode::childrenDfs\<close>: a node and everything below it, with the positions.\<close>

fun childrenDfs :: "position \<Rightarrow> 'n dnode \<Rightarrow> (position \<times> 'n dnode) list" where
  "childrenDfs p (DNode s opq v ms cs) =
     (p, DNode s opq v ms cs) # concat (map (\<lambda>(i, c). childrenDfs (p @ [i]) c) (List.enumerate 0 cs))"

text \<open>\<open>DataNode::immediateChildren\<close> of the node at a position, with their positions.\<close>

definition immediateChildren :: "'n dnode list \<Rightarrow> position \<Rightarrow> (position \<times> 'n dnode) list" where
  "immediateChildren tree pos = (case node_at tree pos of
     None \<Rightarrow> [] | Some n \<Rightarrow> map (\<lambda>(i, c). (pos @ [i], c)) (List.enumerate 0 (dn_children n)))"

section \<open>libyang's operations on data\<close>

text \<open>
  \<open>newPath2\<close> gives the first node of the path and the position of the last one. \<open>parseSubtree\<close> adds what it
  parses below the node at a position. \<open>findPath\<close> and \<open>findXPath\<close> look up nodes from the one at a position. \<open>nodePath\<close> is \<open>DataNode::path\<close>.
  \<open>newPaths\<close> stands for a sequence of \<open>newPath\<close> calls that build an error or status tree.
\<close>

text \<open>A YANG module: name, namespace, revision, whether it is implemented, and the names of its RPCs.\<close>

record ly_module_info =
  lm_name :: string
  lm_ns :: string
  lm_revision :: "string option"
  lm_implemented :: bool
  lm_rpcs :: "string list"

record 'n ly_data =
  ld_ctx :: "'n ly_context"
  ld_modules :: "ly_module_info list"
  ld_parseData :: "string \<Rightarrow> data_format \<Rightarrow> exn + 'n dnode list"
  ld_newPath2 :: "string \<Rightarrow> exn + 'n dnode list \<times> position option"
  ld_newPath2_opaque :: "string \<Rightarrow> exn + 'n dnode list \<times> position option"
  ld_parseSubtree :: "'n dnode list \<Rightarrow> position \<Rightarrow> string \<Rightarrow> data_format \<Rightarrow> exn + 'n dnode list"
  ld_parseOp :: "'n dnode list \<Rightarrow> position \<Rightarrow> string \<Rightarrow> data_format \<Rightarrow> exn + 'n dnode list"
  ld_insertSibling :: "'n dnode list \<Rightarrow> 'n dnode list \<Rightarrow> 'n dnode list"
  ld_findPath :: "'n dnode list \<Rightarrow> position \<Rightarrow> string \<Rightarrow> exn + position option"
  ld_findXPath :: "'n dnode list \<Rightarrow> position \<Rightarrow> string \<Rightarrow> exn + position list"
  ld_nodePath :: "'n dnode list \<Rightarrow> position \<Rightarrow> string"
  ld_isKey :: "'n \<Rightarrow> bool"
  ld_hasInput :: "'n \<Rightarrow> bool"
  ld_isImplicitDefault :: "'n dnode \<Rightarrow> bool"
  ld_anyNode :: "'n dnode \<Rightarrow> exn + 'n dnode option"
  ld_printJSON :: "'n dnode \<Rightarrow> string"
  ld_validateOp :: "'n dnode list \<Rightarrow> position \<Rightarrow> 'n dnode list \<Rightarrow> ly_error + 'n dnode list"
  ld_getErrors :: "ly_error \<Rightarrow> (string \<times> string option) list"
  ld_newPaths :: "(string \<times> string option) list \<Rightarrow> exn + unit"

text \<open>The dereference of an optional, undefined when it is empty.\<close>

definition deref :: "string \<Rightarrow> 'a option \<Rightarrow> exn + 'a" where
  "deref loc x = (case x of Some a \<Rightarrow> Inr a | None \<Rightarrow> Inl (Undefined loc))"

lemma deref_Inr_iff [simp]: "deref w x = Inr a \<longleftrightarrow> x = Some a"
  by (simp add: deref_def split: option.splits)

section \<open>Laws\<close>

lemma update_children_simps [simp]:
  "dn_children (update_children f n) = f (dn_children n)" "dn_schema (update_children f n) = dn_schema n"
  "dn_value (update_children f n) = dn_value n" "dn_meta (update_children f n) = dn_meta n"
  "dn_opaque (update_children f n) = dn_opaque n"
  by (cases n; simp)+

lemma add_meta_simps [simp]:
  "dn_children (add_meta m n) = dn_children n" "dn_schema (add_meta m n) = dn_schema n"
  "dn_value (add_meta m n) = dn_value n" "dn_meta (add_meta m n) = dn_meta n @ [m]" "dn_opaque (add_meta m n) = dn_opaque n"
  by (cases n; simp)+

lemma node_at_update_same: "node_at (update_at p f fs) p = map_option f (node_at fs p)"
  by (induction p f fs rule: update_at.induct) auto

lemma update_at_compose: "update_at p g (update_at p f fs) = update_at p (g \<circ> f) fs"
proof (induction p f fs rule: update_at.induct)
  case (3 i j p f fs)
  show ?case
  proof (cases "i < length fs")
    case True
    obtain s opq v ms cs where n: "fs ! i = DNode s opq v ms cs" by (cases "fs ! i")
    show ?thesis using True 3 [OF True] n by simp
  qed simp
qed auto

end
