(* ===== verification/Server_State.thy ===== *)
theory Server_State
  imports Data_Tree Dynamic_Subscriptions
begin

text \<open>
  What a request handler of \<open>restconf/Server.cpp\<close> reads and changes: the sysrepo session, the calls made
  to sysrepo so far, the HTTP responses written so far and the dynamic subscriptions. A handler is a
  function on this state that returns or throws; the state survives an exception, as in the program.
\<close>

section \<open>Actions\<close>

type_synonym ('s, 'a) action = "'s \<Rightarrow> (exn + 'a) \<times> 's"

definition ret :: "'a \<Rightarrow> ('s, 'a) action" where
  "ret a s = (Inr a, s)"

definition liftE :: "exn + 'a \<Rightarrow> ('s, 'a) action" where
  "liftE r s = (r, s)"

definition bindA :: "('s, 'a) action \<Rightarrow> ('a \<Rightarrow> ('s, 'b) action) \<Rightarrow> ('s, 'b) action" where
  "bindA m f s = (case m s of (Inl e, s') \<Rightarrow> (Inl e, s') | (Inr a, s') \<Rightarrow> f a s')"

text \<open>\<open>try { m } catch\<close>: the handlers of the catch clauses give \<open>None\<close> for an exception none of them names.\<close>

definition catchA :: "('s, 'a) action \<Rightarrow> (exn \<Rightarrow> ('s, 'a) action option) \<Rightarrow> ('s, 'a) action" where
  "catchA m h s = (case m s of
      (Inr a, s') \<Rightarrow> (Inr a, s')
    | (Inl e, s') \<Rightarrow> (case h e of None \<Rightarrow> (Inl e, s') | Some k \<Rightarrow> k s'))"

text \<open>A scope with a destructor that runs however the scope is left.\<close>

definition finallyA :: "('s, 'a) action \<Rightarrow> ('s \<Rightarrow> 's) \<Rightarrow> ('s, 'a) action" where
  "finallyA m d s = (case m s of (r, s') \<Rightarrow> (r, d s'))"

text \<open>A loop over a collection, with an accumulator.\<close>

fun foldA :: "('b \<Rightarrow> 'a \<Rightarrow> ('s, 'b) action) \<Rightarrow> 'b \<Rightarrow> 'a list \<Rightarrow> ('s, 'b) action" where
  "foldA f b [] = ret b"
| "foldA f b (x # xs) = bindA (f b x) (\<lambda>b'. foldA f b' xs)"

lemma ret_apply [simp]: "ret a s = (Inr a, s)"
  by (simp add: ret_def)

lemma liftE_apply [simp]: "liftE r s = (r, s)"
  by (simp add: liftE_def)

section \<open>Requests and responses\<close>

text \<open>\<open>path\<close> is the percent-decoded path of \<open>nghttp2::asio_http2::uri_ref\<close>, \<open>raw_path\<close> the one of the request line.\<close>

record http_request =
  http_method :: string
  http_path :: string
  http_raw_path :: string
  http_raw_query :: string
  http_header :: header_map
  http_remote :: string

datatype print_defaults = Defaults_Explicit | Defaults_All | Defaults_Trim | Defaults_AllTag

text \<open>
  Bodies as what is printed: text, a data tree with its format and the flags for default values, or a
  tree of errors or status built by \<open>newPath\<close> calls, in the order of the calls.
\<close>

datatype 'n http_body =
    No_Body
  | Text_Body string
  | Data_Body data_format "'n dnode list" print_defaults
  | Paths_Body data_format "(string \<times> string option) list"
  | Envelope_Body data_format string "'n dnode list" "(string \<times> string option) list"
  | Yang_Body string
  | Event_Stream_Body

record 'n http_response =
  status :: int
  headers :: header_map
  body :: "'n http_body"

section \<open>sysrepo\<close>

datatype get_options = Get_Default | OperNoConfig | OperNoState

datatype 'n sr_operation =
    Sr_GetData string nat get_options
  | Sr_EditBatch "'n dnode list"
  | Sr_ApplyChanges
  | Sr_ReplaceConfig "'n dnode list"
  | Sr_Lock
  | Sr_Unlock
  | Sr_SendRPC "'n dnode list"
  | Sr_CheckNacm "'n dnode list"
  | Sr_OnNotification string "string option" "nat option" "nat option"

text \<open>A call with the datastore and the NACM user of the session at that moment.\<close>

record 'n sr_call =
  call_ds :: sr_datastore
  call_user :: "string option"
  call_op :: "'n sr_operation"

text \<open>
  \<open>w_authDelay\<close> is set while the response to a failed authentication waits for its timer.
  What sysrepo answers may depend on everything it was asked before; the last call is the one answered.
\<close>

record 'n sysrepo =
  sr_data :: "'n sr_call list \<Rightarrow> exn + 'n dnode list"
  sr_done :: "'n sr_call list \<Rightarrow> exn + unit"
  sr_permitted :: "'n sr_call list \<Rightarrow> exn + bool"

record ('n, 'u) world =
  w_sess :: sr_session
  w_calls :: "'n sr_call list"
  w_responses :: "'n http_response list"
  w_authDelay :: "nat option"
  w_subs :: "'u dyn_subs"

type_synonym ('n, 'u, 'a) server_action = "(('n, 'u) world, 'a) action"

definition record_call :: "'n sr_operation \<Rightarrow> ('n, 'u) world \<Rightarrow> ('n, 'u) world" where
  "record_call c w = w\<lparr>w_calls := w_calls w @ [\<lparr>call_ds = activeDatastore (w_sess w), call_user = nacmUser (w_sess w), call_op = c\<rparr>]\<rparr>"

definition ask :: "('n sr_call list \<Rightarrow> exn + 'a) \<Rightarrow> 'n sr_operation \<Rightarrow> ('n, 'u, 'a) server_action" where
  "ask answer c w = (let w' = record_call c w in (answer (w_calls w'), w'))"

definition sess_getData :: "'n sysrepo \<Rightarrow> string \<Rightarrow> nat \<Rightarrow> get_options \<Rightarrow> ('n, 'u, 'n dnode list) server_action" where
  "sess_getData sr path depth opts = ask (sr_data sr) (Sr_GetData path depth opts)"

definition sess_editBatch :: "'n sysrepo \<Rightarrow> 'n dnode list \<Rightarrow> ('n, 'u, unit) server_action" where
  "sess_editBatch sr edit = ask (sr_done sr) (Sr_EditBatch edit)"

definition sess_applyChanges :: "'n sysrepo \<Rightarrow> ('n, 'u, unit) server_action" where
  "sess_applyChanges sr = ask (sr_done sr) Sr_ApplyChanges"

definition sess_replaceConfig :: "'n sysrepo \<Rightarrow> 'n dnode list \<Rightarrow> ('n, 'u, unit) server_action" where
  "sess_replaceConfig sr config = ask (sr_done sr) (Sr_ReplaceConfig config)"

definition sess_sendRPC :: "'n sysrepo \<Rightarrow> 'n dnode list \<Rightarrow> ('n, 'u, 'n dnode list) server_action" where
  "sess_sendRPC sr rpc = ask (sr_data sr) (Sr_SendRPC rpc)"

definition sess_checkNacmOperation :: "'n sysrepo \<Rightarrow> 'n dnode list \<Rightarrow> ('n, 'u, bool) server_action" where
  "sess_checkNacmOperation sr rpc = ask (sr_permitted sr) (Sr_CheckNacm rpc)"

definition sess_switchDatastore :: "sr_datastore \<Rightarrow> ('n, 'u, unit) server_action" where
  "sess_switchDatastore ds w = (Inr (), w\<lparr>w_sess := switchDatastore ds (w_sess w)\<rparr>)"

text \<open>\<open>sysrepo::Lock\<close>: its destructor unlocks.\<close>

definition with_lock :: "'n sysrepo \<Rightarrow> ('n, 'u, 'a) server_action \<Rightarrow> ('n, 'u, 'a) server_action" where
  "with_lock sr m = bindA (ask (sr_done sr) Sr_Lock) (\<lambda>_. finallyA m (record_call Sr_Unlock))"

definition respond :: "int \<Rightarrow> header_map \<Rightarrow> 'n http_body \<Rightarrow> ('n, 'u, unit) server_action" where
  "respond st hs b w = (Inr (), w\<lparr>w_responses := w_responses w @ [\<lparr>status = st, headers = hs, body = b\<rparr>]\<rparr>)"

section \<open>Invariants of actions\<close>

text \<open>An action keeps an invariant of the state whether it returns or throws.\<close>

definition keeps :: "('s \<Rightarrow> bool) \<Rightarrow> ('s, 'a) action \<Rightarrow> bool" where
  "keeps I m \<longleftrightarrow> (\<forall>s. I s \<longrightarrow> I (snd (m s)))"

lemma keepsI: "(\<And>s. I s \<Longrightarrow> I (snd (m s))) \<Longrightarrow> keeps I m"
  by (simp add: keeps_def)

lemma keepsD: "keeps I m \<Longrightarrow> I s \<Longrightarrow> I (snd (m s))"
  by (simp add: keeps_def)

named_theorems keeps_intros \<open>actions that keep an invariant\<close>

lemma keeps_ret [keeps_intros]: "keeps I (ret a)"
  by (rule keepsI) simp

lemma keeps_liftE [keeps_intros]: "keeps I (liftE r)"
  by (rule keepsI) simp

lemma keeps_bindA [keeps_intros]: "keeps I m \<Longrightarrow> (\<And>a. keeps I (f a)) \<Longrightarrow> keeps I (bindA m f)"
  by (rule keepsI) (simp add: bindA_def keeps_def split: prod.split sum.split, metis snd_conv)

lemma keeps_catchA [keeps_intros]: "keeps I m \<Longrightarrow> (\<And>e k. h e = Some k \<Longrightarrow> keeps I k) \<Longrightarrow> keeps I (catchA m h)"
  by (rule keepsI) (simp add: catchA_def keeps_def split: prod.split sum.split option.split, metis snd_conv)

lemma keeps_finallyA: "keeps I m \<Longrightarrow> (\<And>s. I s \<Longrightarrow> I (d s)) \<Longrightarrow> keeps I (finallyA m d)"
  by (rule keepsI) (simp add: finallyA_def keeps_def split: prod.split, metis snd_conv)

lemma keeps_foldA: "(\<And>b x. x \<in> set xs \<Longrightarrow> keeps I (f b x)) \<Longrightarrow> keeps I (foldA f b xs)"
  by (induction xs arbitrary: b) (auto intro: keeps_intros)

lemma keeps_if [keeps_intros]: "keeps I m \<Longrightarrow> keeps I n \<Longrightarrow> keeps I (if b then m else n)"
  by simp

lemma keeps_case_option [keeps_intros]:
  "keeps I m \<Longrightarrow> (\<And>a. x = Some a \<Longrightarrow> keeps I (f a)) \<Longrightarrow> keeps I (case x of None \<Rightarrow> m | Some a \<Rightarrow> f a)"
  by (cases x) simp_all

lemma keeps_case_prod [keeps_intros]: "(\<And>a b. x = (a, b) \<Longrightarrow> keeps I (f a b)) \<Longrightarrow> keeps I (case x of (a, b) \<Rightarrow> f a b)"
  by (cases x) simp

end
