(* ===== verification/Server_Errors.thy ===== *)
theory Server_Errors
  imports Server_State
begin

text \<open>
  Responses and errors of \<open>restconf/Server.cpp\<close>: headers, the error documents of RFC 8040 and RFC 8072, and
  \<open>withRestconfExceptions\<close>, which maps exceptions to them.
\<close>

text \<open>What the handlers get from libyang, sysrepo and the names of the grammar tokens.\<close>

record 'n server_env =
  env_what :: "token \<Rightarrow> string"
  env_ly :: "'n ly_data"
  env_sr :: "'n sysrepo"

abbreviation env_ctx :: "'n server_env \<Rightarrow> 'n ly_context" where
  "env_ctx E \<equiv> ld_ctx (env_ly E)"

section \<open>Headers\<close>

definition CORS :: "string \<times> string" where
  "CORS = (''access-control-allow-origin'', ''*'')"

definition ALLOW_GET_HEAD_OPTIONS :: "string \<times> string" where
  "ALLOW_GET_HEAD_OPTIONS = (''allow'', ''GET, HEAD, OPTIONS'')"

definition contentType_mime :: "string \<Rightarrow> string \<times> string" where
  "contentType_mime mimeType = (''content-type'', mimeType)"

definition contentType :: "data_format \<Rightarrow> string \<times> string" where
  "contentType dataFormat = contentType_mime (asMimeType dataFormat)"

abbreviation TEXT_PLAIN :: "string \<times> string" where
  "TEXT_PLAIN \<equiv> contentType_mime ''text/plain''"

text \<open>A \<open>std::set\<close> is iterated in order.\<close>

definition httpOptionsHeaders :: "string set \<Rightarrow> header_map" where
  "httpOptionsHeaders allowedHttpMethods =
     mm_of_list ((''allow'', join '', '' (sorted_list_of_set allowedHttpMethods)) #
       (if ''PATCH'' \<in> allowedHttpMethods
        then [(''accept-patch'', ''application/yang-data+json, application/yang-data+xml, application/yang-patch+xml, application/yang-patch+json'')]
        else []))"

definition merge_headers :: "header_map \<Rightarrow> header_map \<Rightarrow> header_map" where
  "merge_headers hs extra = foldl (\<lambda>m (k, v). mm_insert k v m) hs extra"

section \<open>Error documents\<close>

text \<open>The \<open>newPath\<close> calls on the container of errors, in order.\<close>

definition error_paths :: "error_response \<Rightarrow> (string \<times> string option) list" where
  "error_paths e =
     [(''error[1]/error-type'', Some (errorType e)), (''error[1]/error-tag'', Some (errorTag e)), (''error[1]/error-message'', Some (errorMessage e))] @
     (case errorPath e of None \<Rightarrow> [] | Some p \<Rightarrow> [(''error[1]/error-path'', Some p)]) @
     (case errorInfo e of
        None \<Rightarrow> []
      | Some i \<Rightarrow> (''/rousette:'' @ containerName i, None) # map (\<lambda>(nm, v). (nm, Some v)) (leafs i) @ [(''error[1]/error-info'', None)])"

definition rejectWithErrorImpl :: "'n server_env \<Rightarrow> (string \<times> string option) list \<Rightarrow> data_format \<Rightarrow> http_request \<Rightarrow> error_response \<Rightarrow>
    ('n, 'u, unit) server_action" where
  "rejectWithErrorImpl E container dataFormat req e =
     (let doc = container @ error_paths e in
      bindA (liftE (ld_newPaths (env_ly E) doc)) (\<lambda>_.
      bindA (liftE (if code e = 405
                    then bindE (allowedHttpMethodsForUri (env_what E) (env_ctx E) (http_path req)) (\<lambda>ms. Inr (httpOptionsHeaders ms))
                    else Inr [])) (\<lambda>extra.
        respond (code e) (merge_headers (mm_of_list [contentType dataFormat, CORS]) extra) (Paths_Body dataFormat doc))))"

definition rejectWithError :: "'n server_env \<Rightarrow> data_format \<Rightarrow> http_request \<Rightarrow> error_response \<Rightarrow> ('n, 'u, unit) server_action" where
  "rejectWithError E dataFormat req e = rejectWithErrorImpl E [(''/ietf-restconf:errors'', None)] dataFormat req e"

text \<open>The two overloads of \<open>rejectYangPatch\<close>: with the patch id only, and with the id of the edit.\<close>

definition rejectYangPatch :: "'n server_env \<Rightarrow> string \<Rightarrow> data_format \<Rightarrow> http_request \<Rightarrow> error_response \<Rightarrow> ('n, 'u, unit) server_action" where
  "rejectYangPatch E patchId dataFormat req e =
     rejectWithErrorImpl E [(''/ietf-yang-patch:yang-patch-status/errors'', None), (''patch-id'', Some patchId)] dataFormat req e"

definition rejectYangPatchEdit :: "'n server_env \<Rightarrow> string \<Rightarrow> string \<Rightarrow> data_format \<Rightarrow> http_request \<Rightarrow> error_response \<Rightarrow>
    ('n, 'u, unit) server_action" where
  "rejectYangPatchEdit E patchId editId dataFormat req e =
     rejectWithErrorImpl E
       [(''/ietf-yang-patch:yang-patch-status/edit-status/edit[edit-id='' @ [quote] @ editId @ [quote] @ '']/errors'', None),
        (''patch-id'', Some patchId)] dataFormat req e"

section \<open>Exceptions of a handler\<close>

record request_context =
  rc_req :: http_request
  rc_dataFormat :: data_encoding
  rc_restconfRequest :: restconf_request
  rc_payload :: string

definition is_action_path :: "'n ly_context \<Rightarrow> string \<Rightarrow> exn + bool" where
  "is_action_path ctx path =
     (if path = ''/'' then Inr False
      else (case ly_findPath ctx path of Inl e \<Rightarrow> Inl (Libyang_Error e) | Inr n \<Rightarrow> Inr (ly_nodeType ctx n = Action)))"

text \<open>The catch clauses; an exception no clause names gives \<open>None\<close>. \<open>libyang::Error\<close> without a code is not caught.\<close>

definition restconfExceptions :: "'n server_env \<Rightarrow> (error_response \<Rightarrow> ('n, 'u, unit) server_action) \<Rightarrow> request_context \<Rightarrow>
    exn \<Rightarrow> ('n, 'u, unit) server_action option" where
  "restconfExceptions E reject rc e = (case e of
      Error_Response r \<Rightarrow> Some (reject r)
    | Libyang_Error (LyError (Some Ly_ValidationFailure) w) \<Rightarrow>
        Some (reject (ErrorResponse 400 ''protocol'' ''invalid-value'' (''Validation failure: '' @ w) None))
    | Libyang_Error (LyError (Some Ly_Other) w) \<Rightarrow>
        Some (reject (ErrorResponse 500 ''application'' ''operation-failed'' (''Internal server error due to libyang exception: '' @ w) None))
    | Sysrepo_Error Unauthorized w \<Rightarrow>
        Some (reject (ErrorResponse 403 ''application'' ''access-denied'' ''Access denied.'' None))
    | Sysrepo_Error NotFound w \<Rightarrow>
        Some (reject (ErrorResponse 400 ''protocol'' ''invalid-value'' w None))
    | Sysrepo_Error ItemAlreadyExists w \<Rightarrow>
        Some (reject (ErrorResponse 409 ''application'' ''resource-denied'' ''Resource already exists.'' None))
    | Sysrepo_Error ValidationFailed w \<Rightarrow>
        Some (bindA (liftE (is_action_path (env_ctx E) (req_path (rc_restconfRequest rc)))) (\<lambda>isAction.
          reject (ErrorResponse 400 ''application'' ''operation-failed''
            (''Validation failed. Invalid input data'' @ (if isAction then '' or the action node is not present'' else []) @ ''.'') None)))
    | Sysrepo_Error _ w \<Rightarrow>
        Some (reject (ErrorResponse 500 ''application'' ''operation-failed'' (''Internal server error due to sysrepo exception: '' @ w) None))
    | _ \<Rightarrow> None)"

definition withRestconfExceptions :: "'n server_env \<Rightarrow> (request_context \<Rightarrow> ('n, 'u, unit) server_action) \<Rightarrow>
    (data_format \<Rightarrow> http_request \<Rightarrow> error_response \<Rightarrow> ('n, 'u, unit) server_action) \<Rightarrow> request_context \<Rightarrow> ('n, 'u, unit) server_action" where
  "withRestconfExceptions E func reject rc =
     catchA (func rc) (restconfExceptions E (reject (df_response (rc_dataFormat rc)) (rc_req rc)) rc)"

section \<open>Looking up leafs\<close>

definition isTerm :: "'n ly_context \<Rightarrow> 'n dnode \<Rightarrow> bool" where
  "isTerm ctx n \<longleftrightarrow> \<not> dn_opaque n \<and> ly_nodeType ctx (dn_schema n) \<in> {Leaf, Leaflist}"

text \<open>\<open>findPath\<close> with the node it finds.\<close>

definition findNode :: "'n ly_data \<Rightarrow> 'n dnode list \<Rightarrow> position \<Rightarrow> string \<Rightarrow> exn + (position \<times> 'n dnode) option" where
  "findNode ly tree pos path = bindE (ld_findPath ly tree pos path) (\<lambda>r.
     case r of None \<Rightarrow> Inr None | Some p \<Rightarrow> bindE (deref ''findPath'' (node_at tree p)) (\<lambda>n. Inr (Some (p, n))))"

definition childLeafValue :: "'n ly_data \<Rightarrow> 'n dnode list \<Rightarrow> position \<Rightarrow> string \<Rightarrow> exn + string" where
  "childLeafValue ly tree pos childName =
     bindE (findNode ly tree pos childName) (\<lambda>child.
       case child of
         Some (_, c) \<Rightarrow> if isTerm (ld_ctx ly) c then Inr (dn_value c)
           else throw_error 400 ''protocol'' ''invalid-value'' (''Expected data node '' @ [quote] @ childName @ [quote] @ '' not found.'')
       | None \<Rightarrow> throw_error 400 ''protocol'' ''invalid-value'' (''Expected data node '' @ [quote] @ childName @ [quote] @ '' not found.''))"

text \<open>\<open>asTerm().valueStr()\<close>: libyang throws for a node that is no leaf or leaf-list.\<close>

definition termValue :: "'n ly_context \<Rightarrow> 'n dnode \<Rightarrow> exn + string" where
  "termValue ctx n = (if isTerm ctx n then Inr (dn_value n) else Inl (Libyang_Error (LyError None ''asTerm'')))"

end
