(* ===== verification/Server_Edit.thy ===== *)
theory Server_Edit
  imports Server_Errors
begin

text \<open>
  The edits of \<open>restconf/Server.cpp\<close>: comparison of list keys of the URI with those of the data, \<open>insert\<close> and
  \<open>point\<close>, the check for meta attributes, and the edit trees of PUT, PATCH and YANG patch.
\<close>

section \<open>Keys\<close>

definition isSameNode :: "'n ly_context \<Rightarrow> 'n dnode \<Rightarrow> path_segment \<Rightarrow> exn + bool" where
  "isSameNode ctx child lastPathSegment =
     bindE (deref ''isSameNode'' (ai_prefix (apiIdent lastPathSegment))) (\<lambda>pfx.
       Inr (ly_module ctx (dn_schema child) = pfx \<and> ly_name ctx (dn_schema child) = ai_identifier (apiIdent lastPathSegment)))"

text \<open>The value of the node that \<open>newPath2\<close> creates, in libyang's canonical form.\<close>

definition createdValue :: "'n ly_data \<Rightarrow> string \<Rightarrow> exn + string" where
  "createdValue ly path = bindE (ld_newPath2 ly path) (\<lambda>(tree, pos).
     bindE (deref ''compareKeyValue'' pos) (\<lambda>p.
     bindE (deref ''compareKeyValue'' (node_at tree p)) (termValue (ld_ctx ly))))"

definition compareKeyValue :: "'n ly_data \<Rightarrow> string \<Rightarrow> string \<Rightarrow> exn + bool" where
  "compareKeyValue ly pathA pathB =
     bindE (createdValue ly pathA) (\<lambda>a. bindE (createdValue ly pathB) (\<lambda>b. Inr (a = b)))"

record key_mismatch =
  offendingNode :: position
  uriKeyValue :: "string option"

definition key_mismatch_message :: "'n ly_context \<Rightarrow> 'n dnode list \<Rightarrow> key_mismatch \<Rightarrow> exn + string" where
  "key_mismatch_message ctx tree m = (case uriKeyValue m of
      Some k \<Rightarrow> bindE (deref ''KeyMismatch'' (node_at tree (offendingNode m))) (\<lambda>n. bindE (termValue ctx n) (\<lambda>v.
        Inr (''List key mismatch between URI path ('' @ [quote] @ k @ [quote] @ '') and data ('' @ [quote] @ v @ [quote] @ '').'')))
    | None \<Rightarrow> Inr ''List key mismatch (key missing in the data).'')"

text \<open>One iteration over the keys of a list, with the index of the key.\<close>

definition checkListKey :: "'n ly_data \<Rightarrow> 'n dnode list \<Rightarrow> position \<Rightarrow> string \<Rightarrow> 'n list \<Rightarrow> string list \<Rightarrow> nat \<times> 'n \<Rightarrow> exn + key_mismatch option" where
  "checkListKey ly tree pos pathPrefix listKeys uriKeys ik =
     (let ctx = ld_ctx ly; i = fst ik; key = snd ik; names = map (ly_name ctx) listKeys in
      bindE (findNode ly tree pos (ly_module ctx key @ '':'' @ ly_name ctx key)) (\<lambda>keyNodeData.
        case keyNodeData of
          None \<Rightarrow> Inr (Some \<lparr>offendingNode = pos, uriKeyValue = None\<rparr>)
        | Some (keyPos, keyNode) \<Rightarrow>
            bindE (termValue ctx keyNode) (\<lambda>v.
              if i \<ge> length uriKeys then Inl (Undefined ''checkKeysMismatch'')
              else
                bindE (listKeyPredicate names (uriKeys[i := v])) (\<lambda>fromData.
                bindE (listKeyPredicate names uriKeys) (\<lambda>fromURI.
                bindE (compareKeyValue ly (pathPrefix @ fromData @ ''/'' @ ly_name ctx key) (pathPrefix @ fromURI @ ''/'' @ ly_name ctx key)) (\<lambda>same.
                  Inr (if same then None else Some \<lparr>offendingNode = keyPos, uriKeyValue = Some (uriKeys ! i)\<rparr>)))))))"

text \<open>The loop returns at the first mismatch.\<close>

fun checkListKeys :: "'n ly_data \<Rightarrow> 'n dnode list \<Rightarrow> position \<Rightarrow> string \<Rightarrow> 'n list \<Rightarrow> string list \<Rightarrow> (nat \<times> 'n) list \<Rightarrow> exn + key_mismatch option" where
  "checkListKeys ly tree pos pathPrefix listKeys uriKeys [] = Inr None"
| "checkListKeys ly tree pos pathPrefix listKeys uriKeys (ik # iks) =
     bindE (checkListKey ly tree pos pathPrefix listKeys uriKeys ik) (\<lambda>r.
       case r of Some m \<Rightarrow> Inr (Some m) | None \<Rightarrow> checkListKeys ly tree pos pathPrefix listKeys uriKeys iks)"

definition checkKeysMismatch :: "'n ly_data \<Rightarrow> 'n dnode list \<Rightarrow> position \<Rightarrow> 'n dnode \<Rightarrow> string \<Rightarrow> path_segment \<Rightarrow> exn + key_mismatch option" where
  "checkKeysMismatch ly tree pos node lyParentPath lastPathSegment =
     (let ctx = ld_ctx ly; pathPrefix = lyParentPath @ ''/'' @ name (apiIdent lastPathSegment); uriKeys = keys lastPathSegment in
      if ly_nodeType ctx (dn_schema node) = List_Node then
        (let listKeys = ly_keys ctx (dn_schema node) in
         checkListKeys ly tree pos pathPrefix listKeys uriKeys (List.enumerate 0 listKeys))
      else if ly_nodeType ctx (dn_schema node) = Leaflist then
        bindE (termValue ctx node) (\<lambda>v.
        bindE (leaflistKeyPredicate v) (\<lambda>fromData.
          case uriKeys of
            [] \<Rightarrow> Inl (Undefined ''checkKeysMismatch'')
          | k # _ \<Rightarrow>
              bindE (leaflistKeyPredicate k) (\<lambda>fromURI.
              bindE (compareKeyValue ly (pathPrefix @ fromData) (pathPrefix @ fromURI)) (\<lambda>same.
                Inr (if same then None else Some \<lparr>offendingNode = pos, uriKeyValue = Some k\<rparr>)))))
      else Inr None)"

section \<open>Insertion into ordered lists\<close>

definition yangInsert :: "'n ly_data \<Rightarrow> 'n dnode list \<Rightarrow> position \<Rightarrow> string \<Rightarrow> path_segment list option \<Rightarrow> exn + 'n dnode list" where
  "yangInsert ly tree pos whereTo point =
     (let ctx = ld_ctx ly in
      bindE (deref ''yangInsert'' (node_at tree pos)) (\<lambda>node.
        if \<not> isUserOrderedList ctx (dn_schema node) then
          throw_error 400 ''protocol'' ''invalid-value''
            (''Query parameter '' @ [quote] @ ''insert'' @ [quote] @ '' is valid only for inserting into lists or leaf-lists that are '' @
             [quote] @ ''ordered-by user'' @ [quote])
        else
          (let tree = newMeta ''yang'' ''insert'' whereTo pos tree in
           case point of
             None \<Rightarrow> Inr tree
           | Some segs \<Rightarrow>
               bindE (asLibyangSchemaNode ctx segs) (\<lambda>schema.
                 if schema \<noteq> Some (dn_schema node) then
                   throw_error_at 400 ''protocol'' ''invalid-value''
                     (''Query parameter '' @ [quote] @ ''point'' @ [quote] @ '' contains path to a different list'') (Some (ld_nodePath ly tree pos))
                 else if segs = [] then Inl (Undefined ''yangInsert'')
                 else if ly_nodeType ctx (dn_schema node) = List_Node then
                   bindE (listKeyPredicate (map (ly_name ctx) (ly_keys ctx (dn_schema node))) (keys (last segs))) (\<lambda>key.
                     Inr (newMeta ''yang'' ''key'' key pos tree))
                 else if ly_nodeType ctx (dn_schema node) = Leaflist then
                   (case keys (last segs) of [] \<Rightarrow> Inl (Undefined ''yangInsert'') | k # _ \<Rightarrow> Inr (newMeta ''yang'' ''value'' k pos tree))
                 else Inl (Logic_Error ''Node is neither a list nor a leaf-list'')))))"

text \<open>By the query parameters of a request.\<close>

definition insertTarget :: "query_params \<Rightarrow> exn + (string \<times> path_segment list option) option" where
  "insertTarget params = (case mm_find params ''insert'' of
      None \<Rightarrow> Inr None
    | Some First \<Rightarrow> Inr (Some (''first'', None))
    | Some Last \<Rightarrow> Inr (Some (''last'', None))
    | Some v \<Rightarrow>
        if v = Before \<or> v = After then
          (case mm_find params ''point'' of
             Some (PointParsed segs) \<Rightarrow> Inr (Some (if v = Before then ''before'' else ''after'', Some segs))
           | Some _ \<Rightarrow> Inl (Logic_Error ''bad_variant_access'')
           | None \<Rightarrow> Inl (Undefined ''yangInsert''))
        else Inr (Some ([], None)))"

definition yangInsertRequest :: "'n ly_data \<Rightarrow> query_params \<Rightarrow> 'n dnode list \<Rightarrow> position \<Rightarrow> exn + 'n dnode list" where
  "yangInsertRequest ly params tree pos = bindE (insertTarget params) (\<lambda>t.
     case t of None \<Rightarrow> Inr tree | Some (whereTo, point) \<Rightarrow> yangInsert ly tree pos whereTo point)"

text \<open>By the leafs of an edit of a YANG patch.\<close>

definition yangInsertEdit :: "(token \<Rightarrow> string) \<Rightarrow> 'n ly_data \<Rightarrow> 'n dnode list \<Rightarrow> position \<Rightarrow> string \<Rightarrow> string option \<Rightarrow> exn + 'n dnode list" where
  "yangInsertEdit what ly tree pos whereTo point = (case point of
      None \<Rightarrow> yangInsert ly tree pos whereTo None
    | Some p \<Rightarrow> bindE (asPathSegments what p) (\<lambda>segs. yangInsert ly tree pos whereTo (Some segs)))"

section \<open>Meta attributes of the input\<close>

definition controlModules :: "string set" where
  "controlModules = {''ietf-netconf'', ''yang'', ''sysrepo''}"

definition forbiddenMeta :: "meta_attr \<Rightarrow> bool" where
  "forbiddenMeta m \<longleftrightarrow> \<not> me_internal m \<and> me_module m \<in> controlModules"

text \<open>\<open>DataNode::meta\<close> is empty for an opaque node.\<close>

definition nodeMeta :: "'n dnode \<Rightarrow> meta_attr list" where
  "nodeMeta n = (if dn_opaque n then [] else dn_meta n)"

definition validateNodeMeta :: "'n ly_data \<Rightarrow> 'n dnode list \<Rightarrow> position \<times> 'n dnode \<Rightarrow> exn + unit" where
  "validateNodeMeta ly tree pn = (case find forbiddenMeta (nodeMeta (snd pn)) of
      None \<Rightarrow> Inr ()
    | Some m \<Rightarrow> throw_error_at 400 ''application'' ''invalid-value''
        (''Meta attribute '' @ [quote] @ me_module m @ '':'' @ me_name m @ [quote] @ '' not allowed.'') (Some (ld_nodePath ly tree (fst pn))))"

text \<open>The argument \<open>tree\<close> of the code is the first of the siblings; the traversal stays below it.\<close>

definition validateInputMetaAttributes :: "'n ly_data \<Rightarrow> 'n dnode list \<Rightarrow> exn + unit" where
  "validateInputMetaAttributes ly tree = (case tree of
      [] \<Rightarrow> Inl (Undefined ''validateInputMetaAttributes'')
    | t # _ \<Rightarrow> foldE (\<lambda>_. validateNodeMeta ly tree) () (childrenDfs [0] t))"

section \<open>Edits for PUT and PATCH\<close>

definition throwKeyMismatch :: "'n ly_data \<Rightarrow> 'n dnode list \<Rightarrow> key_mismatch option \<Rightarrow> exn + unit" where
  "throwKeyMismatch ly tree m = (case m of
      None \<Rightarrow> Inr ()
    | Some k \<Rightarrow> bindE (key_mismatch_message (ld_ctx ly) tree k) (\<lambda>msg.
        throw_error_at 400 ''protocol'' ''invalid-value'' msg (Some (ld_nodePath ly tree (offendingNode k)))))"

definition invalidNode :: "'n ly_data \<Rightarrow> 'n dnode list \<Rightarrow> position \<Rightarrow> exn + 'a" where
  "invalidNode ly tree pos = throw_error_at 400 ''protocol'' ''invalid-value'' ''Data contains invalid node.'' (Some (ld_nodePath ly tree pos))"

text \<open>The loop over the children of the parent node; the accumulator is \<open>replacementNode\<close>.\<close>

definition checkEditChild :: "'n ly_data \<Rightarrow> 'n dnode list \<Rightarrow> 'n dnode \<Rightarrow> string \<Rightarrow> path_segment \<Rightarrow> position option \<Rightarrow> position \<times> 'n dnode \<Rightarrow>
    exn + position option" where
  "checkEditChild ly tree node lyParentPath lastPathSegment replacementNode pc =
     bindE (isSameNode (ld_ctx ly) (snd pc) lastPathSegment) (\<lambda>same.
       if same then
         bindE (checkKeysMismatch ly tree (fst pc) (snd pc) lyParentPath lastPathSegment) (\<lambda>m.
         bindE (throwKeyMismatch ly tree m) (\<lambda>_. Inr (Some (fst pc))))
       else if isKeyNode (ld_ctx ly) (dn_schema node) (dn_schema (snd pc)) then Inr replacementNode
       else invalidNode ly tree (fst pc))"

definition createEditForPutAndPatch :: "(token \<Rightarrow> string) \<Rightarrow> 'n ly_data \<Rightarrow> string \<Rightarrow> string option \<Rightarrow> data_format \<Rightarrow> exn + 'n dnode list \<times> position" where
  "createEditForPutAndPatch what ly uriPathStr valueStr dataFormat =
     (let ctx = ld_ctx ly in
      bindE (asLibyangPathSplit what ctx uriPathStr) (\<lambda>(lyParentPath, lastPathSegment).
      bindE (case valueStr of
          None \<Rightarrow>
            bindE (asRestconfRequest what ctx ''PATCH'' uriPathStr []) (\<lambda>r. ld_newPath2 ly (req_path r))
        | Some v \<Rightarrow>
            if lyParentPath \<noteq> [] then
              bindE (ld_newPath2 ly lyParentPath) (\<lambda>(tree, pos).
              bindE (deref ''createEditForPutAndPatch'' pos) (\<lambda>p.
              bindE (ld_parseSubtree ly tree p v dataFormat) (\<lambda>tree.
              bindE (deref ''createEditForPutAndPatch'' (node_at tree p)) (\<lambda>node.
              bindE (foldE (checkEditChild ly tree node lyParentPath lastPathSegment) None (immediateChildren tree p)) (\<lambda>replacementNode.
                Inr (tree, replacementNode))))))
            else
              bindE (ld_parseData ly v dataFormat) (\<lambda>tree.
                case tree of
                  [] \<Rightarrow> Inr ([], None)
                | t # _ \<Rightarrow>
                    bindE (isSameNode ctx t lastPathSegment) (\<lambda>same.
                      if \<not> same then invalidNode ly tree [0]
                      else
                        bindE (checkKeysMismatch ly tree [0] t lyParentPath lastPathSegment) (\<lambda>m.
                        bindE (throwKeyMismatch ly tree m) (\<lambda>_. Inr (tree, Some [0]))))))
        (\<lambda>(editNode, replacementNode).
          case replacementNode of
            None \<Rightarrow> throw_error 400 ''protocol'' ''invalid-value'' ''Node indicated by URI is missing.''
          | Some p \<Rightarrow> Inr (editNode, p))))"

text \<open>The JSON text of the \<open>value\<close> of an edit, if it has one.\<close>

definition yangPatchValueAsJSON :: "'n ly_data \<Rightarrow> 'n dnode list \<Rightarrow> position \<Rightarrow> exn + string option" where
  "yangPatchValueAsJSON ly tree editContainer =
     bindE (findNode ly tree editContainer ''value'') (\<lambda>v.
       case v of
         None \<Rightarrow> Inr None
       | Some (p, n) \<Rightarrow> bindE (ld_anyNode ly n) (\<lambda>d.
           case d of
             Some valueDataNode \<Rightarrow> Inr (Some (ld_printJSON ly valueDataNode))
           | None \<Rightarrow> throw_error_at 400 ''protocol'' ''invalid-value'' ''Not a data node'' (Some (ld_nodePath ly tree p))))"

end
