(* ===== verification/Server_Write.thy ===== *)
theory Server_Write
  imports Server_Edit
begin

text \<open>The handlers of \<open>restconf/Server.cpp\<close> that write data: POST, PUT, PATCH and YANG patch.\<close>

section \<open>POST\<close>

text \<open>The created nodes without the list keys that \<open>newPath2\<close> creates with a list entry.\<close>

definition isCreatedKey :: "'n ly_data \<Rightarrow> 'n dnode \<Rightarrow> 'n dnode \<Rightarrow> bool" where
  "isCreatedKey ly node c \<longleftrightarrow> ly_nodeType (ld_ctx ly) (dn_schema node) = List_Node \<and>
     ly_nodeType (ld_ctx ly) (dn_schema c) = Leaf \<and> ld_isKey ly (dn_schema c)"

text \<open>The edit tree of a POST and the position of the one resource in it.\<close>

definition postEdit :: "'n ly_data \<Rightarrow> string \<Rightarrow> string \<Rightarrow> data_format \<Rightarrow> exn + 'n dnode list \<times> position" where
  "postEdit ly path payload fmt =
     bindE (if path = ''/'' then
              bindE (ld_parseData ly payload fmt) (\<lambda>tree. Inr (tree, [0], map (\<lambda>(i, n). ([i], n)) (List.enumerate 0 tree)))
            else
              bindE (ld_newPath2 ly path) (\<lambda>(tree, pos).
              bindE (deref ''processPost'' pos) (\<lambda>p.
              bindE (ld_parseSubtree ly tree p payload fmt) (\<lambda>tree.
                Inr (tree, p, immediateChildren tree p))))) (\<lambda>(tree, p, createdNodes).
     bindE (if tree = [] then Inr () else validateInputMetaAttributes ly tree) (\<lambda>_.
       case filter (\<lambda>(_, c). \<not> (case node_at tree p of None \<Rightarrow> False | Some node \<Rightarrow> isCreatedKey ly node c)) createdNodes of
         [(q, c)] \<Rightarrow> Inr (tree, q)
       | _ \<Rightarrow> throw_error 400 ''protocol'' ''invalid-value'' ''The message body MUST contain exactly one instance of the expected data resource.''))"

definition processPost :: "'n server_env \<Rightarrow> request_context \<Rightarrow> ('n, 'u, unit) server_action" where
  "processPost E rc =
     bindA (liftE (bindE (deref ''processPost'' (df_request (rc_dataFormat rc))) (\<lambda>fmt.
            bindE (postEdit (env_ly E) (req_path (rc_restconfRequest rc)) (rc_payload rc) fmt) (\<lambda>(edit, node).
              yangInsertRequest (env_ly E) (req_queryParams (rc_restconfRequest rc)) (newMeta ''ietf-netconf'' ''operation'' ''create'' node edit) node)))) (\<lambda>edit.
     bindA (sess_editBatch (env_sr E) edit) (\<lambda>_.
     bindA (sess_applyChanges (env_sr E)) (\<lambda>_.
       respond 201 (mm_of_list [contentType (df_response (rc_dataFormat rc)), CORS]) No_Body)))"

section \<open>YANG patch\<close>

text \<open>One edit; \<open>mergedEdits\<close> is empty as long as no edit was merged.\<close>

definition mergeEdit :: "'n ly_data \<Rightarrow> 'n dnode list \<Rightarrow> 'n dnode list \<Rightarrow> 'n dnode list" where
  "mergeEdit ly mergedEdits singleEdit = (if mergedEdits = [] then singleEdit else ld_insertSibling ly mergedEdits singleEdit)"

definition editPoint :: "'n ly_data \<Rightarrow> http_request \<Rightarrow> 'n dnode list \<Rightarrow> position \<Rightarrow> string \<Rightarrow> exn + string option" where
  "editPoint ly req patch editContainer whereTo =
     bindE (findNode ly patch editContainer ''point'') (\<lambda>pointNode.
       if whereTo = ''before'' \<or> whereTo = ''after'' then
         (case pointNode of
            None \<Rightarrow> throw_error 400 ''protocol'' ''invalid-value'' (''Required leaf '' @ [quote] @ ''point'' @ [quote] @ '' not set.'')
          | Some (_, n) \<Rightarrow> bindE (termValue (ld_ctx ly) n) (\<lambda>v. Inr (Some (http_path req @ v))))
       else if pointNode \<noteq> None then
         throw_error 400 ''protocol'' ''invalid-value''
           (''Leaf '' @ [quote] @ ''point'' @ [quote] @ '' must always come with leaf '' @ [quote] @ ''where'' @ [quote] @
            '' set to '' @ [quote] @ ''before'' @ [quote] @ '' or '' @ [quote] @ ''after'' @ [quote])
       else Inr None)"

definition processYangPatchEdit :: "'n server_env \<Rightarrow> request_context \<Rightarrow> 'n dnode list \<Rightarrow> position \<Rightarrow> 'n dnode list \<Rightarrow> exn + 'n dnode list" where
  "processYangPatchEdit E rc patch editContainer mergedEdits =
     (let ly = env_ly E in
      bindE (childLeafValue ly patch editContainer ''target'') (\<lambda>target.
      bindE (childLeafValue ly patch editContainer ''operation'') (\<lambda>operation.
      bindE (yangPatchValueAsJSON ly patch editContainer) (\<lambda>v.
      bindE (createEditForPutAndPatch (env_what E) ly (uriJoin (http_raw_path (rc_req rc)) target) v JSON) (\<lambda>(singleEdit, replacementNode).
      bindE (validateInputMetaAttributes ly singleEdit) (\<lambda>_.
      bindE (if operation = ''insert'' \<or> operation = ''move'' then
               bindE (childLeafValue ly patch editContainer ''where'') (\<lambda>whereTo.
               bindE (editPoint ly (rc_req rc) patch editContainer whereTo) (\<lambda>point.
                 yangInsertEdit (env_what E) ly
                   (newMeta ''ietf-netconf'' ''operation'' (if operation = ''insert'' then ''create'' else ''merge'') replacementNode singleEdit)
                   replacementNode whereTo point))
             else Inr (newMeta ''ietf-netconf'' ''operation'' operation replacementNode singleEdit)) (\<lambda>singleEdit.
        Inr (mergeEdit ly mergedEdits singleEdit))))))))"

text \<open>
  The loop of \<open>processYangPatchImpl\<close>: an exception of one edit is turned into a response there and then, and
  \<open>mergedEdits\<close> keeps the edits merged before.
\<close>

definition patchLoopBody :: "'n server_env \<Rightarrow> request_context \<Rightarrow> string \<Rightarrow> 'n dnode list \<Rightarrow> 'n dnode list \<Rightarrow> position \<Rightarrow>
    ('n, 'u, 'n dnode list) server_action" where
  "patchLoopBody E rc patchId patch mergedEdits editContainer =
     bindA (liftE (childLeafValue (env_ly E) patch editContainer ''edit-id'')) (\<lambda>editId.
       catchA (liftE (processYangPatchEdit E rc patch editContainer mergedEdits))
         (\<lambda>e. map_option (\<lambda>k. bindA k (\<lambda>_. ret mergedEdits))
            (restconfExceptions E (rejectYangPatchEdit E patchId editId (df_response (rc_dataFormat rc)) (rc_req rc)) rc e)))"

definition processYangPatchImpl :: "'n server_env \<Rightarrow> 'n dnode list \<Rightarrow> string \<Rightarrow> request_context \<Rightarrow> ('n, 'u, unit) server_action" where
  "processYangPatchImpl E patch patchId rc =
     bindA (liftE (ld_findXPath (env_ly E) patch [0] ''edit'')) (\<lambda>edits.
     bindA (foldA (patchLoopBody E rc patchId patch) [] edits) (\<lambda>mergedEdits.
       if mergedEdits \<noteq> [] then
         bindA (sess_editBatch (env_sr E) mergedEdits) (\<lambda>_. sess_applyChanges (env_sr E))
       else ret ()))"

definition processYangPatch :: "'n server_env \<Rightarrow> request_context \<Rightarrow> ('n, 'u, unit) server_action" where
  "processYangPatch E rc =
     bindA (liftE (bindE (deref ''processYangPatch'' (df_request (rc_dataFormat rc))) (\<lambda>fmt.
            bindE (ld_parseData (env_ly E) (rc_payload rc) fmt) (\<lambda>patch.
              if patch = [] then throw_error 400 ''protocol'' ''invalid-value'' ''Empty patch.''
              else bindE (childLeafValue (env_ly E) patch [0] ''patch-id'') (\<lambda>patchId. Inr (patch, patchId)))))) (\<lambda>(patch, patchId).
     bindA (withRestconfExceptions E (processYangPatchImpl E patch patchId) (rejectYangPatch E patchId) rc) (\<lambda>_.
       (let doc = [(''/ietf-yang-patch:yang-patch-status'', None), (''/ietf-yang-patch:yang-patch-status/patch-id'', Some patchId),
                   (''/ietf-yang-patch:yang-patch-status/ok'', None)] in
        bindA (liftE (ld_newPaths (env_ly E) doc)) (\<lambda>_.
          respond 200 (mm_of_list [contentType (df_response (rc_dataFormat rc)), CORS]) (Paths_Body (df_response (rc_dataFormat rc)) doc)))))"

section \<open>PUT and plain PATCH\<close>

definition processRootPutOrPatch :: "'n server_env \<Rightarrow> request_context \<Rightarrow> ('n, 'u, unit) server_action" where
  "processRootPutOrPatch E rc =
     bindA (liftE (bindE (deref ''processPutOrPlainPatch'' (df_request (rc_dataFormat rc))) (\<lambda>fmt.
            bindE (ld_parseData (env_ly E) (rc_payload rc) fmt) (\<lambda>edit.
              if edit = [] then throw_error 400 ''protocol'' ''malformed-message'' ''Empty data tree received.''
              else bindE (validateInputMetaAttributes (env_ly E) edit) (\<lambda>_. Inr edit))))) (\<lambda>edit.
       if http_method (rc_req rc) = ''PUT'' then
         bindA (sess_replaceConfig (env_sr E) edit) (\<lambda>_. respond 201 [CORS] No_Body)
       else
         bindA (sess_editBatch (env_sr E) edit) (\<lambda>_.
         bindA (sess_applyChanges (env_sr E)) (\<lambda>_. respond 204 [CORS] No_Body)))"

text \<open>The edit of the request, with the node to be replaced marked for PUT.\<close>

definition putOrPatchEdit :: "'n server_env \<Rightarrow> request_context \<Rightarrow> exn + 'n dnode list" where
  "putOrPatchEdit E rc =
     bindE (deref ''processPutOrPlainPatch'' (df_request (rc_dataFormat rc))) (\<lambda>fmt.
     bindE (createEditForPutAndPatch (env_what E) (env_ly E) (http_raw_path (rc_req rc)) (Some (rc_payload rc)) fmt) (\<lambda>(edit, replacementNode).
     bindE (validateInputMetaAttributes (env_ly E) edit) (\<lambda>_.
       if http_method (rc_req rc) = ''PUT'' then
         yangInsertRequest (env_ly E) (req_queryParams (rc_restconfRequest rc))
           (newMeta ''ietf-netconf'' ''operation'' ''replace'' replacementNode edit) replacementNode
       else Inr edit)))"

text \<open>The part of the handler that runs under the lock.\<close>

definition putOrPatchLocked :: "'n server_env \<Rightarrow> request_context \<Rightarrow> ('n, 'u, unit) server_action" where
  "putOrPatchLocked E rc =
     (let r = rc_restconfRequest rc; isPut = (http_method (rc_req rc) = ''PUT'') in
      bindA (sess_getData (env_sr E) (req_path r) 0 Get_Default) (\<lambda>existing.
        if http_method (rc_req rc) = ''PATCH'' \<and> existing = [] then
          liftE (throw_error 400 ''protocol'' ''invalid-value'' ''Target resource does not exist'')
        else
          bindA (liftE (putOrPatchEdit E rc)) (\<lambda>edit.
          bindA (sess_editBatch (env_sr E) edit) (\<lambda>_.
          bindA (sess_applyChanges (env_sr E)) (\<lambda>_.
            respond (if isPut then (if existing \<noteq> [] then 204 else 201) else 204) [CORS] No_Body)))))"

definition processPutOrPlainPatch :: "'n server_env \<Rightarrow> request_context \<Rightarrow> ('n, 'u, unit) server_action" where
  "processPutOrPlainPatch E rc =
     (if req_path (rc_restconfRequest rc) = ''/'' then processRootPutOrPatch E rc
      else (\<lambda>w. if activeDatastore (w_sess w) \<noteq> Candidate then with_lock (env_sr E) (putOrPatchLocked E rc) w
                else putOrPatchLocked E rc w))"

section \<open>Dispatch of a complete body\<close>

definition isYangPatch :: "http_request \<Rightarrow> bool" where
  "isYangPatch req \<longleftrightarrow> mm_find (http_header req) ''content-type'' \<in> {Some ''application/yang-patch+xml'', Some ''application/yang-patch+json''}"

definition processWrite :: "'n server_env \<Rightarrow> request_context \<Rightarrow> ('n, 'u, unit) server_action" where
  "processWrite E rc =
     (if req_type (rc_restconfRequest rc) = CreateChildren then withRestconfExceptions E (processPost E) (rejectWithError E) rc
      else if req_type (rc_restconfRequest rc) = MergeData \<and> isYangPatch (rc_req rc) then
        withRestconfExceptions E (processYangPatch E) (rejectWithError E) rc
      else withRestconfExceptions E (processPutOrPlainPatch E) (rejectWithError E) rc)"

text \<open>
  \<open>on_data\<close>: a nonempty chunk is appended to the payload, an empty one ends the body and runs \<open>process\<close>.
\<close>

fun on_data :: "(request_context \<Rightarrow> ('n, 'u, unit) server_action) \<Rightarrow> string \<Rightarrow> request_context \<Rightarrow> ('n, 'u, request_context) server_action" where
  "on_data process chunk rc =
     (if length chunk > 0 then ret (rc\<lparr>rc_payload := rc_payload rc @ chunk\<rparr>)
      else bindA (process rc) (\<lambda>_. ret rc))"

definition receive_body :: "(request_context \<Rightarrow> ('n, 'u, unit) server_action) \<Rightarrow> string list \<Rightarrow> request_context \<Rightarrow> ('n, 'u, request_context) server_action" where
  "receive_body process chunks rc = foldA (\<lambda>rc c. on_data process c rc) rc chunks"

end
