(* ===== verification/Server_Rpc.thy ===== *)
theory Server_Rpc
  imports Server_Write
begin

text \<open>Actions and RPCs of \<open>restconf/Server.cpp\<close>, with the RPCs that are handled by the server itself.\<close>

text \<open>What the dynamic subscriptions get from sysrepo and boost.\<close>

record 'u subs_env =
  se_recoveryUser :: string
  se_subscribe :: subscribe_call
  se_terminate :: "nat \<Rightarrow> exn + unit"
  se_makeUUID :: "'u dyn_subs \<Rightarrow> 'u"
  se_uuidString :: "'u \<Rightarrow> string"

definition netconfStreamRoot :: string where "netconfStreamRoot = ''/streams/''"
definition restconfRoot :: string where "restconfRoot = ''/restconf/''"
definition yangSchemaRoot :: string where "yangSchemaRoot = ''/yang/''"

section \<open>RPC input as the handlers read it\<close>

definition optionalLeaf :: "'n ly_data \<Rightarrow> 'n dnode list \<Rightarrow> position \<Rightarrow> string \<Rightarrow> exn + string option" where
  "optionalLeaf ly tree pos path = bindE (findNode ly tree pos path) (\<lambda>r.
     case r of None \<Rightarrow> Inr None | Some (_, n) \<Rightarrow> bindE (termValue (ld_ctx ly) n) (\<lambda>v. Inr (Some v)))"

definition optionalAny :: "'n ly_data \<Rightarrow> 'n dnode list \<Rightarrow> position \<Rightarrow> string \<Rightarrow> exn + string option" where
  "optionalAny ly tree pos path = bindE (findNode ly tree pos path) (\<lambda>r. Inr (map_option (\<lambda>(_, n). ld_printJSON ly n) r))"

definition establishInput :: "'n ly_data \<Rightarrow> 'n dnode list \<Rightarrow> position \<Rightarrow> exn + establish_input" where
  "establishInput ly tree pos =
     bindE (optionalLeaf ly tree pos ''encoding'') (\<lambda>encoding.
     bindE (optionalLeaf ly tree pos ''stream'') (\<lambda>stream.
     bindE (optionalLeaf ly tree pos ''stream-filter-name'') (\<lambda>filterName.
     bindE (optionalLeaf ly tree pos ''stop-time'') (\<lambda>stopTime.
     bindE (optionalLeaf ly tree pos ''stream-xpath-filter'') (\<lambda>xpathFilter.
     bindE (optionalAny ly tree pos ''stream-subtree-filter'') (\<lambda>subtreeFilter.
     bindE (optionalLeaf ly tree pos ''replay-start-time'') (\<lambda>replayStart.
       Inr \<lparr>in_encoding = encoding, in_stream = stream, in_stream_filter_name = filterName, in_stop_time = stopTime,
            in_stream_xpath_filter = xpathFilter, in_stream_subtree_filter = subtreeFilter, in_replay_start_time = replayStart\<rparr>)))))))"

text \<open>The output leafs in the order in which they are created.\<close>

definition outputPaths :: "establish_output \<Rightarrow> (string \<times> string option) list" where
  "outputPaths out =
     (case out_replay_start_time_revision out of None \<Rightarrow> [] | Some t \<Rightarrow> [(''replay-start-time-revision'', Some t)]) @
     (case out_id out of None \<Rightarrow> [] | Some i \<Rightarrow> [(''id'', Some i)]) @
     (case out_uri out of None \<Rightarrow> [] | Some u \<Rightarrow> [(''ietf-restconf-subscribed-notifications:uri'', Some u)])"

section \<open>Handlers of internal RPCs\<close>

definition rpcEstablish :: "'n server_env \<Rightarrow> ('u::linorder) subs_env \<Rightarrow> string option \<Rightarrow> data_format \<Rightarrow> 'n dnode list \<Rightarrow> position \<Rightarrow>
    ('n, 'u, (string \<times> string option) list) server_action" where
  "rpcEstablish E SE schemeAndHost requestEncoding rpcInput pos =
     bindA (liftE (establishInput (env_ly E) rpcInput pos)) (\<lambda>inp w.
       case establishSubscription (se_subscribe SE) (se_uuidString SE) netconfStreamRoot (nacmUser (w_sess w)) (se_makeUUID SE (w_subs w))
              schemeAndHost requestEncoding inp \<lparr>out_replay_start_time_revision = None, out_id = None, out_uri = None\<rparr> (w_subs w) of
         Inl e \<Rightarrow> (Inl e, w)
       | Inr (subs, out) \<Rightarrow> (Inr (outputPaths out), w\<lparr>w_subs := subs\<rparr>))"

definition rpcDelete :: "'n server_env \<Rightarrow> 'u subs_env \<Rightarrow> 'n dnode list \<Rightarrow> position \<Rightarrow> ('n, 'u, (string \<times> string option) list) server_action" where
  "rpcDelete E SE rpcInput pos =
     bindA (liftE (findNode (env_ly E) rpcInput pos ''/ietf-subscribed-notifications:kill-subscription'')) (\<lambda>kill.
     bindA (liftE (optionalLeaf (env_ly E) rpcInput pos ''id'')) (\<lambda>i w.
       case deleteSubscription (se_recoveryUser SE) (se_terminate SE) (nacmUser (w_sess w)) (kill \<noteq> None) (map_option decimal_val i)
              (ld_nodePath (env_ly E) rpcInput pos) (w_subs w) of
         Inl e \<Rightarrow> (Inl e, w)
       | Inr subs \<Rightarrow> (Inr [], w\<lparr>w_subs := subs\<rparr>)))"

datatype internal_rpc = Establish_Rpc | Delete_Rpc

definition internalHandlers :: "(string \<times> string option \<times> internal_rpc) list" where
  "internalHandlers =
     [(''/ietf-subscribed-notifications:establish-subscription'', Some ''/ietf-subscribed-notifications:filters'', Establish_Rpc),
      (''/ietf-subscribed-notifications:kill-subscription'', None, Delete_Rpc),
      (''/ietf-subscribed-notifications:delete-subscription'', None, Delete_Rpc)]"

definition rpcValidationError :: "'n ly_data \<Rightarrow> string \<Rightarrow> ly_error \<Rightarrow> exn" where
  "rpcValidationError ly rpcPath e = (case e of
      LyError None w \<Rightarrow> Libyang_Error e
    | LyError (Some _) w \<Rightarrow>
        (if ld_getErrors ly e \<noteq> [] then
           (let err = last (ld_getErrors ly e) in
            Error_Response (ErrorResponse 400 ''protocol'' ''invalid-value'' (fst err) (Some (case snd err of Some p \<Rightarrow> p | None \<Rightarrow> rpcPath))))
         else Error_Response (ErrorResponse 400 ''protocol'' ''invalid-value'' ''Input validation failed'' (Some rpcPath))))"

definition processInternalRPC :: "'n server_env \<Rightarrow> ('u::linorder) subs_env \<Rightarrow> 'n dnode list \<Rightarrow> position \<Rightarrow> string option \<Rightarrow> data_format \<Rightarrow>
    ('n, 'u, (string \<times> string option) list) server_action" where
  "processInternalRPC E SE rpcInput pos schemeAndHost requestEncoding =
     (let ly = env_ly E; rpcPath = ld_nodePath ly rpcInput pos in
      bindA (liftE (ld_newPath2 ly rpcPath)) (\<lambda>(rpcTree, rpcNode).
      bindA (liftE (deref ''processInternalRPC'' rpcNode)) (\<lambda>node.
      bindA (sess_checkNacmOperation (env_sr E) rpcTree) (\<lambda>permitted.
        if \<not> permitted then
          liftE (throw_error_at 403 ''application'' ''access-denied'' ''Access denied.'' (Some (ld_nodePath ly rpcTree node)))
        else (case map_of internalHandlers rpcPath of
          None \<Rightarrow> liftE (throw_error_at 501 ''application'' ''operation-not-supported'' (''Unsupported RPC call to '' @ rpcPath) (Some rpcPath))
        | Some (validationDataXPath, handler) \<Rightarrow>
            bindA (sess_switchDatastore Operational) (\<lambda>_.
            bindA (case validationDataXPath of None \<Rightarrow> ret [] | Some x \<Rightarrow> sess_getData (env_sr E) x 0 Get_Default) (\<lambda>validationData.
            bindA (liftE (case ld_validateOp ly rpcInput pos validationData of
                            Inl e \<Rightarrow> Inl (rpcValidationError ly rpcPath e) | Inr t \<Rightarrow> Inr t)) (\<lambda>rpcInput.
              (case handler of
                 Establish_Rpc \<Rightarrow> rpcEstablish E SE schemeAndHost requestEncoding rpcInput pos
               | Delete_Rpc \<Rightarrow> rpcDelete E SE rpcInput pos)))))))))"

section \<open>processActionOrRPC\<close>

text \<open>The reply of sysrepo is a tree, the one of an internal RPC the list of created output leafs.\<close>

definition rpcResponse :: "'n ly_data \<Rightarrow> data_format \<Rightarrow> string \<Rightarrow> 'n dnode list \<Rightarrow> (string \<times> string option) list \<Rightarrow> ('n, 'u, unit) server_action" where
  "rpcResponse ly fmt module replyChildren outputs =
     (if replyChildren = [] \<and> outputs = [] then respond 204 [CORS] No_Body
      else respond 200 (mm_of_list [contentType fmt, CORS]) (Envelope_Body fmt module replyChildren outputs))"

definition processActionOrRPC :: "'n server_env \<Rightarrow> ('u::linorder) subs_env \<Rightarrow> request_context \<Rightarrow> ('n, 'u, unit) server_action" where
  "processActionOrRPC E SE rc =
     (let ly = env_ly E; ctx = env_ctx E; r = rc_restconfRequest rc; df = rc_dataFormat rc in
      bindA (sess_switchDatastore Operational) (\<lambda>_.
      bindA (liftE (case ly_findPath ctx (req_path r) of Inl e \<Rightarrow> Inl (Libyang_Error e) | Inr n \<Rightarrow> Inr n)) (\<lambda>rpcSchemaNode.
        if df_request df = None \<and> ld_hasInput ly rpcSchemaNode then
          liftE (throw_error 400 ''protocol'' ''invalid-value'' ''Content-type header missing.'')
        else
        bindA (if ly_nodeType ctx rpcSchemaNode = Action then
                 bindA (liftE (asLibyangPathSplit (env_what E) ctx (http_raw_path (rc_req rc)))) (\<lambda>(pathToParent, _).
                 bindA (sess_getData (env_sr E) pathToParent 0 Get_Default) (\<lambda>parent.
                   if parent = [] then
                     liftE (throw_error 400 ''application'' ''operation-failed''
                       (''Action data node '' @ [quote] @ req_path r @ [quote] @ '' does not exist.''))
                   else ret ()))
               else ret ()) (\<lambda>_.
        bindA (liftE (ld_newPath2 ly (req_path r))) (\<lambda>(tree, rpcNode).
        bindA (liftE (deref ''processActionOrRPC'' rpcNode)) (\<lambda>node.
        bindA (if rc_payload rc \<noteq> [] then
                 liftE (bindE (deref ''processActionOrRPC'' (df_request df)) (\<lambda>fmt. ld_parseOp ly tree node (rc_payload rc) fmt))
               else ret tree) (\<lambda>tree.
        bindA (if req_type r = Execute then bindA (sess_sendRPC (env_sr E) tree) (\<lambda>reply. ret (reply, []))
               else if req_type r = ExecuteInternal then
                 bindA (liftE (parseUrlPrefix (http_header (rc_req rc)))) (\<lambda>schemeAndHost.
                 bindA (liftE (deref ''processActionOrRPC'' (df_request df))) (\<lambda>fmt.
                 bindA (processInternalRPC E SE tree node schemeAndHost fmt) (\<lambda>outs. ret ([], outs))))
               else ret ([], [])) (\<lambda>(reply, outs).
          rpcResponse ly (df_response df) (ly_module ctx rpcSchemaNode)
            (case reply of [] \<Rightarrow> [] | t # _ \<Rightarrow> dn_children t) outs))))))))"

definition processRpc :: "'n server_env \<Rightarrow> ('u::linorder) subs_env \<Rightarrow> request_context \<Rightarrow> ('n, 'u, unit) server_action" where
  "processRpc E SE rc = withRestconfExceptions E (processActionOrRPC E SE) (rejectWithError E) rc"

end
