(* ===== verification/Notification_Stream.thy ===== *)
theory Notification_Stream
  imports Server_Rpc
begin

text \<open>
  \<open>restconf/NotificationStream.cpp\<close>: the stream of NETCONF notifications and the list of streams. Time points
  are natural numbers; conversions from and to YANG text are libyang's.
\<close>

record notif_env =
  ne_now :: nat
  ne_fromYangTime :: "string \<Rightarrow> exn + nat"
  ne_yangTime :: "nat \<Rightarrow> string"
  ne_replaySupport :: "string \<Rightarrow> bool \<times> nat option"

section \<open>Modules\<close>

definition canBeSubscribed :: "ly_module_info \<Rightarrow> bool" where
  "canBeSubscribed m \<longleftrightarrow> lm_implemented m \<and> lm_name m \<noteq> ''sysrepo''"

record replay_info =
  ri_enabled :: bool
  ri_earliestNotification :: "nat option"

definition addReplayInfo :: "(string \<Rightarrow> bool \<times> nat option) \<Rightarrow> replay_info \<Rightarrow> ly_module_info \<Rightarrow> replay_info" where
  "addReplayInfo replaySupport info m =
     (if \<not> canBeSubscribed m then info
      else (case replaySupport (lm_name m) of (enabled, earliest) \<Rightarrow>
        \<lparr>ri_enabled = (ri_enabled info \<or> enabled),
         ri_earliestNotification = (case earliest of
             None \<Rightarrow> ri_earliestNotification info
           | Some t \<Rightarrow> (case ri_earliestNotification info of None \<Rightarrow> Some t | Some t' \<Rightarrow> Some (min t t')))\<rparr>))"

definition sysrepoReplayInfo :: "(string \<Rightarrow> bool \<times> nat option) \<Rightarrow> ly_module_info list \<Rightarrow> replay_info" where
  "sysrepoReplayInfo replaySupport modules =
     foldl (addReplayInfo replaySupport) \<lparr>ri_enabled = False, ri_earliestNotification = None\<rparr> modules"

section \<open>The stream\<close>

record notification_stream =
  ns_dataFormat :: data_format
  ns_filter :: "string option"
  ns_startTime :: "nat option"
  ns_stopTime :: "nat option"

definition checkStreamTimes :: "nat \<Rightarrow> nat option \<Rightarrow> nat option \<Rightarrow> exn + unit" where
  "checkStreamTimes now startTime stopTime =
     (if startTime \<noteq> None \<and> stopTime \<noteq> None \<and> the startTime \<ge> the stopTime then
        throw_error 400 ''application'' ''invalid-argument'' ''stop-time must be greater than start-time''
      else if startTime \<noteq> None \<and> the startTime > now then
        throw_error 400 ''application'' ''invalid-argument'' ''start-time is in the future''
      else if startTime = None \<and> stopTime \<noteq> None then
        throw_error 400 ''application'' ''invalid-argument'' ''stop-time must be used with start-time''
      else Inr ())"

definition NotificationStream_new :: "nat \<Rightarrow> data_format \<Rightarrow> string option \<Rightarrow> nat option \<Rightarrow> nat option \<Rightarrow> exn + notification_stream" where
  "NotificationStream_new now dataFormat xpathFilter startTime stopTime =
     bindE (checkStreamTimes now startTime stopTime) (\<lambda>_.
       Inr \<lparr>ns_dataFormat = dataFormat, ns_filter = xpathFilter, ns_startTime = startTime, ns_stopTime = stopTime\<rparr>)"

text \<open>The first call creates the subscription object and later ones extend it; sysrepo is asked the same.\<close>

definition subscribe_notifications :: "'n sysrepo \<Rightarrow> string \<Rightarrow> string option \<Rightarrow> nat option \<Rightarrow> nat option \<Rightarrow> ('n, 'u, unit) server_action" where
  "subscribe_notifications sr modName xpathFilter startTime stopTime = ask (sr_done sr) (Sr_OnNotification modName xpathFilter startTime stopTime)"

text \<open>The catch clause around it: a module without notifications is skipped.\<close>

definition subscribeModule :: "'n sysrepo \<Rightarrow> notification_stream \<Rightarrow> ly_module_info \<Rightarrow> ('n, 'u, unit) server_action" where
  "subscribeModule sr ns m =
     (if \<not> canBeSubscribed m then ret ()
      else catchA (subscribe_notifications sr (lm_name m) (ns_filter ns) (ns_startTime ns) (ns_stopTime ns))
        (\<lambda>e. case e of
            Sysrepo_Error InvalidArgument w \<Rightarrow> Some (liftE (throw_error 400 ''application'' ''invalid-argument'' w))
          | Sysrepo_Error NotFound w \<Rightarrow> Some (ret ())
          | _ \<Rightarrow> None))"

definition eventStreamHeaders :: header_map where
  "eventStreamHeaders = mm_of_list [contentType_mime ''text/event-stream'', CORS]"

definition NotificationStream_activate :: "'n server_env \<Rightarrow> notification_stream \<Rightarrow> ('n, 'u, unit) server_action" where
  "NotificationStream_activate E ns =
     bindA (foldA (\<lambda>_. subscribeModule (env_sr E) ns) () (ld_modules (env_ly E))) (\<lambda>_.
       respond 200 eventStreamHeaders Event_Stream_Body)"

definition NotificationStream_create :: "'n server_env \<Rightarrow> nat \<Rightarrow> data_format \<Rightarrow> string option \<Rightarrow> nat option \<Rightarrow> nat option \<Rightarrow> ('n, 'u, unit) server_action" where
  "NotificationStream_create E now dataFormat xpathFilter startTime stopTime =
     bindA (liftE (NotificationStream_new now dataFormat xpathFilter startTime stopTime)) (NotificationStream_activate E)"

text \<open>Notifications of other types than these two are dropped by the callback.\<close>

datatype notification_type = Realtime | Replay | Other_Notification

definition notifCb :: "notification_type \<Rightarrow> 'e \<Rightarrow> 'e list" where
  "notifCb type notification = (if type \<noteq> Realtime \<and> type \<noteq> Replay then [] else [notification])"

section \<open>The list of streams\<close>

definition notificationStreamList :: "(nat \<Rightarrow> string) \<Rightarrow> replay_info \<Rightarrow> string \<Rightarrow> (string \<times> string option) list" where
  "notificationStreamList yangTime replayInfo streamsPrefix =
     (let pfx = ''/ietf-restconf-monitoring:restconf-state/streams/stream[name='' @ [quote] @ ''NETCONF'' @ [quote] @ '']'' in
      [(pfx @ ''/description'', Some ''Default NETCONF notification stream''),
       (pfx @ ''/access[encoding='' @ [quote] @ ''xml'' @ [quote] @ '']/location'', Some (''x-cesnet-rousette:'' @ streamsPrefix @ ''NETCONF/XML'')),
       (pfx @ ''/access[encoding='' @ [quote] @ ''json'' @ [quote] @ '']/location'', Some (''x-cesnet-rousette:'' @ streamsPrefix @ ''NETCONF/JSON''))] @
      (if ri_enabled replayInfo then
         (pfx @ ''/replay-support'', Some ''true'') #
         (case ri_earliestNotification replayInfo of None \<Rightarrow> [] | Some t \<Rightarrow> [(pfx @ ''/replay-log-creation-time'', Some (yangTime t))])
       else []))"

end
