(* ===== verification/Locations.thy ===== *)
theory Locations
  imports Server_Errors
begin

text \<open>
  \<open>restconf/YangSchemaLocations.cpp\<close> and the stream locations of \<open>restconf/NotificationStream.cpp\<close>: the URLs in
  \<open>ietf-yang-library\<close> and \<open>ietf-restconf-monitoring\<close> data are replaced by ones the client can reach. The
  XPaths of the code select nodes by their schema node alone.
\<close>

section \<open>YANG library\<close>

definition moduleNodesXPath :: "string list" where
  "moduleNodesXPath =
     [''/ietf-yang-library:yang-library/module-set/module'',
      ''/ietf-yang-library:yang-library/module-set/module/submodule'',
      ''/ietf-yang-library:yang-library/module-set/import-only-module'',
      ''/ietf-yang-library:yang-library/module-set/import-only-module/submodule'',
      ''/ietf-yang-library:modules-state/module'',
      ''/ietf-yang-library:modules-state/module/submodule'']"

definition isModuleNode :: "'n ly_context \<Rightarrow> 'n dnode \<Rightarrow> bool" where
  "isModuleNode ctx n \<longleftrightarrow> ly_path ctx (dn_schema n) \<in> set moduleNodesXPath"

text \<open>A relative path of one unprefixed name selects the children of that name in the module of the node.\<close>

definition isNamed :: "'n ly_context \<Rightarrow> 'n dnode \<Rightarrow> string \<Rightarrow> 'n dnode \<Rightarrow> bool" where
  "isNamed ctx n nm c \<longleftrightarrow> ly_name ctx (dn_schema c) = nm \<and> ly_module ctx (dn_schema c) = ly_module ctx (dn_schema n)"

definition isLocationNode :: "'n ly_context \<Rightarrow> 'n dnode \<Rightarrow> 'n dnode \<Rightarrow> bool" where
  "isLocationNode ctx n c \<longleftrightarrow> isNamed ctx n ''location'' c \<or> isNamed ctx n ''schema'' c"

definition childNamed :: "'n ly_context \<Rightarrow> string \<Rightarrow> 'n dnode \<Rightarrow> 'n dnode option" where
  "childNamed ctx nm n = find (isNamed ctx n nm) (dn_children n)"

text \<open>\<open>n.newPath(name, value)\<close> for a leaf below \<open>n\<close> of the module of \<open>n\<close>.\<close>

definition newLeaf :: "'n ly_context \<Rightarrow> 'n \<Rightarrow> string \<Rightarrow> string \<Rightarrow> exn + 'n dnode" where
  "newLeaf ctx parent nm v = (case findChildSchemaNode ctx parent (ApiIdentifier None nm) of
      Some s \<Rightarrow> Inr (DNode s False v [] [])
    | None \<Rightarrow> Inl (Libyang_Error (LyError None ''newPath'')))"

definition moduleLocation :: "'n ly_context \<Rightarrow> string \<Rightarrow> string \<Rightarrow> 'n dnode \<Rightarrow> exn + 'n dnode" where
  "moduleLocation ctx schemeAndHost urlPrefix n =
     bindE (deref ''replaceYangLibraryLocations'' (childNamed ctx ''name'' n)) (\<lambda>nameNode.
     bindE (termValue ctx nameNode) (\<lambda>moduleName.
     bindE (case childNamed ctx ''revision'' n of
              None \<Rightarrow> Inr None
            | Some r \<Rightarrow> bindE (termValue ctx r) (\<lambda>v. Inr (if v = [] then None else Some v))) (\<lambda>revn.
       newLeaf ctx (dn_schema n)
         (if take (length ''/ietf-yang-library:modules-state'') (ly_path ctx (dn_schema n)) = ''/ietf-yang-library:modules-state''
          then ''schema'' else ''location'')
         (schemeAndHost @ urlPrefix @ moduleName @ (case revn of None \<Rightarrow> [] | Some r \<Rightarrow> ''@'' @ r)))))"

text \<open>The new children of a module node.\<close>

definition relocateModule :: "'n ly_context \<Rightarrow> string option \<Rightarrow> string \<Rightarrow> 'n dnode \<Rightarrow> exn + 'n dnode list" where
  "relocateModule ctx schemeAndHost urlPrefix n =
     (let rest = filter (\<lambda>c. \<not> isLocationNode ctx n c) (dn_children n) in
      case schemeAndHost of
        None \<Rightarrow> Inr rest
      | Some sh \<Rightarrow>
          if list_all (\<lambda>c. \<not> isLocationNode ctx n c) (dn_children n) then Inr rest
          else bindE (moduleLocation ctx sh urlPrefix n) (\<lambda>l. Inr (rest @ [l])))"

fun mapE :: "('a \<Rightarrow> exn + 'b) \<Rightarrow> 'a list \<Rightarrow> exn + 'b list" where
  "mapE f [] = Inr []"
| "mapE f (x # xs) = bindE (f x) (\<lambda>y. bindE (mapE f xs) (\<lambda>ys. Inr (y # ys)))"

lemma mapE_cong [fundef_cong]: "xs = ys \<Longrightarrow> (\<And>x. x \<in> set ys \<Longrightarrow> f x = g x) \<Longrightarrow> mapE f xs = mapE g ys"
  by (induction ys arbitrary: xs) auto

text \<open>A rewriting of the children of selected nodes, everywhere in a tree; the children it leaves are rewritten in turn.\<close>

fun rewriteChildren :: "('n dnode \<Rightarrow> exn + 'n dnode list) \<Rightarrow> 'n dnode \<Rightarrow> exn + 'n dnode" where
  "rewriteChildren f (DNode s opq v ms cs) =
     bindE (mapE (rewriteChildren f) cs) (\<lambda>cs'. bindE (f (DNode s opq v ms cs')) (\<lambda>cs''. Inr (DNode s opq v ms cs'')))"

definition replaceYangLibraryLocations :: "'n ly_context \<Rightarrow> string option \<Rightarrow> string \<Rightarrow> 'n dnode list \<Rightarrow> exn + 'n dnode list" where
  "replaceYangLibraryLocations ctx schemeAndHost urlPrefix tree =
     mapE (rewriteChildren (\<lambda>n. if isModuleNode ctx n then relocateModule ctx schemeAndHost urlPrefix n else Inr (dn_children n))) tree"

section \<open>Streams\<close>

definition rousetteURIScheme :: string where
  "rousetteURIScheme = ''x-cesnet-rousette:''"

definition isStreamAccess :: "'n ly_context \<Rightarrow> 'n dnode \<Rightarrow> bool" where
  "isStreamAccess ctx n \<longleftrightarrow> ly_path ctx (dn_schema n) = ''/ietf-restconf-monitoring:restconf-state/streams/stream/access''"

text \<open>
  The \<open>location\<close> leaf of an access entry is removed or gets its temporary scheme replaced; it is
  dereferenced without a check.
\<close>

definition relocateAccess :: "'n ly_context \<Rightarrow> string option \<Rightarrow> 'n dnode \<Rightarrow> exn + 'n dnode list" where
  "relocateAccess ctx schemeAndHost n =
     bindE (deref ''replaceStreamLocations'' (childNamed ctx ''location'' n)) (\<lambda>locationNode.
       case schemeAndHost of
         None \<Rightarrow> Inr (remove1 locationNode (dn_children n))
       | Some sh \<Rightarrow> bindE (termValue ctx locationNode) (\<lambda>v.
           Inr (map (\<lambda>c. if c = locationNode
             then DNode (dn_schema c) (dn_opaque c) (sh @ drop (length rousetteURIScheme) v) (dn_meta c) (dn_children c) else c) (dn_children n))))"

definition replaceStreamLocations :: "'n ly_context \<Rightarrow> string option \<Rightarrow> 'n dnode list \<Rightarrow> exn + 'n dnode list" where
  "replaceStreamLocations ctx schemeAndHost tree =
     mapE (rewriteChildren (\<lambda>n. if isStreamAccess ctx n then relocateAccess ctx schemeAndHost n else Inr (dn_children n))) tree"

section \<open>Access to a schema\<close>

text \<open>The XPath whose data the user must be able to read.\<close>

definition yangSchemaXPath :: "bool \<Rightarrow> string \<Rightarrow> string" where
  "yangSchemaXPath isRootModule modName =
     (let pfx = ''/ietf-yang-library:yang-library/module-set[name='' @ [quote] @ ''complete'' @ [quote] @ '']/'';
          key = ''[name='' @ [quote] @ modName @ [quote] @ '']/location'' in
      if isRootModule then pfx @ ''module'' @ key @ '' | '' @ pfx @ ''import-only-module'' @ key
      else pfx @ ''module/submodule'' @ key @ '' | '' @ pfx @ ''import-only-module/submodule'' @ key)"

definition hasAccessToYangSchema :: "'n sysrepo \<Rightarrow> bool \<Rightarrow> string \<Rightarrow> ('n, 'u, bool) server_action" where
  "hasAccessToYangSchema sr isRootModule modName =
     bindA (sess_getData sr (yangSchemaXPath isRootModule modName) 0 Get_Default) (\<lambda>d. ret (d \<noteq> []))"

end
