(* ===== verification/Server_Handlers.thy ===== *)
theory Server_Handlers
  imports Notification_Stream Locations Uri_Fields
begin

text \<open>
  The routes of the server (\<open>Server::Server\<close> in \<open>restconf/Server.cpp\<close>): \<open>/restconf/\<close>, \<open>/streams/\<close>, \<open>/yang/\<close> and the
  plain ones, with GET, DELETE, OPTIONS and the API resources.
\<close>

section \<open>API resources\<close>

definition operationEntries :: "data_format \<Rightarrow> ly_module_info list \<Rightarrow> (string \<times> string option) list" where
  "operationEntries fmt modules = concat (map (\<lambda>m.
     if \<not> lm_implemented m then []
     else map (\<lambda>rpc. case fmt of JSON \<Rightarrow> (lm_name m @ '':'' @ rpc, Some ''[null]'') | XML \<Rightarrow> (lm_ns m @ '':'' @ rpc, None)) (lm_rpcs m)) modules)"

definition apiResource :: "'n ly_data \<Rightarrow> string option \<Rightarrow> request_type \<Rightarrow> data_format \<Rightarrow> exn + (string \<times> string option) list" where
  "apiResource ly yangLibRevision type fmt =
     (let version = (''yang-library-version'', yangLibRevision) in
      if type = Type_YangLibraryVersion then Inr [version]
      else if type = Type_RestconfRoot then
        Inr [(''/ietf-restconf:restconf'', None), version, (''data'', None), (''operations'', None)]
      else if type = ListRPC then
        Inr ([(''/ietf-restconf:restconf'', None), (''operations'', None)] @ operationEntries fmt (ld_modules ly))
      else Inl (Logic_Error ''Invalid restconf request type for handling within apiResource()''))"

section \<open>GET\<close>

text \<open>\<open>libyangPrintFlags\<close>; an error of \<open>findPath\<close> is swallowed.\<close>

definition libyangPrintFlags :: "'n ly_data \<Rightarrow> 'n dnode list \<Rightarrow> string \<Rightarrow> query_param_value option \<Rightarrow> exn + print_defaults" where
  "libyangPrintFlags ly tree requestPath withDefaults =
     bindE (case findNode ly tree [0] requestPath of
              Inl (Libyang_Error e) \<Rightarrow> Inr None
            | Inl e \<Rightarrow> Inl e
            | Inr r \<Rightarrow> Inr (map_option snd r)) (\<lambda>node.
       if withDefaults = None \<and> (case node of None \<Rightarrow> False | Some n \<Rightarrow> isTerm (ld_ctx ly) n \<and> ld_isImplicitDefault ly n) then Inr Defaults_All
       else (case withDefaults of
           None \<Rightarrow> Inr Defaults_Explicit
         | Some Explicit \<Rightarrow> Inr Defaults_Explicit
         | Some Trim \<Rightarrow> Inr Defaults_Trim
         | Some ReportAll \<Rightarrow> Inr Defaults_All
         | Some ReportAllTagged \<Rightarrow> Inr Defaults_AllTag
         | Some _ \<Rightarrow> Inl (Logic_Error ''Invalid withDefaults query parameter value'')))"

definition maxDepth :: "query_params \<Rightarrow> nat" where
  "maxDepth params = (case mm_find params ''depth'' of Some (Depth n) \<Rightarrow> n | _ \<Rightarrow> 0)"

definition contentOptions :: "query_params \<Rightarrow> get_options" where
  "contentOptions params = (case mm_find params ''content'' of
      Some OnlyNonConfigNodes \<Rightarrow> OperNoConfig | Some OnlyConfigNodes \<Rightarrow> OperNoState | _ \<Rightarrow> Get_Default)"

definition getXPath :: "'n ly_context \<Rightarrow> restconf_request \<Rightarrow> exn + string" where
  "getXPath ctx r = (case mm_find (req_queryParams r) ''fields'' of
      None \<Rightarrow> Inr (req_path r)
    | Some (FieldsExpr f) \<Rightarrow> fieldsToXPath ctx (if req_path r = ''/*'' then [] else req_path r) f
    | Some _ \<Rightarrow> Inl (Logic_Error ''bad_variant_access''))"

text \<open>The code writes the head before it processes the data; head and body are one response here, since nothing in between throws an exception that the route answers.\<close>

definition handleGetData :: "'n server_env \<Rightarrow> data_encoding \<Rightarrow> http_request \<Rightarrow> restconf_request \<Rightarrow> ('n, 'u, unit) server_action" where
  "handleGetData E df req r =
     bindA (sess_switchDatastore (case req_datastore r of Some ds \<Rightarrow> ds | None \<Rightarrow> Operational)) (\<lambda>_.
     bindA (liftE (getXPath (env_ctx E) r)) (\<lambda>xpath.
     bindA (sess_getData (env_sr E) xpath (maxDepth (req_queryParams r)) (contentOptions (req_queryParams r))) (\<lambda>data.
       if data = [] then liftE (throw_error 404 ''application'' ''invalid-value'' ''No data from sysrepo.'')
       else
         bindA (liftE (bindE (parseUrlPrefix (http_header req)) (\<lambda>urlPrefix.
                bindE (replaceYangLibraryLocations (env_ctx E) urlPrefix yangSchemaRoot data) (\<lambda>data.
                bindE (replaceStreamLocations (env_ctx E) urlPrefix data) (\<lambda>data.
                bindE (libyangPrintFlags (env_ly E) data (req_path r) (mm_find (req_queryParams r) ''with-defaults'')) (\<lambda>flags.
                  Inr (data, flags))))))) (\<lambda>(data, flags).
           respond 200 (mm_of_list [contentType (df_response df), CORS]) (Data_Body (df_response df) data flags)))))"

section \<open>DELETE\<close>

definition isReadOnly :: "sr_datastore option \<Rightarrow> bool" where
  "isReadOnly ds \<longleftrightarrow> ds = Some FactoryDefault \<or> ds = Some Operational"

definition deleteEdit :: "'n ly_data \<Rightarrow> string \<Rightarrow> exn + 'n dnode list" where
  "deleteEdit ly path = bindE (ld_newPath2_opaque ly path) (\<lambda>(edit, deletedNode).
     bindE (validateInputMetaAttributes ly edit) (\<lambda>_.
     bindE (deref ''DeleteNode'' deletedNode) (\<lambda>p. Inr (newMeta ''ietf-netconf'' ''operation'' ''delete'' p edit))))"

definition handleDelete :: "'n server_env \<Rightarrow> restconf_request \<Rightarrow> ('n, 'u, unit) server_action" where
  "handleDelete E r =
     (if isReadOnly (req_datastore r) then
        liftE (throw_error 405 ''application'' ''operation-not-supported'' ''Read-only datastore.'')
      else
        bindA (sess_switchDatastore (case req_datastore r of Some ds \<Rightarrow> ds | None \<Rightarrow> Running)) (\<lambda>_.
        bindA (catchA
          (bindA (liftE (deleteEdit (env_ly E) (req_path r))) (\<lambda>edit.
           bindA (sess_editBatch (env_sr E) edit) (\<lambda>_. sess_applyChanges (env_sr E))))
          (\<lambda>e. case e of
              Sysrepo_Error Unauthorized w \<Rightarrow> Some (liftE (throw_error_at 403 ''application'' ''access-denied'' ''Access denied.'' (Some (req_path r))))
            | Sysrepo_Error NotFound w \<Rightarrow> Some (liftE (throw_error_at 404 ''application'' ''data-missing'' ''Data is missing.'' (Some (req_path r))))
            | _ \<Rightarrow> None)) (\<lambda>_.
          respond 204 [CORS] No_Body)))"

section \<open>OPTIONS\<close>

definition handleOptions :: "'n server_env \<Rightarrow> http_request \<Rightarrow> ('n, 'u, unit) server_action" where
  "handleOptions E req =
     bindA (liftE (allowedHttpMethodsForUri (env_what E) (env_ctx E) (http_path req))) (\<lambda>ms.
       if ms \<noteq> {} then respond 200 (merge_headers [CORS] (httpOptionsHeaders ms)) No_Body
       else respond 404 [CORS] No_Body)"

section \<open>The RESTCONF route\<close>

text \<open>What is left to do when the handler returns: nothing, or to wait for the body of the request.\<close>

datatype handler_result = Finished | Await_Write request_context | Await_Rpc request_context

definition finish :: "('n, 'u, unit) server_action \<Rightarrow> ('n, 'u, handler_result) server_action" where
  "finish m = bindA m (\<lambda>_. ret Finished)"

definition requestContext :: "http_request \<Rightarrow> data_encoding \<Rightarrow> restconf_request \<Rightarrow> request_context" where
  "requestContext req df r = \<lparr>rc_req = req, rc_dataFormat = df, rc_restconfRequest = r, rc_payload = []\<rparr>"

definition handleWrite :: "data_encoding \<Rightarrow> http_request \<Rightarrow> restconf_request \<Rightarrow> ('n, 'u, handler_result) server_action" where
  "handleWrite df req r =
     (if isReadOnly (req_datastore r) then
        liftE (throw_error 405 ''application'' ''operation-not-supported'' ''Read-only datastore.'')
      else
        bindA (sess_switchDatastore (case req_datastore r of Some ds \<Rightarrow> ds | None \<Rightarrow> Running)) (\<lambda>_.
          if df_request df = None then liftE (throw_error 400 ''protocol'' ''invalid-value'' ''Content-type header missing.'')
          else ret (Await_Write (requestContext req df r))))"

definition handleRequest :: "'n server_env \<Rightarrow> string option \<Rightarrow> data_encoding \<Rightarrow> http_request \<Rightarrow> restconf_request \<Rightarrow> ('n, 'u, handler_result) server_action" where
  "handleRequest E yangLibRevision df req r = (case req_type r of
      GetData \<Rightarrow> finish (handleGetData E df req r)
    | CreateOrReplaceThisNode \<Rightarrow> handleWrite df req r
    | CreateChildren \<Rightarrow> handleWrite df req r
    | MergeData \<Rightarrow> handleWrite df req r
    | DeleteNode \<Rightarrow> finish (handleDelete E r)
    | Execute \<Rightarrow> ret (Await_Rpc (requestContext req df r))
    | ExecuteInternal \<Rightarrow> ret (Await_Rpc (requestContext req df r))
    | OptionsQuery \<Rightarrow> finish (handleOptions E req)
    | _ \<Rightarrow> finish (bindA (liftE (apiResource (env_ly E) yangLibRevision (req_type r) (df_response df))) (\<lambda>doc.
        respond 200 (mm_of_list [contentType (df_response df), CORS]) (Paths_Body (df_response df) doc))))"

text \<open>\<open>authorizeRequest\<close> on the session of the request, and the response to a failed authentication, at once or later.\<close>

definition authorizeSession :: "string \<Rightarrow> (string \<Rightarrow> exn + string) \<Rightarrow> nacm \<Rightarrow> http_request \<Rightarrow> ('n, 'u, unit) server_action" where
  "authorizeSession anonUser authenticate nacm req w =
     (case authorizeRequest anonUser authenticate nacm (w_sess w) (http_header req) of
        Inl e \<Rightarrow> (Inl e, w)
      | Inr sess \<Rightarrow> (Inr (), w\<lparr>w_sess := sess\<rparr>))"

definition rejectAuth :: "auth_error \<Rightarrow> ('n, 'u, unit) server_action \<Rightarrow> ('n, 'u, unit) server_action" where
  "rejectAuth e errorResponseCb = (case processAuthError e of
      Responded \<Rightarrow> errorResponseCb
    | _ \<Rightarrow> (\<lambda>w. (Inr (), w\<lparr>w_authDelay := auth_delay e\<rparr>)))"

definition restconfAuthFailed :: "'n server_env \<Rightarrow> data_format \<Rightarrow> http_request \<Rightarrow> ('n, 'u, unit) server_action" where
  "restconfAuthFailed E fmt req = rejectWithError E fmt req (ErrorResponse 401 ''protocol'' ''access-denied'' ''Access denied.'' None)"

text \<open>The catch clauses of the route; other exceptions leave the handler.\<close>

definition restconfCatch :: "'n server_env \<Rightarrow> data_format \<Rightarrow> http_request \<Rightarrow> exn \<Rightarrow> ('n, 'u, handler_result) server_action option" where
  "restconfCatch E fmt req e = (case e of
      Auth_Error a \<Rightarrow> Some (finish (rejectAuth a (restconfAuthFailed E fmt req)))
    | Error_Response r \<Rightarrow> Some (finish (rejectWithError E fmt req r))
    | Sysrepo_Error c w \<Rightarrow> Some (finish (rejectWithError E fmt req
        (ErrorResponse 500 ''application'' ''operation-failed'' ''Internal server error due to sysrepo exception.'' None)))
    | _ \<Rightarrow> None)"

definition restconfRoute :: "'n server_env \<Rightarrow> ('d::{linorder, zero, one}) stod \<Rightarrow> string option \<Rightarrow> string \<Rightarrow> (string \<Rightarrow> exn + string) \<Rightarrow> nacm \<Rightarrow>
    http_request \<Rightarrow> ('n, 'u, handler_result) server_action" where
  "restconfRoute E stod yangLibRevision anonUser authenticate nacm req =
     (case chooseDataEncoding stod (http_header req) of
        Inl e \<Rightarrow> catchA (liftE (Inl e)) (restconfCatch E JSON req)
      | Inr df \<Rightarrow> catchA
          (bindA (authorizeSession anonUser authenticate nacm req) (\<lambda>_.
           bindA (liftE (asRestconfRequest (env_what E) (env_ctx E) (http_method req) (http_raw_path req) (http_raw_query req)))
             (handleRequest E yangLibRevision df req)))
          (restconfCatch E (df_response df) req))"

text \<open>A request with its body: the chunks of the body arrive after the handler has returned.\<close>

definition serveRequest :: "'n server_env \<Rightarrow> ('u::linorder) subs_env \<Rightarrow> ('d::{linorder, zero, one}) stod \<Rightarrow> string option \<Rightarrow> string \<Rightarrow>
    (string \<Rightarrow> exn + string) \<Rightarrow> nacm \<Rightarrow> http_request \<Rightarrow> string list \<Rightarrow> ('n, 'u, unit) server_action" where
  "serveRequest E SE stod yangLibRevision anonUser authenticate nacm req chunks =
     bindA (restconfRoute E stod yangLibRevision anonUser authenticate nacm req) (\<lambda>r.
       case r of
         Finished \<Rightarrow> ret ()
       | Await_Write rc \<Rightarrow> bindA (receive_body (processWrite E) chunks rc) (\<lambda>_. ret ())
       | Await_Rpc rc \<Rightarrow> bindA (receive_body (processRpc E SE) chunks rc) (\<lambda>_. ret ()))"

section \<open>Streams and schemas\<close>

definition plainAuthFailed :: "('n, 'u, unit) server_action" where
  "plainAuthFailed = respond 401 (mm_of_list [TEXT_PLAIN, CORS]) (Text_Body ''Access denied.'')"

definition plainError :: "error_response \<Rightarrow> ('n, 'u, unit) server_action" where
  "plainError e = respond (code e)
     (merge_headers (mm_of_list [TEXT_PLAIN, CORS]) (if code e = 405 then [ALLOW_GET_HEAD_OPTIONS] else [])) (Text_Body (errorMessage e))"

definition plainCatch :: "exn \<Rightarrow> ('n, 'u, unit) server_action option" where
  "plainCatch e = (case e of
      Auth_Error a \<Rightarrow> Some (rejectAuth a plainAuthFailed)
    | Error_Response r \<Rightarrow> Some (plainError r)
    | _ \<Rightarrow> None)"

definition streamFilter :: "query_params \<Rightarrow> exn + string option" where
  "streamFilter params = (case mm_find params ''filter'' of
      None \<Rightarrow> Inr None
    | Some (StringValue s) \<Rightarrow> Inr (Some s)
    | Some _ \<Rightarrow> Inl (Logic_Error ''bad_variant_access''))"

definition streamTime :: "(string \<Rightarrow> exn + nat) \<Rightarrow> query_params \<Rightarrow> string \<Rightarrow> exn + nat option" where
  "streamTime fromYangTime params key = (case mm_find params key of
      None \<Rightarrow> Inr None
    | Some (StringValue s) \<Rightarrow> bindE (fromYangTime s) (\<lambda>t. Inr (Some t))
    | Some _ \<Rightarrow> Inl (Logic_Error ''bad_variant_access''))"

definition connectStream :: "'u subs_env \<Rightarrow> 'u \<Rightarrow> ('n, 'u, unit) server_action" where
  "connectStream SE uid w = (case connect_stream (se_recoveryUser SE) uid (nacmUser (w_sess w)) (w_subs w) of
      Inl e \<Rightarrow> (Inl e, w)
    | Inr (a, subs) \<Rightarrow> respond 200 eventStreamHeaders Event_Stream_Body (w\<lparr>w_subs := subs\<rparr>))"

definition handleStream :: "'n server_env \<Rightarrow> 'u subs_env \<Rightarrow> notif_env \<Rightarrow> 'u stream_request \<times> query_params \<Rightarrow> ('n, 'u, unit) server_action" where
  "handleStream E SE NE rp = (case rp of
      (SubscribedStreamRequest uid, _) \<Rightarrow> connectStream SE uid
    | (NotificationStreamRequest stream encoding, params) \<Rightarrow>
        if stream \<noteq> ''NETCONF'' then liftE (throw_error 404 ''application'' ''invalid-value'' ''Stream not found'')
        else
          bindA (liftE (streamFilter params)) (\<lambda>xpathFilter.
          bindA (liftE (streamTime (ne_fromYangTime NE) params ''start-time'')) (\<lambda>startTime.
          bindA (liftE (streamTime (ne_fromYangTime NE) params ''stop-time'')) (\<lambda>stopTime.
            NotificationStream_create E (ne_now NE) encoding xpathFilter startTime stopTime))))"

definition streamRoute :: "'n server_env \<Rightarrow> 'u subs_env \<Rightarrow> notif_env \<Rightarrow> (string \<Rightarrow> 'u option) \<Rightarrow> string \<Rightarrow> (string \<Rightarrow> exn + string) \<Rightarrow> nacm \<Rightarrow>
    http_request \<Rightarrow> ('n, 'u, unit) server_action" where
  "streamRoute E SE NE uuidOf anonUser authenticate nacm req =
     (if http_method req = ''OPTIONS'' then respond 200 (mm_of_list [CORS, ALLOW_GET_HEAD_OPTIONS]) No_Body
      else catchA
        (bindA (authorizeSession anonUser authenticate nacm req) (\<lambda>_.
         bindA (liftE (asRestconfStreamRequest (env_what E) uuidOf (http_method req) (http_path req) (http_raw_query req)))
           (handleStream E SE NE)))
        plainCatch)"

definition yangRoute :: "'n server_env \<Rightarrow> (string \<Rightarrow> string option \<Rightarrow> string option) \<Rightarrow> (string \<Rightarrow> string option \<Rightarrow> string option) \<Rightarrow> string \<Rightarrow>
    (string \<Rightarrow> exn + string) \<Rightarrow> nacm \<Rightarrow> http_request \<Rightarrow> ('n, 'u, unit) server_action" where
  "yangRoute E getModule getSubmodule anonUser authenticate nacm req =
     (if http_method req = ''OPTIONS'' \<or> (http_method req \<noteq> ''GET'' \<and> http_method req \<noteq> ''HEAD'') then
        respond (if http_method req = ''OPTIONS'' then 200 else 405) (mm_of_list [CORS, ALLOW_GET_HEAD_OPTIONS]) No_Body
      else catchA
        (bindA (authorizeSession anonUser authenticate nacm req) (\<lambda>_.
         bindA (liftE (asYangModule (env_what E) getModule getSubmodule (http_path req))) (\<lambda>m.
         bindA (case m of
                  None \<Rightarrow> ret None
                | Some (Module nm) \<Rightarrow> bindA (hasAccessToYangSchema (env_sr E) True nm) (\<lambda>ok. ret (if ok then Some nm else None))
                | Some (Submodule nm) \<Rightarrow> bindA (hasAccessToYangSchema (env_sr E) False nm) (\<lambda>ok. ret (if ok then Some nm else None))) (\<lambda>found.
           case found of
             Some nm \<Rightarrow> respond 200 (mm_of_list [contentType_mime ''application/yang'', CORS]) (Yang_Body nm)
           | None \<Rightarrow> respond 404 (mm_of_list [TEXT_PLAIN, CORS]) (Text_Body ''YANG schema not found'')))))
        plainCatch)"

text \<open>The routes without a session.\<close>

definition rootRoute :: "('n, 'u, unit) server_action" where
  "rootRoute = respond 404 (mm_of_list [TEXT_PLAIN, CORS]) No_Body"

definition hostMetaRoute :: "('n, 'u, unit) server_action" where
  "hostMetaRoute = respond 200 (mm_of_list [contentType_mime ''application/xrd+xml'', CORS])
     (Text_Body (''<XRD xmlns='' @ [quote] @ ''http://docs.oasis-open.org/ns/xri/xrd-1.0'' @ [quote] @ ''><Link rel='' @ [quote] @ ''restconf'' @ [quote] @
        '' href='' @ [quote] @ restconfRoot @ [quote] @ ''/></XRD>''))"

section \<open>Start-up checks\<close>

text \<open>The YANG modules and features the constructor of the server requires; \<open>features\<close> gives those of an implemented module.\<close>

definition requiredModules :: "(string \<times> string \<times> string list) list" where
  "requiredModules =
     [(''ietf-restconf'', ''2017-01-26'', []), (''ietf-restconf-monitoring'', ''2017-01-26'', []), (''ietf-netconf'', '''', []),
      (''ietf-yang-library'', ''2019-01-04'', []), (''ietf-yang-patch'', ''2017-02-22'', []),
      (''ietf-subscribed-notifications'', ''2019-09-09'', [''encode-xml'', ''encode-json'', ''xpath'', ''subtree'', ''replay'']),
      (''ietf-restconf-subscribed-notifications'', ''2019-11-17'', []), (''rousette'', ''2026-04-20'', [])]"

definition checkModule :: "(string \<Rightarrow> string list option) \<Rightarrow> string \<times> string \<times> string list \<Rightarrow> exn + unit" where
  "checkModule features mvf = (case mvf of (module, version, required) \<Rightarrow> (case features module of
      Some fs \<Rightarrow> foldE (\<lambda>_ f. if f \<notin> set fs
        then Inl (Runtime_Error (''Module '' @ module @ ''@'' @ version @ '' does not implement feature '' @ f)) else Inr ()) () required
    | None \<Rightarrow> Inl (Runtime_Error (''Module '' @ module @ ''@'' @ version @ '' is not implemented in sysrepo''))))"

definition checkRequiredModules :: "(string \<Rightarrow> string list option) \<Rightarrow> exn + unit" where
  "checkRequiredModules features = foldE (\<lambda>_. checkModule features) () requiredModules"

end
