(* ===== verification/Server_Laws.thy ===== *)
theory Server_Laws
  imports Server_Handlers
begin

text \<open>
  Laws of the edits and of the handlers that write data: which input is refused for its meta attributes,
  what a successful edit says about the keys, the order of calls under the lock, and the batch of a YANG patch.
\<close>

section \<open>Meta attributes\<close>

text \<open>A node without attributes that could change what sysrepo does, everywhere below it too.\<close>

fun clean_input :: "'n dnode \<Rightarrow> bool" where
  "clean_input (DNode s opq v ms cs) \<longleftrightarrow> (opq \<or> list_all (\<lambda>m. \<not> forbiddenMeta m) ms) \<and> list_all clean_input cs"

lemma validateNodeMeta_iff: "validateNodeMeta ly tree pn = Inr () \<longleftrightarrow> list_all (\<lambda>m. \<not> forbiddenMeta m) (nodeMeta (snd pn))"
proof (cases "find forbiddenMeta (nodeMeta (snd pn))")
  case None
  then have "list_all (\<lambda>m. \<not> forbiddenMeta m) (nodeMeta (snd pn))" by (auto simp: find_None_iff list_all_iff)
  then show ?thesis using None by (simp add: validateNodeMeta_def)
next
  case (Some m)
  then have "m \<in> set (nodeMeta (snd pn))" and "forbiddenMeta m" by (auto simp: find_Some_iff)
  then show ?thesis using Some by (auto simp: validateNodeMeta_def list_all_iff)
qed

lemma foldE_unit_iff: "foldE (\<lambda>_. f) () xs = Inr () \<longleftrightarrow> list_all (\<lambda>x. f x = Inr ()) xs"
proof (induction xs)
  case (Cons x xs)
  then show ?case by (cases "f x") simp_all
qed simp

lemma childrenDfs_clean:
  "list_all (\<lambda>pn. list_all (\<lambda>m. \<not> forbiddenMeta m) (nodeMeta (snd pn))) (childrenDfs p t) \<longleftrightarrow> clean_input t"
proof (induction p t rule: childrenDfs.induct)
  case (1 p s opq v ms cs)
  let ?ok = "\<lambda>pn. list_all (\<lambda>m. \<not> forbiddenMeta m) (nodeMeta (snd pn))"
  have "list_all ?ok (concat (map (\<lambda>(i, c). childrenDfs (p @ [i]) c) (List.enumerate 0 cs))) \<longleftrightarrow>
      (\<forall>(i, c) \<in> set (List.enumerate 0 cs). list_all ?ok (childrenDfs (p @ [i]) c))"
    by (auto simp: list_all_iff)
  also have "\<dots> \<longleftrightarrow> (\<forall>(i, c) \<in> set (List.enumerate 0 cs). clean_input c)"
    using 1 [OF _ refl] by blast
  also have "\<dots> \<longleftrightarrow> list_all clean_input cs"
    by (simp add: list_all_length in_set_enumerate_eq Ball_def)
  finally show ?case by (auto simp: nodeMeta_def)
qed

lemma validateInput_iff: "validateInputMetaAttributes ly (t # ts) = Inr () \<longleftrightarrow> clean_input t"
  by (simp add: validateInputMetaAttributes_def foldE_unit_iff validateNodeMeta_iff childrenDfs_clean)

lemma validateInput_errors: "only_errors (validateInputMetaAttributes ly (t # ts))"
  by (auto simp: validateInputMetaAttributes_def validateNodeMeta_def intro!: only_errors_foldE split: option.split)

section \<open>Positions\<close>

lemma node_at_child:
  "node_at tree pos = Some n \<Longrightarrow> i < length (dn_children n) \<Longrightarrow> node_at tree (pos @ [i]) = Some (dn_children n ! i)"
  by (induction tree pos rule: node_at.induct) (auto split: if_splits)

lemma immediateChildren_node_at:
  "(q, c) \<in> set (immediateChildren tree pos) \<Longrightarrow> node_at tree q = Some c \<and> butlast q = pos"
  by (auto simp: immediateChildren_def in_set_enumerate_eq node_at_child split: option.splits)

section \<open>Keys\<close>

lemma foldE_invariant:
  assumes "foldE f s xs = Inr t" and "P s" and "\<And>s x t. x \<in> set xs \<Longrightarrow> P s \<Longrightarrow> f s x = Inr t \<Longrightarrow> P t"
  shows "P t"
  using assms
proof (induction xs arbitrary: s)
  case (Cons x xs)
  then show ?case by (cases "f s x") auto
qed simp

lemma foldE_each:
  assumes "foldE f s xs = Inr t" and "x \<in> set xs"
  shows "\<exists>s t. f s x = Inr t"
  using assms
proof (induction xs arbitrary: s)
  case (Cons a xs)
  then show ?case by (cases "f s a") auto
qed simp

text \<open>
  Two key values name the same entry when libyang gives the leafs created from them the same canonical value;
  the other keys of the entry are the ones of the URI.
\<close>

definition same_key :: "'n ly_data \<Rightarrow> string \<Rightarrow> string list \<Rightarrow> string list \<Rightarrow> nat \<Rightarrow> string \<Rightarrow> bool" where
  "same_key ly pathPrefix names uriKeys i v \<longleftrightarrow> i < length uriKeys \<and>
     (\<exists>a b c. listKeyPredicate names (uriKeys[i := v]) = Inr a \<and> listKeyPredicate names uriKeys = Inr b \<and>
       createdValue ly (pathPrefix @ a @ ''/'' @ names ! i) = Inr c \<and> createdValue ly (pathPrefix @ b @ ''/'' @ names ! i) = Inr c)"

definition keys_agree :: "'n ly_data \<Rightarrow> 'n dnode list \<Rightarrow> position \<Rightarrow> 'n dnode \<Rightarrow> string \<Rightarrow> path_segment \<Rightarrow> bool" where
  "keys_agree ly tree pos node lyParentPath seg \<longleftrightarrow>
     (let ctx = ld_ctx ly; ks = ly_keys ctx (dn_schema node); pathPrefix = lyParentPath @ ''/'' @ name (apiIdent seg) in
      (ly_nodeType ctx (dn_schema node) = List_Node \<longrightarrow>
         (\<forall>i < length ks. \<exists>kp kn v. findNode ly tree pos (ly_module ctx (ks ! i) @ '':'' @ ly_name ctx (ks ! i)) = Inr (Some (kp, kn)) \<and>
            termValue ctx kn = Inr v \<and> same_key ly pathPrefix (map (ly_name ctx) ks) (keys seg) i v)) \<and>
      (ly_nodeType ctx (dn_schema node) = Leaflist \<longrightarrow>
         (\<exists>v k rest a b c. termValue ctx node = Inr v \<and> keys seg = k # rest \<and> leaflistKeyPredicate v = Inr a \<and> leaflistKeyPredicate k = Inr b \<and>
            createdValue ly (pathPrefix @ a) = Inr c \<and> createdValue ly (pathPrefix @ b) = Inr c)))"

lemma compareKeyValue_True: "compareKeyValue ly a b = Inr True \<longleftrightarrow> (\<exists>c. createdValue ly a = Inr c \<and> createdValue ly b = Inr c)"
  by (cases "createdValue ly a"; cases "createdValue ly b") (auto simp: compareKeyValue_def)

lemma checkListKeys_None:
  "checkListKeys ly tree pos pfx ks uks iks = Inr None \<longleftrightarrow> (\<forall>ik \<in> set iks. checkListKey ly tree pos pfx ks uks ik = Inr None)"
proof (induction iks)
  case (Cons ik iks)
  then show ?case by (cases "checkListKey ly tree pos pfx ks uks ik") (auto split: option.splits)
qed simp

lemma checkListKey_None:
  assumes "checkListKey ly tree pos pfx ks uks (i, key) = Inr None" and "i < length ks" and "key = ks ! i"
  shows "\<exists>kp kn v. findNode ly tree pos (ly_module (ld_ctx ly) key @ '':'' @ ly_name (ld_ctx ly) key) = Inr (Some (kp, kn)) \<and>
    termValue (ld_ctx ly) kn = Inr v \<and> same_key ly pfx (map (ly_name (ld_ctx ly)) ks) uks i v"
  using assms
  by (auto simp: checkListKey_def Let_def bindE_eq_Inr_iff same_key_def compareKeyValue_True split: option.splits prod.splits if_splits)

lemma checkKeysMismatch_None: "checkKeysMismatch ly tree pos node parent seg = Inr None \<Longrightarrow> keys_agree ly tree pos node parent seg"
  unfolding keys_agree_def Let_def
proof (intro conjI impI allI)
  let ?ctx = "ld_ctx ly"
  let ?ks = "ly_keys ?ctx (dn_schema node)"
  assume ok: "checkKeysMismatch ly tree pos node parent seg = Inr None"
  {
    fix i
    assume "ly_nodeType ?ctx (dn_schema node) = List_Node" and i: "i < length ?ks"
    then have "checkListKey ly tree pos (parent @ ''/'' @ name (apiIdent seg)) ?ks (keys seg) (i, ?ks ! i) = Inr None"
      using ok by (simp add: checkKeysMismatch_def Let_def checkListKeys_None in_set_enumerate_eq)
    then show "\<exists>kp kn v. findNode ly tree pos (ly_module ?ctx (?ks ! i) @ '':'' @ ly_name ?ctx (?ks ! i)) = Inr (Some (kp, kn)) \<and>
        termValue ?ctx kn = Inr v \<and> same_key ly (parent @ ''/'' @ name (apiIdent seg)) (map (ly_name ?ctx) ?ks) (keys seg) i v"
      using i by (intro checkListKey_None) simp_all
  next
    assume "ly_nodeType ?ctx (dn_schema node) = Leaflist"
    then show "\<exists>v k rest a b c. termValue ?ctx node = Inr v \<and> keys seg = k # rest \<and> leaflistKeyPredicate v = Inr a \<and>
        leaflistKeyPredicate k = Inr b \<and> createdValue ly ((parent @ ''/'' @ name (apiIdent seg)) @ a) = Inr c \<and>
        createdValue ly ((parent @ ''/'' @ name (apiIdent seg)) @ b) = Inr c"
      using ok by (cases "keys seg") (auto simp: checkKeysMismatch_def Let_def bindE_eq_Inr_iff compareKeyValue_True split: if_splits)
  }
qed

lemma throwKeyMismatch_Inr [simp]: "throwKeyMismatch ly tree m = Inr () \<longleftrightarrow> m = None"
  by (auto simp: throwKeyMismatch_def bindE_eq_Inr_iff split: option.splits)

lemma checkEditChild_Inr:
  assumes "checkEditChild ly tree node parent seg r (q, c) = Inr r'"
  shows "isSameNode (ld_ctx ly) c seg = Inr True \<and> keys_agree ly tree q c parent seg \<and> r' = Some q \<or>
    isSameNode (ld_ctx ly) c seg = Inr False \<and> isKeyNode (ld_ctx ly) (dn_schema node) (dn_schema c) \<and> r' = r"
proof -
  obtain same where s: "isSameNode (ld_ctx ly) c seg = Inr same"
    using assms by (cases "isSameNode (ld_ctx ly) c seg") (simp_all add: checkEditChild_def)
  show ?thesis
  proof (cases same)
    case True
    then obtain m where m: "checkKeysMismatch ly tree q c parent seg = Inr m" "throwKeyMismatch ly tree m = Inr ()" "r' = Some q"
      using assms s by (auto simp: checkEditChild_def bindE_eq_Inr_iff)
    then show ?thesis using s True checkKeysMismatch_None by auto
  next
    case False
    then show ?thesis using assms s by (auto simp: checkEditChild_def invalidNode_def split: if_splits)
  qed
qed

text \<open>What a successful edit with a value guarantees of the replaced node.\<close>

definition replaces_target :: "'n ly_data \<Rightarrow> 'n dnode list \<Rightarrow> position \<Rightarrow> string \<Rightarrow> path_segment \<Rightarrow> bool" where
  "replaces_target ly edit pos parent seg \<longleftrightarrow>
     (\<exists>node. node_at edit pos = Some node \<and> isSameNode (ld_ctx ly) node seg = Inr True \<and> keys_agree ly edit pos node parent seg)"

lemma edit_children:
  assumes "foldE (checkEditChild ly tree node parent seg) None (immediateChildren tree p) = Inr (Some q)"
  shows "replaces_target ly tree q parent seg \<and> butlast q = p \<and>
    (\<forall>(q', c) \<in> set (immediateChildren tree p). isSameNode (ld_ctx ly) c seg = Inr True \<and> keys_agree ly tree q' c parent seg \<or>
      isKeyNode (ld_ctx ly) (dn_schema node) (dn_schema c))"
proof (intro conjI)
  let ?P = "\<lambda>r. \<forall>q. r = Some q \<longrightarrow> replaces_target ly tree q parent seg \<and> butlast q = p"
  have "?P (Some q)"
  proof (rule foldE_invariant [where P = ?P, OF assms])
    fix r x r'
    assume x: "x \<in> set (immediateChildren tree p)" and r: "?P r" and step: "checkEditChild ly tree node parent seg r x = Inr r'"
    obtain q' c where qc: "x = (q', c)" by fastforce
    show "?P r'" using checkEditChild_Inr [OF step [unfolded qc]] immediateChildren_node_at [OF x [unfolded qc]] r
      by (auto simp: replaces_target_def)
  qed simp
  then show "replaces_target ly tree q parent seg" "butlast q = p" by simp_all
  show "\<forall>(q', c) \<in> set (immediateChildren tree p). isSameNode (ld_ctx ly) c seg = Inr True \<and> keys_agree ly tree q' c parent seg \<or>
      isKeyNode (ld_ctx ly) (dn_schema node) (dn_schema c)"
    using foldE_each [OF assms] checkEditChild_Inr by fastforce
qed

lemma createEdit_result:
  "bindE x (\<lambda>(e, r). case r of None \<Rightarrow> throw_error c t g m | Some p \<Rightarrow> Inr (e, p)) = Inr (edit, pos) \<longleftrightarrow> x = Inr (edit, Some pos)"
  by (cases x) (auto split: option.splits)

lemma createEdit_Inr:
  assumes "createEditForPutAndPatch what ly uri (Some v) fmt = Inr (edit, pos)"
  shows "\<exists>parent seg. asLibyangPathSplit what (ld_ctx ly) uri = Inr (parent, seg) \<and> replaces_target ly edit pos parent seg \<and>
    (parent \<noteq> [] \<longrightarrow> (\<exists>node. node_at edit (butlast pos) = Some node \<and>
      (\<forall>(q, c) \<in> set (immediateChildren edit (butlast pos)). isSameNode (ld_ctx ly) c seg = Inr True \<and> keys_agree ly edit q c parent seg \<or>
        isKeyNode (ld_ctx ly) (dn_schema node) (dn_schema c))))"
proof -
  obtain parent seg where split: "asLibyangPathSplit what (ld_ctx ly) uri = Inr (parent, seg)"
    using assms by (cases "asLibyangPathSplit what (ld_ctx ly) uri") (auto simp: createEditForPutAndPatch_def Let_def)
  show ?thesis
  proof (cases "parent = []")
    case True
    have "replaces_target ly edit pos parent seg"
    proof (cases "ld_parseData ly v fmt")
      case (Inr tree)
      then have x: "(case tree of [] \<Rightarrow> Inr ([], None) | t # _ \<Rightarrow> bindE (isSameNode (ld_ctx ly) t seg) (\<lambda>same.
          if \<not> same then invalidNode ly tree [0]
          else bindE (checkKeysMismatch ly tree [0] t [] seg) (\<lambda>m. bindE (throwKeyMismatch ly tree m) (\<lambda>_. Inr (tree, Some [0]))))) = Inr (edit, Some pos)"
        using assms split True by (simp add: createEditForPutAndPatch_def Let_def createEdit_result)
      then obtain t ts where t: "tree = t # ts" by (cases tree) simp_all
      then obtain same where same: "isSameNode (ld_ctx ly) t seg = Inr same" using x by (cases "isSameNode (ld_ctx ly) t seg") simp_all
      then have "same" "checkKeysMismatch ly tree [0] t [] seg = Inr None" "edit = tree" "pos = [0]"
        using x t by (cases same; auto simp: invalidNode_def bindE_eq_Inr_iff)+
      then show ?thesis using same t True checkKeysMismatch_None [of ly tree "[0]" t "[]" seg] by (auto simp: replaces_target_def)
    qed (use assms split True in \<open>simp add: createEditForPutAndPatch_def Let_def\<close>)
    then show ?thesis using split True by auto
  next
    case False
    then obtain p node where n: "node_at edit p = Some node"
        and f: "foldE (checkEditChild ly edit node parent seg) None (immediateChildren edit p) = Inr (Some pos)"
      using assms split
      by (simp add: createEditForPutAndPatch_def Let_def createEdit_result) (auto simp: bindE_eq_Inr_iff)
    show ?thesis using edit_children [OF f] n split by auto
  qed
qed

end
