(* ===== verification/Server_Responses.thy ===== *)
theory Server_Responses
  imports Server_Laws
begin

text \<open>
  How many responses a handler writes. A \<open>quiet\<close> action writes none; one that \<open>answers\<close> writes one if it
  returns and none if it throws, so that a catch clause may still write its own. Neither starts the timer of a delayed response.
\<close>

section \<open>Quiet actions\<close>

definition reply :: "('n, 'u) world \<Rightarrow> 'n http_response list \<times> nat option" where
  "reply w = (w_responses w, w_authDelay w)"

text \<open>One more response.\<close>

definition replies :: "('n, 'u) world \<Rightarrow> 'n http_response list \<times> nat option \<Rightarrow> bool" where
  "replies w old \<longleftrightarrow> (\<exists>r. reply w = (fst old @ [r], snd old))"

lemma reply_other [simp]:
  "reply (w\<lparr>w_calls := cs\<rparr>) = reply w" "reply (w\<lparr>w_sess := sess\<rparr>) = reply w" "reply (w\<lparr>w_subs := subs\<rparr>) = reply w"
  by (simp_all add: reply_def)

lemma replies_other [simp]: "replies (w\<lparr>w_calls := cs\<rparr>) old = replies w old"
  by (simp add: replies_def)

definition quiet :: "('n, 'u, 'a) server_action \<Rightarrow> bool" where
  "quiet m \<longleftrightarrow> (\<forall>w. reply (snd (m w)) = reply w)"

definition answers :: "('n, 'u, 'a) server_action \<Rightarrow> bool" where
  "answers m \<longleftrightarrow> (\<forall>w e w'. m w = (Inl e, w') \<longrightarrow> reply w' = reply w) \<and>
     (\<forall>w a w'. m w = (Inr a, w') \<longrightarrow> replies w' (reply w))"

lemma quietD: "quiet m \<Longrightarrow> m w = (r, w') \<Longrightarrow> reply w' = reply w"
  unfolding quiet_def by (metis snd_conv)

lemma answers_Inl: "answers m \<Longrightarrow> m w = (Inl e, w') \<Longrightarrow> reply w' = reply w"
  unfolding answers_def by blast

lemma answers_Inr: "answers m \<Longrightarrow> m w = (Inr a, w') \<Longrightarrow> replies w' (reply w)"
  unfolding answers_def by blast

lemma answersI:
  "(\<And>w e w'. m w = (Inl e, w') \<Longrightarrow> reply w' = reply w) \<Longrightarrow>
   (\<And>w a w'. m w = (Inr a, w') \<Longrightarrow> replies w' (reply w)) \<Longrightarrow> answers m"
  unfolding answers_def by blast

named_theorems response_intros \<open>actions that are quiet or answer\<close>

lemma quiet_simple [response_intros]:
  "quiet (ret a)" "quiet (liftE r)" "quiet (ask f c)" "quiet (sess_switchDatastore ds)"
  "quiet (sess_getData sr p d opts)" "quiet (sess_editBatch sr edit)" "quiet (sess_applyChanges sr)"
  "quiet (sess_replaceConfig sr config)" "quiet (sess_sendRPC sr rpc)" "quiet (sess_checkNacmOperation sr rpc)"
  by (simp_all add: quiet_def ask_def Let_def record_call_def sess_switchDatastore_def sess_getData_def sess_editBatch_def
      sess_applyChanges_def sess_replaceConfig_def sess_sendRPC_def sess_checkNacmOperation_def)

lemma quiet_bindA [response_intros]: "quiet m \<Longrightarrow> (\<And>a. quiet (f a)) \<Longrightarrow> quiet (bindA m f)"
  by (simp add: quiet_def bindA_def split: prod.split sum.split) (metis snd_conv)

lemma quiet_catchA:
  assumes "quiet m" and "\<And>e k. h e = Some k \<Longrightarrow> quiet k"
  shows "quiet (catchA m h)"
  using assms by (auto simp: quiet_def catchA_def split: prod.split sum.split option.split) (metis snd_conv)+

lemma quiet_foldA [response_intros]: "(\<And>a x. quiet (f a x)) \<Longrightarrow> quiet (foldA f a xs)"
  by (induction xs arbitrary: a) (simp_all add: response_intros)

lemma quiet_if [response_intros]: "quiet m \<Longrightarrow> quiet n \<Longrightarrow> quiet (if b then m else n)"
  by simp

lemma quiet_case_option [response_intros]: "quiet m \<Longrightarrow> (\<And>a. quiet (f a)) \<Longrightarrow> quiet (case x of None \<Rightarrow> m | Some a \<Rightarrow> f a)"
  by (cases x) simp_all

lemma quiet_case_prod [response_intros]: "(\<And>a b. quiet (f a b)) \<Longrightarrow> quiet (case x of (a, b) \<Rightarrow> f a b)"
  by (cases x) simp

section \<open>Answers\<close>

lemma answers_respond [response_intros]: "answers (respond st hs b)"
  by (simp add: answers_def respond_def replies_def reply_def)

lemma answers_throw [response_intros]: "answers (liftE (throw_error c t g m))" "answers (liftE (throw_error_at c t g m p))"
  by (simp_all add: answers_def throw_error_def throw_error_at_def)

lemma answers_bindA [response_intros]:
  assumes "quiet m" and "\<And>a. answers (f a)"
  shows "answers (bindA m f)"
proof (rule answersI)
  fix w e w'
  assume "bindA m f w = (Inl e, w')"
  then show "reply w' = reply w"
    by (simp add: bindA_def split: prod.splits sum.splits) (metis quietD [OF assms(1)] answers_Inl [OF assms(2)])+
next
  fix w a w'
  assume "bindA m f w = (Inr a, w')"
  then obtain b w1 where "m w = (Inr b, w1)" and "f b w1 = (Inr a, w')" by (auto simp: bindA_def split: prod.splits sum.splits)
  then show "replies w' (reply w)" using quietD [OF assms(1)] answers_Inr [OF assms(2)] by metis
qed

lemma answers_if [response_intros]: "answers m \<Longrightarrow> answers n \<Longrightarrow> answers (if b then m else n)"
  by simp

lemma answers_case_prod [response_intros]: "(\<And>a b. answers (f a b)) \<Longrightarrow> answers (case x of (a, b) \<Rightarrow> f a b)"
  by (cases x) simp

lemma answers_catchA:
  assumes "answers m" and "\<And>e k. h e = Some k \<Longrightarrow> answers k"
  shows "answers (catchA m h)"
proof (rule answersI)
  fix w e w'
  assume "catchA m h w = (Inl e, w')"
  then show "reply w' = reply w"
    by (simp add: catchA_def split: prod.splits sum.splits option.splits) (metis answers_Inl [OF assms(1)] answers_Inl [OF assms(2)])+
next
  fix w a w'
  assume c: "catchA m h w = (Inr a, w')"
  show "replies w' (reply w)"
  proof (cases "m w")
    case (Pair r w1)
    show ?thesis
    proof (cases r)
      case (Inl e)
      then obtain k where "h e = Some k" "k w1 = (Inr a, w')" using c Pair by (auto simp: catchA_def split: option.splits)
      then show ?thesis using answers_Inl [OF assms(1)] answers_Inr [OF assms(2)] Pair Inl by metis
    next
      case (Inr b)
      then show ?thesis using answers_Inr [OF assms(1)] Pair c by (auto simp: catchA_def)
    qed
  qed
qed

lemma answers_then_ret:
  assumes "answers m"
  shows "answers (bindA m (\<lambda>a. ret (f a)))"
proof (rule answersI)
  fix w e w'
  assume "bindA m (\<lambda>a. ret (f a)) w = (Inl e, w')"
  then show "reply w' = reply w"
    by (auto simp: bindA_def dest: answers_Inl [OF assms] split: prod.splits sum.splits)
next
  fix w a w'
  assume "bindA m (\<lambda>a. ret (f a)) w = (Inr a, w')"
  then show "replies w' (reply w)"
    by (auto simp: bindA_def dest: answers_Inr [OF assms] split: prod.splits sum.splits)
qed

lemma answers_with_lock:
  assumes "answers m"
  shows "answers (with_lock sr m)"
proof -
  have "answers (finallyA m (record_call Sr_Unlock))"
    by (rule answersI) (auto simp: finallyA_def record_call_def dest: answers_Inl [OF assms] answers_Inr [OF assms] split: prod.splits)
  then show ?thesis unfolding with_lock_def by (intro response_intros)
qed

section \<open>The handlers\<close>

lemma answers_rejectImpl [response_intros]: "answers (rejectWithErrorImpl E container fmt req e)"
  unfolding rejectWithErrorImpl_def Let_def by (intro response_intros)

lemma answers_rejectWithError [response_intros]: "answers (rejectWithError E fmt req e)"
  unfolding rejectWithError_def by (intro response_intros)

lemma answers_withRestconfExceptions:
  assumes "answers (func rc)" and "\<And>fmt req r. answers (reject fmt req r)"
  shows "answers (withRestconfExceptions E func reject rc)"
  unfolding withRestconfExceptions_def
proof (rule answers_catchA [OF assms(1)])
  fix e k
  assume "restconfExceptions E (reject (df_response (rc_dataFormat rc)) (rc_req rc)) rc e = Some k"
  then show "answers k"
    by (auto simp: restconfExceptions_def intro!: assms(2) response_intros
        split: exn.splits ly_error.splits option.splits ly_error_code.splits sr_error_code.splits)
qed

lemma answers_processPost: "answers (processPost E rc)"
  unfolding processPost_def by (intro response_intros)

lemma answers_putOrPatchLocked: "answers (putOrPatchLocked E rc)"
  unfolding putOrPatchLocked_def Let_def by (intro response_intros)

lemma answers_processPutOrPlainPatch: "answers (processPutOrPlainPatch E rc :: ('n, 'u, unit) server_action)"
proof -
  have root: "answers (processRootPutOrPatch E rc :: ('n, 'u, unit) server_action)"
    unfolding processRootPutOrPatch_def by (intro response_intros)
  note locked = answers_putOrPatchLocked [of E rc] answers_with_lock [OF answers_putOrPatchLocked, of "env_sr E" E rc]
  show ?thesis
    by (rule answersI) (auto simp: processPutOrPlainPatch_def split: if_splits
        dest: answers_Inl [OF root] answers_Inr [OF root] answers_Inl [OF locked(1)] answers_Inr [OF locked(1)]
          answers_Inl [OF locked(2)] answers_Inr [OF locked(2)])
qed

lemma answers_processWrite: "\<not> isYangPatch (rc_req rc) \<Longrightarrow> answers (processWrite E rc)"
  unfolding processWrite_def
  by (auto intro: answers_withRestconfExceptions answers_processPost answers_processPutOrPlainPatch answers_rejectWithError)

lemma quiet_internal_rpcs [response_intros]:
  "quiet (rpcEstablish E SE sh fmt t p)" "quiet (rpcDelete E SE t p)"
  by (simp_all add: quiet_def rpcEstablish_def rpcDelete_def bindA_def split: sum.split prod.split)

lemma quiet_processInternalRPC [response_intros]: "quiet (processInternalRPC E SE t p sh fmt)"
  unfolding processInternalRPC_def Let_def by (intro response_intros) (auto intro: response_intros split: internal_rpc.split)

lemma answers_processRpc: "answers (processRpc E SE rc)"
proof -
  have "answers (processActionOrRPC E SE rc)"
    unfolding processActionOrRPC_def Let_def rpcResponse_def by (intro response_intros)
  then show ?thesis unfolding processRpc_def by (intro answers_withRestconfExceptions answers_rejectWithError)
qed

text \<open>The body of a request: its chunks are concatenated and processed once.\<close>

lemma receive_chunks:
  "list_all (\<lambda>c. c \<noteq> []) bs \<Longrightarrow>
   receive_body process (bs @ [[]]) rc = bindA (process (rc\<lparr>rc_payload := rc_payload rc @ concat bs\<rparr>)) (\<lambda>_. ret (rc\<lparr>rc_payload := rc_payload rc @ concat bs\<rparr>))"
proof (induction bs arbitrary: rc)
  case (Cons b bs)
  then show ?case using Cons.IH [of "rc\<lparr>rc_payload := rc_payload rc @ b\<rparr>"] by (simp add: receive_body_def bindA_def fun_eq_iff)
qed (simp add: receive_body_def bindA_def fun_eq_iff split: prod.split sum.split)

section \<open>The route\<close>

text \<open>What a handler of the route has written when it returns: nothing yet if the body is awaited or the response waits for its timer.\<close>

fun outcome :: "http_request \<Rightarrow> 'n http_response list \<times> nat option \<Rightarrow> exn + handler_result \<Rightarrow> ('n, 'u) world \<Rightarrow> bool" where
  "outcome req old (Inl e) w \<longleftrightarrow> reply w = old"
| "outcome req old (Inr Finished) w \<longleftrightarrow> replies w old \<or> w_responses w = fst old \<and> w_authDelay w \<noteq> None"
| "outcome req old (Inr (Await_Write rc)) w \<longleftrightarrow> reply w = old \<and> rc_req rc = req"
| "outcome req old (Inr (Await_Rpc rc)) w \<longleftrightarrow> reply w = old \<and> rc_req rc = req"

definition routed :: "http_request \<Rightarrow> ('n, 'u, handler_result) server_action \<Rightarrow> bool" where
  "routed req m \<longleftrightarrow> (\<forall>w. outcome req (reply w) (fst (m w)) (snd (m w)))"

lemma routedD: "routed req m \<Longrightarrow> m w = (r, w') \<Longrightarrow> outcome req (reply w) r w'"
  unfolding routed_def by (metis fst_conv snd_conv)

lemma routedI: "(\<And>w r w'. m w = (r, w') \<Longrightarrow> outcome req (reply w) r w') \<Longrightarrow> routed req m"
  unfolding routed_def by (metis prod.collapse)

lemma routed_finish: "answers m \<Longrightarrow> routed req (finish m)"
  by (rule routedI) (auto simp: finish_def bindA_def dest: answers_Inl answers_Inr split: prod.splits sum.splits)

lemma routed_rejectAuth: "answers m \<Longrightarrow> routed req (finish (rejectAuth a m))"
proof (cases "auth_delay a")
  case None
  then show "answers m \<Longrightarrow> ?thesis" by (simp add: rejectAuth_def routed_finish)
next
  case (Some d)
  then show ?thesis by (simp add: rejectAuth_def routed_def finish_def bindA_def reply_def)
qed

lemma routed_bindA:
  assumes "quiet m" and "\<And>a. routed req (f a)"
  shows "routed req (bindA m f)"
proof (rule routedI)
  fix w r w'
  assume b: "bindA m f w = (r, w')"
  obtain r1 w1 where m: "m w = (r1, w1)" by fastforce
  show "outcome req (reply w) r w'"
  proof (cases r1)
    case (Inl e)
    then show ?thesis using b m quietD [OF assms(1) m] by (auto simp: bindA_def)
  next
    case (Inr a)
    then have "f a w1 = (r, w')" using b m by (simp add: bindA_def)
    from routedD [OF assms(2) this] show ?thesis using quietD [OF assms(1) m] by simp
  qed
qed

lemma routed_catchA:
  assumes "routed req m" and "\<And>e k. h e = Some k \<Longrightarrow> routed req k"
  shows "routed req (catchA m h)"
proof (rule routedI)
  fix w r w'
  assume c: "catchA m h w = (r, w')"
  obtain r1 w1 where m: "m w = (r1, w1)" by fastforce
  note out = routedD [OF assms(1) m]
  show "outcome req (reply w) r w'"
  proof (cases "\<exists>e k. r1 = Inl e \<and> h e = Some k")
    case True
    then obtain e k where e: "r1 = Inl e" "h e = Some k" by blast
    then have "k w1 = (r, w')" using c m by (simp add: catchA_def)
    from routedD [OF assms(2) [OF e(2)] this] show ?thesis using out e(1) by simp
  next
    case False
    then have "(r, w') = (r1, w1)" using c m by (auto simp: catchA_def split: sum.splits option.splits)
    then show ?thesis using out by simp
  qed
qed

lemma answers_handlers:
  "answers (handleGetData E df req r)" "answers (handleOptions E req)" "answers (handleDelete E r)"
proof -
  show "answers (handleGetData E df req r)" unfolding handleGetData_def by (intro response_intros)
  show "answers (handleOptions E req)" unfolding handleOptions_def by (intro response_intros)
  show "answers (handleDelete E r)" unfolding handleDelete_def
    by (intro response_intros quiet_catchA) (auto intro: response_intros split: exn.splits sr_error_code.splits)
qed

lemma routed_handleRequest: "routed req (handleRequest E lib df req r)"
proof -
  have wr: "routed req (handleWrite df req r)"
    by (simp add: routed_def handleWrite_def bindA_def sess_switchDatastore_def requestContext_def throw_error_def throw_error_at_def)
  have rpc: "routed req (ret (Await_Rpc (requestContext req df r)))" by (simp add: routed_def requestContext_def)
  show ?thesis
    by (cases "req_type r")
      (auto simp: handleRequest_def routed_def requestContext_def intro!: wr [unfolded routed_def, rule_format]
        routed_finish [OF answers_handlers(1), unfolded routed_def, rule_format]
        routed_finish [OF answers_handlers(2), unfolded routed_def, rule_format]
        routed_finish [OF answers_handlers(3), unfolded routed_def, rule_format]
        routed_finish [OF answers_bindA [OF quiet_simple(2) answers_respond], unfolded routed_def, rule_format])
qed

lemma routed_restconfRoute: "routed req (restconfRoute E stod lib anon authenticate nacm req :: ('n, 'u, handler_result) server_action)"
proof -
  have c: "routed req k" if "restconfCatch E fmt req e = Some k" for fmt e and k :: "('n, 'u, handler_result) server_action"
    using that unfolding restconfCatch_def restconfAuthFailed_def
    by (auto intro!: routed_finish routed_rejectAuth response_intros split: exn.splits)
  have "quiet (authorizeSession anon authenticate nacm req :: ('n, 'u, unit) server_action)" by (simp add: quiet_def authorizeSession_def split: sum.split)
  then have "routed req (bindA (authorizeSession anon authenticate nacm req) (\<lambda>_.
      bindA (liftE (asRestconfRequest (env_what E) (env_ctx E) (http_method req) (http_raw_path req) (http_raw_query req))) (handleRequest E lib df req)) :: ('n, 'u, handler_result) server_action)" for df
    by (rule routed_bindA) (intro routed_bindA routed_handleRequest quiet_simple)
  moreover have "routed req (liftE (Inl e) :: ('n, 'u, handler_result) server_action)" for e by (simp add: routed_def)
  ultimately show ?thesis unfolding restconfRoute_def by (cases "chooseDataEncoding stod (http_header req)") (auto intro: routed_catchA c)
qed

end
