(* ===== verification/Server_Frame.thy ===== *)
theory Server_Frame
  imports Server_Handlers
begin

text \<open>
  The common shape of invariants of the handlers: what a predicate on the state has to tolerate so that every handler keeps it. The locale
  \<open>action_frame\<close> is the contract, \<open>write_frame\<close> and \<open>read_frame\<close> extend it for the handlers that write and that read; the
  policies of \<open>Server_Policy\<close> and the invariants of the running server are instances.
\<close>

section \<open>Handlers in general\<close>

lemma keeps_finish: "keeps I m \<Longrightarrow> keeps I (finish m)"
  unfolding finish_def by (intro keeps_intros)

fun is_write :: "'n sr_operation \<Rightarrow> bool" where
  "is_write (Sr_EditBatch e) = True"
| "is_write Sr_ApplyChanges = True"
| "is_write (Sr_ReplaceConfig e) = True"
| "is_write _ = False"

locale action_frame =
  fixes I :: "('n, 'u) world \<Rightarrow> bool"
    and allowed :: "'n sr_operation \<Rightarrow> bool"
  assumes frame_call: "allowed c \<Longrightarrow> I w \<Longrightarrow> I (record_call c w)"
    and frame_respond: "I w \<Longrightarrow> I (w\<lparr>w_responses := rs\<rparr>)"
    and frame_delay: "I w \<Longrightarrow> I (w\<lparr>w_authDelay := d\<rparr>)"
begin

lemma keeps_rejectAuth: "keeps I m \<Longrightarrow> keeps I (rejectAuth a m)"
  by (auto simp: rejectAuth_def keeps_def frame_delay split: auth_failure_state.splits)

lemma keeps_ask: "allowed c \<Longrightarrow> keeps I (ask f c)"
  by (rule keepsI) (simp add: ask_def frame_call Let_def)

lemma keeps_respond: "keeps I (respond st hs b)"
  by (rule keepsI) (simp add: respond_def frame_respond)

lemma keeps_getData: "allowed (Sr_GetData p d opts) \<Longrightarrow> keeps I (sess_getData sr p d opts)"
  by (simp add: sess_getData_def keeps_ask)

lemma keeps_with_lock:
  "allowed Sr_Lock \<Longrightarrow> allowed Sr_Unlock \<Longrightarrow> keeps I m \<Longrightarrow> keeps I (with_lock sr m)"
  unfolding with_lock_def by (intro keeps_bindA keeps_ask keeps_finallyA frame_call)

text \<open>Errors are reported without a call to sysrepo.\<close>

lemma keeps_reject: "keeps I (rejectWithErrorImpl E container fmt req e)"
  unfolding rejectWithErrorImpl_def Let_def by (intro keeps_bindA keeps_liftE keeps_respond)

lemma keeps_rejectWithError: "keeps I (rejectWithError E fmt req e)"
  unfolding rejectWithError_def by (rule keeps_reject)

lemma keeps_restconfExceptions:
  assumes "\<And>r. keeps I (reject r)" and "restconfExceptions E reject rc e = Some k"
  shows "keeps I k"
  using assms(2)
  by (auto simp: restconfExceptions_def intro!: assms(1) keeps_bindA keeps_liftE
      split: exn.splits ly_error.splits option.splits ly_error_code.splits sr_error_code.splits)

lemma keeps_withRestconfExceptions:
  "keeps I (func rc) \<Longrightarrow> (\<And>fmt req r. keeps I (reject fmt req r)) \<Longrightarrow>
   keeps I (withRestconfExceptions E func reject rc)"
  unfolding withRestconfExceptions_def by (rule keeps_catchA) (auto intro: keeps_restconfExceptions)

lemma keeps_restconfCatch:
  assumes "restconfCatch E fmt req e = Some k"
  shows "keeps I k"
  using assms unfolding restconfCatch_def restconfAuthFailed_def
  by (auto intro!: keeps_finish keeps_rejectAuth keeps_rejectWithError split: exn.splits)

lemma keeps_on_data: "(\<And>rc. keeps I (process rc)) \<Longrightarrow> keeps I (on_data process chunk rc)"
  by (simp add: keeps_ret keeps_bindA)

lemma keeps_receive_body: "(\<And>rc. keeps I (process rc)) \<Longrightarrow> keeps I (receive_body process chunks rc)"
  unfolding receive_body_def by (rule keeps_foldA) (rule keeps_on_data)

lemma keeps_plainCatch: "plainCatch e = Some k \<Longrightarrow> keeps I k"
  by (auto simp: plainCatch_def plainAuthFailed_def plainError_def intro: keeps_rejectAuth keeps_respond split: exn.splits)

end

section \<open>Writing\<close>

text \<open>While data is written: any call, on the session as it is.\<close>

locale write_frame = action_frame I "\<lambda>_ :: 'n sr_operation. True" for I :: "('n, 'u) world \<Rightarrow> bool"
begin

lemmas calls = keeps_ask [OF TrueI] keeps_getData [OF TrueI] keeps_with_lock [OF TrueI TrueI]

lemma keeps_processPost: "keeps I (processPost E rc)"
  unfolding processPost_def sess_editBatch_def sess_applyChanges_def
  by (intro keeps_intros calls keeps_respond)

lemma keeps_patchLoopBody: "keeps I (patchLoopBody E rc pid patch merged ec)"
proof -
  have "keeps I k" if "restconfExceptions E (rejectYangPatchEdit E pid i f q) rc e = Some k" for k e i f q
    using that by (rule keeps_restconfExceptions [rotated]) (simp add: rejectYangPatchEdit_def keeps_reject)
  then show ?thesis
    unfolding patchLoopBody_def by (intro keeps_bindA keeps_liftE keeps_catchA) (auto intro!: keeps_bindA keeps_ret)
qed

lemma keeps_processYangPatch: "keeps I (processYangPatch E rc)"
proof -
  have "keeps I (processYangPatchImpl E patch pid rc)" for patch pid
    unfolding processYangPatchImpl_def sess_editBatch_def sess_applyChanges_def
    by (intro keeps_intros calls keeps_foldA keeps_patchLoopBody)
  then show ?thesis
    unfolding processYangPatch_def Let_def
    by (intro keeps_intros keeps_withRestconfExceptions keeps_respond) (auto simp: rejectYangPatch_def keeps_reject)
qed

lemma keeps_putOrPatchLocked: "keeps I (putOrPatchLocked E rc)"
  unfolding putOrPatchLocked_def Let_def sess_editBatch_def sess_applyChanges_def
  by (intro keeps_intros calls keeps_respond)

lemma keeps_processPutOrPlainPatch: "keeps I (processPutOrPlainPatch E rc)"
proof (rule keepsI)
  fix w
  assume w: "I w"
  have "keeps I (processRootPutOrPatch E rc)"
    unfolding processRootPutOrPatch_def sess_replaceConfig_def sess_editBatch_def sess_applyChanges_def
    by (intro keeps_intros calls keeps_respond)
  then show "I (snd (processPutOrPlainPatch E rc w))"
    using w keepsD [OF keeps_putOrPatchLocked w] keepsD [OF calls(3) [OF keeps_putOrPatchLocked] w]
    by (simp add: processPutOrPlainPatch_def keepsD)
qed

lemma keeps_processWrite: "keeps I (processWrite E rc)"
  unfolding processWrite_def
  by (intro keeps_if keeps_withRestconfExceptions keeps_processPost keeps_processYangPatch keeps_processPutOrPlainPatch keeps_rejectWithError)

lemma keeps_on_write: "keeps I (on_data (processWrite E) chunk rc)"
  by (rule keeps_on_data) (rule keeps_processWrite)

end

section \<open>Reading\<close>

text \<open>While data is read: any call that does not write, whatever datastore is active.\<close>

locale read_frame = action_frame I "\<lambda>c :: 'n sr_operation. \<not> is_write c" for I :: "('n, 'u) world \<Rightarrow> bool" +
  assumes frame_switch: "I w \<Longrightarrow> I (w\<lparr>w_sess := switchDatastore ds (w_sess w)\<rparr>)"
begin

lemma keeps_switch: "keeps I (sess_switchDatastore ds)"
  by (rule keepsI) (simp add: sess_switchDatastore_def frame_switch)

lemma read_calls:
  "keeps I (sess_getData sr p d opts)" "keeps I (sess_sendRPC sr t)"
  "keeps I (sess_checkNacmOperation sr t)"
  by (simp_all add: sess_getData_def sess_sendRPC_def sess_checkNacmOperation_def keeps_ask)

lemma keeps_handleGetData: "keeps I (handleGetData E df req r)"
  unfolding handleGetData_def by (intro keeps_intros read_calls keeps_switch keeps_respond)

lemma keeps_handleOptions: "keeps I (handleOptions E req)"
  unfolding handleOptions_def by (intro keeps_intros keeps_respond)

lemma keeps_NotificationStream: "keeps I (NotificationStream_create E now fmt f a b)"
  unfolding NotificationStream_create_def NotificationStream_activate_def subscribeModule_def subscribe_notifications_def
  by (intro keeps_intros keeps_foldA keeps_ask keeps_respond) (auto intro!: keeps_ret keeps_liftE split: exn.splits sr_error_code.splits)

lemma keeps_hasAccessToYangSchema: "keeps I (hasAccessToYangSchema sr b nm)"
  unfolding hasAccessToYangSchema_def by (intro keeps_intros read_calls keeps_switch)

lemma keeps_apiResource: "keeps I (bindA (liftE doc) (\<lambda>d. respond st hs (b d)))"
  by (intro keeps_intros keeps_respond)

end

text \<open>The RPCs that the server handles itself change the table of subscriptions; what they keep is an assumption.\<close>

locale rpc_frame = read_frame I for I :: "('n, 'u::linorder) world \<Rightarrow> bool" +
  fixes SE :: "'u subs_env"
  assumes frame_establish: "keeps I (rpcEstablish E SE sh fmt t p)"
    and frame_delete: "keeps I (rpcDelete E SE t p)"
begin

lemma keeps_processInternalRPC: "keeps I (processInternalRPC E SE t p sh fmt)"
  unfolding processInternalRPC_def Let_def
  by (intro keeps_intros read_calls keeps_switch) (auto intro: frame_establish frame_delete split: internal_rpc.split)

lemma keeps_processRpc: "keeps I (processRpc E SE rc)"
proof -
  have "keeps I (processActionOrRPC E SE rc)"
    unfolding processActionOrRPC_def Let_def rpcResponse_def
    by (intro keeps_intros read_calls keeps_switch keeps_processInternalRPC keeps_respond)
  then show ?thesis unfolding processRpc_def by (intro keeps_withRestconfExceptions keeps_rejectWithError)
qed

lemma keeps_on_rpc: "keeps I (on_data (processRpc E SE) chunk rc)"
  by (rule keeps_on_data) (rule keeps_processRpc)

end

section \<open>Whole routes\<close>

text \<open>A predicate that tolerates every call and any session is kept by the routes as a whole.\<close>

locale route_frame = write_frame I for I :: "('n, 'u) world \<Rightarrow> bool" +
  assumes frame_session: "I w \<Longrightarrow> I (w\<lparr>w_sess := s\<rparr>)"

sublocale route_frame \<subseteq> reading: read_frame I
  by unfold_locales (simp_all add: frame_call frame_session frame_respond frame_delay)

context route_frame
begin

lemma keeps_authorizeSession: "keeps I (authorizeSession anonUser authenticate nacm req)"
  by (rule keepsI) (simp add: authorizeSession_def frame_session split: sum.split)

lemma keeps_handleDelete: "keeps I (handleDelete E r)"
  unfolding handleDelete_def sess_editBatch_def sess_applyChanges_def
  by (intro keeps_intros calls reading.keeps_switch keeps_respond) (auto intro: keeps_liftE keeps_ret split: exn.splits sr_error_code.splits)

lemma keeps_handleRequest: "keeps I (handleRequest E lib df req r)"
  by (cases "req_type r")
    (auto simp: handleRequest_def handleWrite_def
      intro!: keeps_intros keeps_finish reading.keeps_switch reading.keeps_handleGetData reading.keeps_handleOptions keeps_respond keeps_handleDelete)

lemma keeps_restconfRoute: "keeps I (restconfRoute E stod lib anonUser authenticate nacm req)"
  unfolding restconfRoute_def
  by (cases "chooseDataEncoding stod (http_header req)")
    (auto intro!: keeps_catchA keeps_bindA keeps_liftE keeps_authorizeSession keeps_handleRequest intro: keeps_restconfCatch)

lemma keeps_yangRoute: "keeps I (yangRoute E getModule getSubmodule anonUser authenticate nacm req)"
  unfolding yangRoute_def
  by (auto intro!: keeps_intros keeps_authorizeSession reading.keeps_hasAccessToYangSchema keeps_respond intro: keeps_plainCatch
      split: module_or_submodule.splits)

end

section \<open>The table of subscriptions\<close>

text \<open>Only RPCs and the stream route change it.\<close>

interpretation same_subs: route_frame "\<lambda>w. w_subs w = d" for d
  by unfold_locales (simp_all add: record_call_def)

lemma catchA_same_subs: "w_subs (snd (catchA m plainCatch w)) = w_subs (snd (m w))"
  using keepsD [OF same_subs.keeps_plainCatch]
  by (auto simp: catchA_def split: prod.split sum.split option.split)

end
