(* ===== verification/Server_Policy.thy ===== *)
theory Server_Policy
  imports Server_Frame
begin

text \<open>
  Which calls a request makes to sysrepo, on which datastore and for which user. The interface is a policy:
  what is known of the session while a group of handlers runs, and which calls they may make then.
\<close>

section \<open>Policies\<close>

definition policy_inv :: "(sr_session \<Rightarrow> bool) \<Rightarrow> ('n sr_call \<Rightarrow> bool) \<Rightarrow> ('n, 'u) world \<Rightarrow> bool" where
  "policy_inv S Q w \<longleftrightarrow> S (w_sess w) \<and> (\<forall>c \<in> set (w_calls w). Q c)"

locale call_policy =
  fixes S :: "sr_session \<Rightarrow> bool"
    and allowed :: "'n sr_operation \<Rightarrow> bool"
    and Q :: "'n sr_call \<Rightarrow> bool"
  assumes permitted: "S s \<Longrightarrow> allowed c \<Longrightarrow> Q \<lparr>call_ds = activeDatastore s, call_user = nacmUser s, call_op = c\<rparr>"

text \<open>A policy is a frame of the handlers.\<close>

sublocale call_policy \<subseteq> action_frame "policy_inv S Q" allowed
  by unfold_locales (auto simp: policy_inv_def record_call_def permitted)

text \<open>While data is written: any call, on the session as it is.\<close>

locale write_policy = call_policy S "\<lambda>_ :: 'n sr_operation. True" Q for S and Q :: "'n sr_call \<Rightarrow> bool"

sublocale write_policy \<subseteq> write_frame "policy_inv S Q" ..

text \<open>While data is read: any call that does not write, whatever datastore is active.\<close>

locale read_policy = call_policy S "\<lambda>c :: 'n sr_operation. \<not> is_write c" Q for S and Q :: "'n sr_call \<Rightarrow> bool" +
  assumes any_datastore: "S s \<Longrightarrow> S (switchDatastore ds s)"

sublocale read_policy \<subseteq> read_frame "policy_inv S Q"
  by unfold_locales (simp add: policy_inv_def any_datastore)

lemma policy_ignores_subs: "policy_inv S Q (w\<lparr>w_subs := subs\<rparr>) = policy_inv S Q w"
  by (simp add: policy_inv_def)

sublocale read_policy \<subseteq> rpc: rpc_frame "policy_inv S Q" SE for SE
  by unfold_locales
    (simp_all add: rpcEstablish_def rpcDelete_def keeps_bindA keeps_liftE keeps_def bindA_def policy_ignores_subs split: prod.split sum.split)

section \<open>The policy of the server\<close>

definition authorised_call :: "string option \<Rightarrow> 'n sr_call \<Rightarrow> bool" where
  "authorised_call user c \<longleftrightarrow> call_user c = user \<and> (is_write (call_op c) \<longrightarrow> call_ds c \<notin> {Operational, FactoryDefault})"

abbreviation reading :: "string option \<Rightarrow> ('n, 'u) world \<Rightarrow> bool" where
  "reading user \<equiv> policy_inv (\<lambda>s. nacmUser s = user) (authorised_call user)"

abbreviation writing :: "string option \<Rightarrow> ('n, 'u) world \<Rightarrow> bool" where
  "writing user \<equiv> policy_inv (\<lambda>s. nacmUser s = user \<and> activeDatastore s \<notin> {Operational, FactoryDefault}) (authorised_call user)"

interpretation reader: read_policy "\<lambda>s. nacmUser s = user" "authorised_call user" for user
  by unfold_locales (simp_all add: authorised_call_def switchDatastore_def)

interpretation writer: write_policy "\<lambda>s. nacmUser s = user \<and> activeDatastore s \<notin> {Operational, FactoryDefault}" "authorised_call user" for user
  by unfold_locales (simp add: authorised_call_def)

text \<open>Before a request is authorized no call is made.\<close>

interpretation silent: call_policy "\<lambda>_. True" "\<lambda>_ :: 'n sr_operation. False" "\<lambda>_ :: 'n sr_call. False"
  by unfold_locales simp

lemma writing_reading: "writing user w \<Longrightarrow> reading user w"
  by (simp add: policy_inv_def)

lemma switch_writing:
  assumes "reading user w" and "ds \<notin> {Operational, FactoryDefault}"
  shows "writing user (w\<lparr>w_sess := switchDatastore ds (w_sess w)\<rparr>)"
  using assms by (auto simp: policy_inv_def switchDatastore_def)

lemma writable_datastore: "\<not> isReadOnly d \<Longrightarrow> (case d of Some ds \<Rightarrow> ds | None \<Rightarrow> Running) \<notin> {Operational, FactoryDefault}"
  by (auto simp: isReadOnly_def split: option.splits)

section \<open>A request from its head to its body\<close>

lemma keeps_reading_switch:
  assumes "\<not> isReadOnly ds" and "\<And>a. keeps (writing user) (f a)"
  shows "keeps (reading user) (bindA (sess_switchDatastore (case ds of Some d \<Rightarrow> d | None \<Rightarrow> Running)) f)"
proof (rule keepsI)
  fix w :: "('a, 'b) world"
  assume "reading user w"
  from keepsD [OF assms(2) switch_writing [OF this writable_datastore [OF assms(1)]]]
  show "reading user (snd (bindA (sess_switchDatastore (case ds of Some d \<Rightarrow> d | None \<Rightarrow> Running)) f w))"
    by (simp add: bindA_def sess_switchDatastore_def writing_reading)
qed

lemma handleDelete_reading: "keeps (reading user) (handleDelete E r)"
proof (cases "isReadOnly (req_datastore r)")
  case False
  show ?thesis unfolding handleDelete_def if_not_P [OF False] sess_editBatch_def sess_applyChanges_def
    by (intro keeps_reading_switch [OF False] keeps_intros writer.calls writer.keeps_respond)
      (auto intro: keeps_liftE keeps_ret split: exn.splits sr_error_code.splits)
qed (simp add: handleDelete_def keeps_liftE)

lemma handleWrite_cases:
  assumes "reading user w" and "handleWrite df req r w = (res, w')"
  shows "reading user w' \<and> (\<forall>rc. res = Inr (Await_Write rc) \<longrightarrow> writing user w')"
proof (cases "isReadOnly (req_datastore r)")
  case False
  note wr = switch_writing [OF assms(1) writable_datastore [OF False]]
  show ?thesis using assms(2) False wr writing_reading [OF wr]
    by (auto simp: handleWrite_def bindA_def sess_switchDatastore_def split: if_splits)
qed (use assms in \<open>auto simp: handleWrite_def\<close>)

lemma handleRequest_cases:
  assumes "reading user w" and "handleRequest E lib df req r w = (res, w')"
  shows "reading user w' \<and> (\<forall>rc. res = Inr (Await_Write rc) \<longrightarrow> writing user w')"
proof -
  have fin: "reading user w' \<and> (\<forall>rc. res = Inr (Await_Write rc) \<longrightarrow> writing user w')"
    if "keeps (reading user) m" and "finish m w = (res, w')" for m
  proof -
    have "res \<noteq> Inr (Await_Write rc)" for rc using that(2) by (auto simp: finish_def bindA_def split: prod.splits sum.splits)
    then show ?thesis using keepsD [OF keeps_finish [OF that(1)] assms(1)] that(2) by simp
  qed
  show ?thesis
  proof (cases "req_type r \<in> {CreateOrReplaceThisNode, CreateChildren, MergeData, Execute, ExecuteInternal}")
    case True
    then show ?thesis using assms handleWrite_cases [OF assms(1)] by (auto simp: handleRequest_def)
  next
    case False
    have api: "keeps (reading user) (bindA (liftE (apiResource (env_ly E) lib (req_type r) (df_response df))) (\<lambda>doc.
        respond 200 (mm_of_list [contentType (df_response df), CORS]) (Paths_Body (df_response df) doc)))"
      by (rule reader.keeps_apiResource)
    have "\<exists>m. keeps (reading user) m \<and> finish m w = (res, w')"
    proof (cases "req_type r")
      case GetData
      then show ?thesis using assms(2) by (intro exI [of _ "handleGetData E df req r"]) (simp add: handleRequest_def reader.keeps_handleGetData)
    next
      case DeleteNode
      then show ?thesis using assms(2) by (intro exI [of _ "handleDelete E r"]) (simp add: handleRequest_def handleDelete_reading)
    next
      case OptionsQuery
      then show ?thesis using assms(2) by (intro exI [of _ "handleOptions E req"]) (simp add: handleRequest_def reader.keeps_handleOptions)
    qed (use False assms(2) api in \<open>auto simp: handleRequest_def\<close>)
    then show ?thesis using fin by blast
  qed
qed

lemma restconfCatch_Finished:
  assumes "restconfCatch E fmt req e = Some k" and "k w = (Inr x, w')"
  shows "x = Finished"
  using assms by (auto simp: restconfCatch_def finish_def bindA_def split: exn.splits prod.splits sum.splits)

text \<open>
  After the route: either no call was made, or the request was authorized and the session is the one that
  authorization gave, on a writable datastore if the body is awaited for writing.
\<close>

definition after_route :: "(exn + sr_session) \<Rightarrow> (exn + handler_result) \<Rightarrow> ('n, 'u) world \<Rightarrow> bool" where
  "after_route auth res w \<longleftrightarrow> w_calls w = [] \<and> (\<forall>h. res = Inr h \<longrightarrow> h = Finished) \<or>
     (\<exists>sess. auth = Inr sess \<and> reading (nacmUser sess) w \<and> (\<forall>rc. res = Inr (Await_Write rc) \<longrightarrow> writing (nacmUser sess) w))"

lemma catch_silent:
  assumes "w_calls w = []"
  shows "case catchA (liftE (Inl e)) (restconfCatch E fmt req) w of (res, w') \<Rightarrow> after_route auth res w'"
proof (cases "restconfCatch E fmt req e :: ('a, 'b, handler_result) server_action option")
  case (Some k)
  have "policy_inv (\<lambda>_. True) (\<lambda>_. False) w" using assms by (simp add: policy_inv_def)
  from keepsD [OF silent.keeps_restconfCatch [OF Some] this] have "w_calls (snd (k w)) = []" by (simp add: policy_inv_def)
  then show ?thesis using Some restconfCatch_Finished [OF Some]
    by (auto simp: catchA_def after_route_def split: prod.split)
qed (use assms in \<open>simp add: catchA_def after_route_def\<close>)

lemma restconfRoute_cases:
  assumes "w_calls w = []" and "restconfRoute E stod lib anon authenticate nacm req w = (res, w')"
  shows "after_route (authorizeRequest anon authenticate nacm (w_sess w) (http_header req)) res w'"
proof (cases "chooseDataEncoding stod (http_header req)")
  case (Inl e)
  then have "restconfRoute E stod lib anon authenticate nacm req w = catchA (liftE (Inl e)) (restconfCatch E JSON req) w"
    by (simp add: restconfRoute_def)
  then show ?thesis using catch_silent [OF assms(1)] assms(2) by (metis case_prod_conv)
next
  case (Inr df)
  let ?auth = "authorizeRequest anon authenticate nacm (w_sess w) (http_header req)"
  show ?thesis
  proof (cases ?auth)
    case (Inl e)
    then have "restconfRoute E stod lib anon authenticate nacm req w = catchA (liftE (Inl e)) (restconfCatch E (df_response df) req) w"
      using Inr by (simp add: restconfRoute_def bindA_def authorizeSession_def catchA_def)
    then show ?thesis using catch_silent [OF assms(1)] assms(2) by (metis case_prod_conv)
  next
    case (Inr sess)
    let ?w = "w\<lparr>w_sess := sess\<rparr>" and ?U = "nacmUser sess"
    let ?rest = "bindA (liftE (asRestconfRequest (env_what E) (env_ctx E) (http_method req) (http_raw_path req) (http_raw_query req)))
      (handleRequest E lib df req)"
    have w: "reading ?U ?w" using assms(1) by (simp add: policy_inv_def)
    obtain res1 w1 where r1: "?rest ?w = (res1, w1)" by fastforce
    then have inv: "reading ?U w1 \<and> (\<forall>rc. res1 = Inr (Await_Write rc) \<longrightarrow> writing ?U w1)"
      using w handleRequest_cases [OF w] by (auto simp: bindA_def split: sum.splits)
    have route: "restconfRoute E stod lib anon authenticate nacm req w = (case res1 of Inr h \<Rightarrow> (Inr h, w1)
        | Inl e \<Rightarrow> (case restconfCatch E (df_response df) req e of None \<Rightarrow> (Inl e, w1) | Some k \<Rightarrow> k w1))"
      using \<open>chooseDataEncoding stod (http_header req) = Inr df\<close> Inr r1
      by (simp add: restconfRoute_def catchA_def bindA_def authorizeSession_def)
    have "reading ?U w' \<and> (\<forall>rc. res = Inr (Await_Write rc) \<longrightarrow> writing ?U w')"
    proof (cases res1)
      case (Inr h)
      then show ?thesis using route assms(2) inv by auto
    next
      case (Inl e)
      show ?thesis
      proof (cases "restconfCatch E (df_response df) req e :: ('a, 'b, handler_result) server_action option")
        case None
        then show ?thesis using route assms(2) inv Inl by auto
      next
        case (Some k)
        then have kw: "k w1 = (res, w')" using route assms(2) Inl by simp
        then have "reading ?U w'" using keepsD [OF reader.keeps_restconfCatch [OF Some], of ?U w1] inv by simp
        then show ?thesis using restconfCatch_Finished [OF Some] kw by blast
      qed
    qed
    then show ?thesis using Inr by (auto simp: after_route_def)
  qed
qed

lemma receive_writing: "keeps (writing user) (receive_body (processWrite E) chunks rc)"
  by (intro writer.keeps_receive_body writer.keeps_processWrite)

lemma receive_reading: "keeps (reading user) (receive_body (processRpc E SE) chunks rc)"
  by (intro reader.keeps_receive_body reader.rpc.keeps_processRpc)

lemma serveRequest_calls:
  assumes "w_calls w = []" and "c \<in> set (w_calls (snd (serveRequest E SE stod lib anon authenticate nacm req chunks w)))"
  shows "\<exists>sess. authorizeRequest anon authenticate nacm (w_sess w) (http_header req) = Inr sess \<and> authorised_call (nacmUser sess) c"
proof -
  obtain res w1 where r: "restconfRoute E stod lib anon authenticate nacm req w = (res, w1)" by fastforce
  let ?auth = "authorizeRequest anon authenticate nacm (w_sess w) (http_header req)"
  have after: "after_route ?auth res w1" by (rule restconfRoute_cases [OF assms(1) r])
  consider (none) "w_calls (snd (serveRequest E SE stod lib anon authenticate nacm req chunks w)) = []"
    | (some) sess where "?auth = Inr sess" "reading (nacmUser sess) (snd (serveRequest E SE stod lib anon authenticate nacm req chunks w))"
  proof (cases "\<exists>rc. res = Inr (Await_Write rc) \<or> res = Inr (Await_Rpc rc)")
    case False
    then have "snd (serveRequest E SE stod lib anon authenticate nacm req chunks w) = w1"
      using r by (auto simp: serveRequest_def bindA_def split: sum.splits handler_result.splits)
    then show thesis using after that by (auto simp: after_route_def)
  next
    case True
    then obtain sess where s: "?auth = Inr sess" "reading (nacmUser sess) w1" "\<forall>rc. res = Inr (Await_Write rc) \<longrightarrow> writing (nacmUser sess) w1"
      using after by (auto simp: after_route_def)
    have "reading (nacmUser sess) (snd (serveRequest E SE stod lib anon authenticate nacm req chunks w))"
      using True r s(2,3) keepsD [OF receive_reading, of "nacmUser sess" w1]
        writing_reading [OF keepsD [OF receive_writing, of "nacmUser sess" w1]]
      by (auto simp: serveRequest_def bindA_def split: prod.split sum.split) (metis snd_conv)+
    then show thesis using s(1) that by blast
  qed
  then show ?thesis using assms(2) by cases (auto simp: policy_inv_def)
qed

end
