(* ===== verification/Server_Traces.thy ===== *)
theory Server_Traces
  imports Server_Responses Server_Policy
begin

text \<open>
  The calls that the writing handlers make to sysrepo, in order: PUT and plain PATCH under the lock of the
  datastore, YANG patch with one batch for all edits, and the check of an RPC that the server handles itself.
\<close>

abbreviation ops :: "('n, 'u) world \<Rightarrow> 'n sr_operation list" where
  "ops w \<equiv> map call_op (w_calls w)"

definition session_call :: "('n, 'u) world \<Rightarrow> 'n sr_operation \<Rightarrow> 'n sr_call" where
  "session_call w c = \<lparr>call_ds = activeDatastore (w_sess w), call_user = nacmUser (w_sess w), call_op = c\<rparr>"

lemma record_call_simps [simp]:
  "w_calls (record_call c w) = w_calls w @ [session_call w c]" "w_sess (record_call c w) = w_sess w"
  "w_responses (record_call c w) = w_responses w" "w_subs (record_call c w) = w_subs w" "call_op (session_call w c) = c"
  "session_call (record_call c w) d = session_call w d"
  by (simp_all add: record_call_def session_call_def)

lemma ask_apply: "ask f c w = (f (w_calls w @ [session_call w c]), record_call c w)"
  by (simp add: ask_def Let_def)

section \<open>PUT and PATCH\<close>

lemma putOrPatchLocked_trace:
  assumes "putOrPatchLocked E rc w = (res, w')"
  shows "\<exists>k edit. ops w' = ops w @ take (Suc k) [Sr_GetData (req_path (rc_restconfRequest rc)) 0 Get_Default, Sr_EditBatch edit, Sr_ApplyChanges] \<and>
    (\<not> isl res \<longrightarrow> k = 2 \<and> (\<exists>existing.
      sr_data (env_sr E) (w_calls w @ [session_call w (Sr_GetData (req_path (rc_restconfRequest rc)) 0 Get_Default)]) = Inr existing \<and>
      w_responses w' = w_responses w @ [\<lparr>status = if http_method (rc_req rc) = ''PUT'' \<and> existing = [] then 201 else 204, headers = [CORS], body = No_Body\<rparr>]))"
proof -
  let ?g = "Sr_GetData (req_path (rc_restconfRequest rc)) 0 Get_Default"
  let ?w1 = "record_call ?g w"
  note unf = putOrPatchLocked_def Let_def bindA_def sess_getData_def sess_editBatch_def sess_applyChanges_def ask_apply respond_def
  show ?thesis
  proof (cases "sr_data (env_sr E) (w_calls w @ [session_call w ?g])")
    case (Inl e)
    then show ?thesis using assms by (intro exI [of _ 0]) (auto simp: unf)
  next
    case (Inr existing)
    note data = this
    show ?thesis
    proof (cases "http_method (rc_req rc) = ''PATCH'' \<and> existing = []")
      case True
      then show ?thesis using assms Inr by (intro exI [of _ 0]) (auto simp: unf throw_error_def throw_error_at_def)
    next
      case proceed: False
      show ?thesis
      proof (cases "putOrPatchEdit E rc")
        case (Inl e)
        then show ?thesis using assms data proceed by (intro exI [of _ 0]) (auto simp: unf)
      next
        case (Inr edit)
        let ?w2 = "record_call (Sr_EditBatch edit) ?w1"
        show ?thesis
        proof (cases "sr_done (env_sr E) (w_calls ?w2)")
          case (Inl e)
          then show ?thesis using assms data proceed Inr by (intro exI [of _ 1] exI [of _ edit]) (auto simp: unf, metis sum.disc(1), metis sum.disc(1))
        next
          case batch: (Inr u)
          show ?thesis
          proof (cases "sr_done (env_sr E) (w_calls (record_call Sr_ApplyChanges ?w2))")
            case (Inl e)
            then show ?thesis using assms data proceed \<open>putOrPatchEdit E rc = Inr edit\<close> batch
              by (intro exI [of _ 2] exI [of _ edit]) (auto simp: unf numeral_2_eq_2, (metis sum.disc(1))+)
          next
            case (Inr u)
            then show ?thesis using assms data proceed \<open>putOrPatchEdit E rc = Inr edit\<close> batch
              by (intro exI [of _ 2] exI [of _ edit]) (auto simp: unf numeral_2_eq_2)
          qed
        qed
      qed
    qed
  qed
qed

lemma locked_trace:
  assumes "with_lock sr m w = (res, w')"
  shows "w' = record_call Sr_Lock w \<and> isl res \<or> (\<exists>w1. m (record_call Sr_Lock w) = (res, w1) \<and> w' = record_call Sr_Unlock w1)"
  using assms by (auto simp: with_lock_def bindA_def ask_apply finallyA_def split: sum.splits prod.splits)

section \<open>YANG patch\<close>

lemma keeps_rejectImpl:
  assumes "\<And>w rs. I w \<Longrightarrow> I (w\<lparr>w_responses := rs\<rparr>)"
  shows "keeps I (rejectWithErrorImpl E container fmt req e)"
  unfolding rejectWithErrorImpl_def Let_def respond_def
  by (intro keeps_bindA keeps_liftE) (auto simp: keeps_def assms)

lemma keeps_exceptions:
  assumes "\<And>w rs. I w \<Longrightarrow> I (w\<lparr>w_responses := rs\<rparr>)" and "restconfExceptions E (rejectYangPatchEdit E pid i fmt req) rc e = Some k"
  shows "keeps I k"
proof -
  have "keeps I (rejectYangPatchEdit E pid i fmt req r)" for r
    unfolding rejectYangPatchEdit_def by (rule keeps_rejectImpl) (rule assms(1))
  then show ?thesis using assms(2)
  by (auto simp: restconfExceptions_def intro!: keeps_bindA keeps_liftE
      split: exn.splits ly_error.splits option.splits ly_error_code.splits sr_error_code.splits)
qed

text \<open>The edits that are merged: the ones without an error, each onto those before it.\<close>

definition acceptEdit :: "'n server_env \<Rightarrow> request_context \<Rightarrow> 'n dnode list \<Rightarrow> 'n dnode list \<Rightarrow> position \<Rightarrow> 'n dnode list" where
  "acceptEdit E rc patch merged p = (case processYangPatchEdit E rc patch p merged of Inr m \<Rightarrow> m | Inl _ \<Rightarrow> merged)"

definition acceptedEdits :: "'n server_env \<Rightarrow> request_context \<Rightarrow> 'n dnode list \<Rightarrow> position list \<Rightarrow> 'n dnode list" where
  "acceptedEdits E rc patch edits = foldl (acceptEdit E rc patch) [] edits"

lemma patchLoopBody_step:
  assumes "patchLoopBody E rc pid patch merged p w = (Inr m, w')"
  shows "m = acceptEdit E rc patch merged p \<and> w_calls w' = w_calls w \<and> w_sess w' = w_sess w"
proof -
  obtain i where i: "childLeafValue (env_ly E) patch p ''edit-id'' = Inr i"
    using assms by (cases "childLeafValue (env_ly E) patch p ''edit-id''") (auto simp: patchLoopBody_def bindA_def)
  show ?thesis
  proof (cases "processYangPatchEdit E rc patch p merged")
    case (Inr m')
    then show ?thesis using assms i by (auto simp: patchLoopBody_def bindA_def catchA_def acceptEdit_def)
  next
    case (Inl e)
    let ?reject = "rejectYangPatchEdit E pid i (df_response (rc_dataFormat rc)) (rc_req rc)"
    obtain k w1 where k: "restconfExceptions E ?reject rc e = Some k" "k w = (Inr (), w1)" "m = merged" "w' = w1"
      using assms i Inl by (auto simp: patchLoopBody_def bindA_def catchA_def split: option.splits prod.splits sum.splits)
    have "keeps (\<lambda>w2. w_calls w2 = w_calls w \<and> w_sess w2 = w_sess w) k"
      by (rule keeps_exceptions [OF _ k(1)]) simp
    from keepsD [OF this, of w] show ?thesis using k Inl by (simp add: acceptEdit_def)
  qed
qed

lemma patchLoop:
  "foldA (patchLoopBody E rc pid patch) merged edits w = (Inr m, w') \<Longrightarrow>
   m = foldl (acceptEdit E rc patch) merged edits \<and> w_calls w' = w_calls w \<and> w_sess w' = w_sess w"
proof (induction edits arbitrary: merged w)
  case (Cons p edits)
  then obtain m1 w1 where step: "patchLoopBody E rc pid patch merged p w = (Inr m1, w1)"
      and rest: "foldA (patchLoopBody E rc pid patch) m1 edits w1 = (Inr m, w')"
    by (auto simp: bindA_def split: prod.splits sum.splits)
  show ?case using patchLoopBody_step [OF step] Cons.IH [OF rest] by simp
qed simp

lemma processYangPatchImpl_trace:
  assumes "processYangPatchImpl E patch pid rc w = (Inr (), w')" and "ld_findXPath (env_ly E) patch [0] ''edit'' = Inr edits"
  shows "ops w' = ops w @ (if acceptedEdits E rc patch edits = [] then [] else [Sr_EditBatch (acceptedEdits E rc patch edits), Sr_ApplyChanges])"
proof -
  obtain m w1 where loop: "foldA (patchLoopBody E rc pid patch) [] edits w = (Inr m, w1)"
    using assms by (auto simp: processYangPatchImpl_def bindA_def split: prod.splits sum.splits)
  have m: "m = acceptedEdits E rc patch edits" "w_calls w1 = w_calls w" using patchLoop [OF loop] by (simp_all add: acceptedEdits_def)
  show ?thesis using assms loop m
    by (auto simp: processYangPatchImpl_def bindA_def sess_editBatch_def sess_applyChanges_def ask_apply split: sum.splits if_splits)
qed

lemma acceptedEdits_skip:
  assumes "isl (processYangPatchEdit E rc patch bad (acceptedEdits E rc patch before))"
  shows "acceptedEdits E rc patch (before @ bad # after) = acceptedEdits E rc patch (before @ after)"
  using assms by (auto simp: acceptedEdits_def acceptEdit_def isl_def)

section \<open>RPCs handled by the server\<close>

lemma internal_rpc_change:
  assumes "processInternalRPC E SE rpcInput pos sh fmt w = (res, w')" and "w_subs w' \<noteq> w_subs w"
  shows "\<exists>tree node. ld_newPath2 (env_ly E) (ld_nodePath (env_ly E) rpcInput pos) = Inr (tree, Some node) \<and>
    sr_permitted (env_sr E) (w_calls w @ [session_call w (Sr_CheckNacm tree)]) = Inr True \<and>
    ld_nodePath (env_ly E) rpcInput pos \<in> fst ` set internalHandlers"
proof -
  let ?path = "ld_nodePath (env_ly E) rpcInput pos"
  obtain tree rpcNode where t: "ld_newPath2 (env_ly E) ?path = Inr (tree, rpcNode)"
    using assms by (cases "ld_newPath2 (env_ly E) ?path") (auto simp: processInternalRPC_def Let_def bindA_def)
  obtain node where n: "rpcNode = Some node"
    using assms t by (cases rpcNode) (auto simp: processInternalRPC_def Let_def bindA_def deref_def)
  let ?ask = "sr_permitted (env_sr E) (w_calls w @ [session_call w (Sr_CheckNacm tree)])"
  have p: "?ask = Inr True"
    using assms t n by (cases ?ask) (auto simp: processInternalRPC_def Let_def bindA_def deref_def sess_checkNacmOperation_def ask_apply throw_error_at_def split: if_splits)
  have "map_of internalHandlers ?path \<noteq> None"
  proof
    assume "map_of internalHandlers ?path = None"
    then show False
      using assms t n p by (auto simp: processInternalRPC_def Let_def bindA_def deref_def sess_checkNacmOperation_def ask_apply throw_error_at_def)
  qed
  then show ?thesis using t n p by (auto simp: map_of_eq_None_iff)
qed

end
