(* ===== verification/Server_Example.thy ===== *)
theory Server_Example
  imports Server_Traces
begin

text \<open>
  A small schema with the libyang and sysrepo operations the handlers call on it, to run them on concrete
  requests. Nodes: the container \<open>m:top\<close> (0) with the leaf \<open>x\<close> (1), the list \<open>m:entry\<close> (2) with the key \<open>k\<close> (3), and the nodes
  of a YANG patch (4 to 10).
\<close>

definition ex_names :: "string list" where
  "ex_names = [''top'', ''x'', ''entry'', ''k'', ''yang-patch'', ''patch-id'', ''edit'', ''edit-id'', ''target'', ''operation'', ''value'']"

definition ex_types :: "node_type list" where
  "ex_types = [Container, Leaf, List_Node, Leaf, Container, Leaf, List_Node, Leaf, Leaf, Leaf, AnyData]"

definition ex_ctx :: "nat ly_context" where
  "ex_ctx = \<lparr>
     ly_findPath = (\<lambda>p. if p = ''/m:top'' then Inr 0 else if p = ''/m:entry'' then Inr 2 else Inl (LyError None ''not found'')),
     ly_nodeType = (\<lambda>n. if n < length ex_types then ex_types ! n else Other_NodeType),
     ly_name = (\<lambda>n. if n < length ex_names then ex_names ! n else []),
     ly_module = (\<lambda>_. ''m''),
     ly_path = (\<lambda>n. if n = 0 then ''/m:top'' else if n = 2 then ''/m:entry'' else ''/m:other''),
     ly_parent = (\<lambda>n. if n = 1 then Some 0 else if n = 3 then Some 2 else None),
     ly_childInstantiables = (\<lambda>n. if n = 0 then [1] else if n = 2 then [3] else []),
     ly_keys = (\<lambda>n. if n = 2 then [3] else []),
     ly_isUserOrdered = (\<lambda>_. False)\<rparr>"

definition leaf :: "nat \<Rightarrow> string \<Rightarrow> nat dnode" where
  "leaf s v = DNode s False v [] []"

definition top_node :: "nat dnode" where
  "top_node = DNode 0 False [] [] [leaf 1 ''1'']"

definition entry_node :: "string \<Rightarrow> nat dnode" where
  "entry_node v = DNode 2 False [] [] [leaf 3 v]"

text \<open>A container whose attribute asks sysrepo to remove it.\<close>

definition marked_node :: "nat dnode" where
  "marked_node = DNode 0 False [] [user_meta ''ietf-netconf'' ''operation'' ''remove''] []"

text \<open>Two edits, the first with a target that is no node of the schema.\<close>

definition patch_node :: "nat dnode" where
  "patch_node = DNode 4 False [] [] [leaf 5 ''p1'',
     DNode 6 False [] [] [leaf 7 ''e1'', leaf 8 ''/m:nowhere'', leaf 9 ''delete''],
     DNode 6 False [] [] [leaf 7 ''e2'', leaf 8 ''/m:top'', leaf 9 ''delete'']]"

text \<open>A child by its name, with or without the module.\<close>

definition ex_findPath :: "nat dnode list \<Rightarrow> position \<Rightarrow> string \<Rightarrow> exn + position option" where
  "ex_findPath tree pos path = Inr (map_option fst (find (\<lambda>(q, c).
     path = ly_name ex_ctx (dn_schema c) \<or> path = ''m:'' @ ly_name ex_ctx (dn_schema c)) (immediateChildren tree pos)))"

text \<open>The value of a created leaf is its path; the container is created by its path.\<close>

definition ex_newPath2 :: "string \<Rightarrow> exn + nat dnode list \<times> position option" where
  "ex_newPath2 path = Inr ([if path = ''/m:top'' then DNode 0 False [] [] [] else leaf 3 path], Some [0])"

definition ex_parseData :: "string \<Rightarrow> data_format \<Rightarrow> exn + nat dnode list" where
  "ex_parseData payload fmt =
     (if payload = ''top'' then Inr [top_node]
      else if payload = ''two'' then Inr [top_node, marked_node]
      else if payload = ''entry'' then Inr [entry_node ''a'']
      else if payload = ''quotes'' then Inr [entry_node [quote, dquote]]
      else if payload = ''patch'' then Inr [patch_node]
      else Inl (Libyang_Error (LyError (Some Ly_ValidationFailure) ''parse'')))"

definition ex_ly :: "nat ly_data" where
  "ex_ly = \<lparr>ld_ctx = ex_ctx, ld_modules = [], ld_parseData = ex_parseData, ld_newPath2 = ex_newPath2, ld_newPath2_opaque = ex_newPath2,
     ld_parseSubtree = (\<lambda>t p v f. Inr t), ld_parseOp = (\<lambda>t p v f. Inr t), ld_insertSibling = (\<lambda>a b. a @ b), ld_findPath = ex_findPath,
     ld_findXPath = (\<lambda>t p x. Inr (map fst (filter (\<lambda>(q, c). ly_name ex_ctx (dn_schema c) = x) (immediateChildren t p)))),
     ld_nodePath = (\<lambda>t p. case node_at t p of None \<Rightarrow> [] | Some n \<Rightarrow> ly_path ex_ctx (dn_schema n)), ld_isKey = (\<lambda>n. n = 3), ld_hasInput = (\<lambda>_. False),
     ld_isImplicitDefault = (\<lambda>_. False), ld_anyNode = (\<lambda>_. Inr None), ld_printJSON = (\<lambda>_. []), ld_validateOp = (\<lambda>t p d. Inr t),
     ld_getErrors = (\<lambda>_. []), ld_newPaths = (\<lambda>_. Inr ())\<rparr>"

text \<open>sysrepo holds no data and agrees to every change.\<close>

definition ex_sr :: "nat sysrepo" where
  "ex_sr = \<lparr>sr_data = (\<lambda>_. Inr []), sr_done = (\<lambda>_. Inr ()), sr_permitted = (\<lambda>_. Inr True)\<rparr>"

definition ex_env :: "nat server_env" where
  "ex_env = \<lparr>env_what = (\<lambda>_. []), env_ly = ex_ly, env_sr = ex_sr\<rparr>"

definition ex_request :: "string \<Rightarrow> string \<Rightarrow> string \<Rightarrow> request_type \<Rightarrow> string \<Rightarrow> request_context" where
  "ex_request method raw_path path type payload =
     \<lparr>rc_req = \<lparr>http_method = method, http_path = raw_path, http_raw_path = raw_path, http_raw_query = [], http_header = [], http_remote = []\<rparr>,
      rc_dataFormat = \<lparr>df_request = Some JSON, df_response = JSON\<rparr>,
      rc_restconfRequest = \<lparr>req_type = type, req_datastore = None, req_path = path, req_queryParams = []\<rparr>, rc_payload = payload\<rparr>"

definition new_request :: "sr_session \<Rightarrow> 'u dyn_subs \<Rightarrow> ('n, 'u) world" where
  "new_request sess subs = \<lparr>w_sess = sess, w_calls = [], w_responses = [], w_authDelay = None, w_subs = subs\<rparr>"

definition ex_world :: "(nat, nat) world" where
  "ex_world = new_request \<lparr>activeDatastore = Running, nacmUser = Some ''alice''\<rparr> (DynamicSubscriptions_init :: nat dyn_subs)"

lemma ex_put_top: "fst (processPutOrPlainPatch ex_env (ex_request ''PUT'' ''/restconf/data/m:top'' ''/m:top'' CreateOrReplaceThisNode ''top'') ex_world) = Inr ()"
  by code_simp

end
