(* ===== verification/Location_Laws.thy ===== *)
theory Location_Laws
  imports Locations
begin

text \<open>What the replacement of locations leaves in a tree, and when it cannot be done.\<close>

section \<open>Trees\<close>

fun forall_nodes :: "('n dnode \<Rightarrow> bool) \<Rightarrow> 'n dnode \<Rightarrow> bool" where
  "forall_nodes P (DNode s opq v ms cs) \<longleftrightarrow> P (DNode s opq v ms cs) \<and> list_all (forall_nodes P) cs"

fun with_children :: "'n dnode \<Rightarrow> 'n dnode list \<Rightarrow> 'n dnode" where
  "with_children (DNode s opq v ms _) cs = DNode s opq v ms cs"

lemma with_children_simps [simp]:
  "dn_schema (with_children n cs) = dn_schema n" "dn_children (with_children n cs) = cs" "dn_value (with_children n cs) = dn_value n"
  "dn_opaque (with_children n cs) = dn_opaque n" "with_children (with_children n cs) cs' = with_children n cs'"
  by (cases n; simp)+

lemma forall_nodes_with_children: "forall_nodes P (with_children n cs) \<longleftrightarrow> P (with_children n cs) \<and> list_all (forall_nodes P) cs"
  by (cases n) simp

lemma mapE_Inr_iff: "mapE f xs = Inr ys \<longleftrightarrow> list_all2 (\<lambda>x y. f x = Inr y) xs ys"
proof (induction xs arbitrary: ys)
  case (Cons x xs)
  then show ?case by (cases ys) (auto simp: bindE_eq_Inr_iff list_all2_Cons1)
qed auto

lemma mapE_total: "(\<exists>ys. mapE f xs = Inr ys) \<longleftrightarrow> (\<forall>x \<in> set xs. \<exists>y. f x = Inr y)"
  by (induction xs) (auto simp: bindE_eq_Inr_iff)

lemma mapE_Inl: "mapE f xs = Inl e \<Longrightarrow> \<exists>x \<in> set xs. f x = Inl e"
  by (induction xs) (auto simp: bindE_eq_Inl_iff)

lemma rewriteChildren_Inr_iff:
  "rewriteChildren f n = Inr n' \<longleftrightarrow>
   (\<exists>cs cs'. mapE (rewriteChildren f) (dn_children n) = Inr cs \<and> f (with_children n cs) = Inr cs' \<and> n' = with_children n cs')"
  by (cases n) (auto simp: bindE_eq_Inr_iff)

lemma rewriteChildren_schema: "rewriteChildren f n = Inr n' \<Longrightarrow> dn_schema n' = dn_schema n"
  by (auto simp: rewriteChildren_Inr_iff)

lemma rewritten_schemas: "mapE (rewriteChildren f) cs = Inr cs' \<Longrightarrow> map dn_schema cs' = map dn_schema cs"
  by (auto simp: mapE_Inr_iff list_all2_conv_all_nth rewriteChildren_schema intro!: nth_equalityI)

text \<open>A property of nodes that every rewriting step establishes, given that it holds of the children, holds in the result.\<close>

lemma rewriteChildren_forall:
  assumes step: "\<And>n cs. f n = Inr cs \<Longrightarrow> list_all (forall_nodes P) (dn_children n) \<Longrightarrow> list_all (forall_nodes P) cs \<and> P (with_children n cs)"
  shows "rewriteChildren f n = Inr n' \<Longrightarrow> forall_nodes P n'"
proof (induction n arbitrary: n')
  case (DNode s opq v ms cs)
  then obtain cs1 cs2 where c: "mapE (rewriteChildren f) cs = Inr cs1" "f (DNode s opq v ms cs1) = Inr cs2" "n' = DNode s opq v ms cs2"
    by (auto simp: bindE_eq_Inr_iff)
  have "forall_nodes P (cs1 ! i)" if "i < length cs1" for i
    using c(1) that by (auto simp: mapE_Inr_iff list_all2_conv_all_nth intro: DNode.IH [of "cs ! i"])
  then have "list_all (forall_nodes P) cs1" by (simp add: list_all_length)
  then show ?case using step [OF c(2)] c(3) by simp
qed

section \<open>YANG library\<close>

text \<open>The last part of the URL of a module, by the leafs of its node.\<close>

definition module_file :: "'n ly_context \<Rightarrow> 'n dnode \<Rightarrow> string option" where
  "module_file ctx n = map_option (\<lambda>c. dn_value c @ (case childNamed ctx ''revision'' n of
      None \<Rightarrow> [] | Some r \<Rightarrow> if dn_value r = [] then [] else ''@'' @ dn_value r)) (childNamed ctx ''name'' n)"

definition relocated :: "'n ly_context \<Rightarrow> string option \<Rightarrow> string \<Rightarrow> 'n dnode \<Rightarrow> bool" where
  "relocated ctx schemeAndHost urlPrefix n \<longleftrightarrow> (isModuleNode ctx n \<longrightarrow>
     (\<forall>c \<in> set (dn_children n). isLocationNode ctx n c \<longrightarrow>
       (\<exists>sh file. schemeAndHost = Some sh \<and> module_file ctx n = Some file \<and> dn_value c = sh @ urlPrefix @ file)))"

lemma isNamed_schema: "dn_schema n = dn_schema n' \<Longrightarrow> isNamed ctx n nm = isNamed ctx n' nm"
  by (simp add: isNamed_def fun_eq_iff)

lemma isLocationNode_schema: "dn_schema n = dn_schema n' \<Longrightarrow> isLocationNode ctx n = isLocationNode ctx n'"
  by (simp add: isLocationNode_def isNamed_def fun_eq_iff)

lemma find_filter_append:
  assumes "\<And>x. P x \<Longrightarrow> Q x" and "\<And>x. x \<in> set ys \<Longrightarrow> \<not> P x"
  shows "find P (filter Q xs @ ys) = find P xs"
proof (induction xs)
  case Nil
  then show ?case using assms(2) by (simp add: find_None_iff)
qed (use assms(1) in auto)

text \<open>Leafs other than the locations are found as before.\<close>

lemma childNamed_relocated:
  assumes "nm \<notin> {''location'', ''schema''}" and "\<And>c. c \<in> set ls \<Longrightarrow> isLocationNode ctx n c"
  shows "childNamed ctx nm (with_children n (filter (\<lambda>c. \<not> isLocationNode ctx n c) (dn_children n) @ ls)) = childNamed ctx nm n"
proof -
  have "\<not> isLocationNode ctx n c" if "isNamed ctx n nm c" for c
    using that assms(1) by (auto simp: isLocationNode_def isNamed_def)
  then show ?thesis using assms(2) unfolding childNamed_def
    by (simp add: isNamed_schema [of "with_children n _" n] find_filter_append) (metis find_filter_append)
qed

lemma newLeaf_named:
  assumes "newLeaf ctx (dn_schema n) nm v = Inr l"
  shows "dn_value l = v \<and> dn_children l = [] \<and> isNamed ctx n nm l"
  using assms by (auto simp: newLeaf_def findChildSchemaNode_def ApiIdentifier_def find_Some_iff isNamed_def split: option.splits)

lemma moduleLocation_Inr:
  assumes "moduleLocation ctx sh urlPrefix n = Inr l"
  shows "isLocationNode ctx n l \<and> dn_children l = [] \<and> (\<exists>file. module_file ctx n = Some file \<and> dn_value l = sh @ urlPrefix @ file)"
proof -
  obtain c where c: "childNamed ctx ''name'' n = Some c" "termValue ctx c = Inr (dn_value c)"
    using assms by (auto simp: moduleLocation_def bindE_eq_Inr_iff termValue_def split: if_splits)
  let ?file = "dn_value c @ (case childNamed ctx ''revision'' n of None \<Rightarrow> [] | Some r \<Rightarrow> if dn_value r = [] then [] else ''@'' @ dn_value r)"
  obtain nm where l: "newLeaf ctx (dn_schema n) nm (sh @ urlPrefix @ ?file) = Inr l" "nm \<in> {''location'', ''schema''}"
    using assms c by (cases "childNamed ctx ''revision'' n") (auto simp: moduleLocation_def bindE_eq_Inr_iff termValue_def split: if_splits)
  show ?thesis using newLeaf_named [OF l(1)] l(2) c(1) by (auto simp: isLocationNode_def module_file_def)
qed

lemma module_file_relocated:
  assumes "\<And>c. c \<in> set ls \<Longrightarrow> isLocationNode ctx n c"
  shows "module_file ctx (with_children n (filter (\<lambda>c. \<not> isLocationNode ctx n c) (dn_children n) @ ls)) = module_file ctx n"
  using childNamed_relocated [where nm = "''name''", OF _ assms] childNamed_relocated [where nm = "''revision''", OF _ assms]
  by (simp add: module_file_def)

lemma relocateModule_Inr:
  assumes "relocateModule ctx schemeAndHost urlPrefix n = Inr cs"
  shows "\<exists>ls. cs = filter (\<lambda>c. \<not> isLocationNode ctx n c) (dn_children n) @ ls \<and> relocated ctx schemeAndHost urlPrefix (with_children n cs) \<and>
    (\<forall>l \<in> set ls. dn_children l = [])"
proof -
  obtain ls where ls: "cs = filter (\<lambda>c. \<not> isLocationNode ctx n c) (dn_children n) @ ls"
      "\<forall>l \<in> set ls. isLocationNode ctx n l \<and> dn_children l = [] \<and>
        (\<exists>sh file. schemeAndHost = Some sh \<and> module_file ctx n = Some file \<and> dn_value l = sh @ urlPrefix @ file)"
  proof (cases "schemeAndHost = None \<or> list_all (\<lambda>c. \<not> isLocationNode ctx n c) (dn_children n)")
    case True
    then show thesis using assms that [of "[]"] by (cases schemeAndHost) (auto simp: relocateModule_def Let_def)
  next
    case False
    then obtain sh l where "schemeAndHost = Some sh" "moduleLocation ctx sh urlPrefix n = Inr l"
        "cs = filter (\<lambda>c. \<not> isLocationNode ctx n c) (dn_children n) @ [l]"
      using assms by (auto simp: relocateModule_def Let_def bindE_eq_Inr_iff)
    then show thesis using that [of "[l]"] moduleLocation_Inr by fastforce
  qed
  have "module_file ctx (with_children n cs) = module_file ctx n" unfolding ls(1) using ls(2) by (intro module_file_relocated) blast
  then have "relocated ctx schemeAndHost urlPrefix (with_children n cs)"
    using ls by (auto simp: relocated_def isLocationNode_schema [of "with_children n _" n])
  then show ?thesis using ls by blast
qed

lemma yang_library_relocated:
  assumes "replaceYangLibraryLocations ctx schemeAndHost urlPrefix tree = Inr tree'"
  shows "list_all (forall_nodes (relocated ctx schemeAndHost urlPrefix)) tree'"
proof -
  let ?f = "\<lambda>n. if isModuleNode ctx n then relocateModule ctx schemeAndHost urlPrefix n else Inr (dn_children n)"
  have step: "list_all (forall_nodes (relocated ctx schemeAndHost urlPrefix)) cs \<and> relocated ctx schemeAndHost urlPrefix (with_children n cs)"
    if f: "?f n = Inr cs" and c: "list_all (forall_nodes (relocated ctx schemeAndHost urlPrefix)) (dn_children n)" for n cs
  proof (cases "isModuleNode ctx n")
    case True
    then have rel: "relocateModule ctx schemeAndHost urlPrefix n = Inr cs" using f by simp
    have leaf: "forall_nodes (relocated ctx schemeAndHost urlPrefix) l" if "dn_children l = []" for l
      using that by (cases l) (simp add: relocated_def)
    obtain ls where "cs = filter (\<lambda>c. \<not> isLocationNode ctx n c) (dn_children n) @ ls" "\<forall>l \<in> set ls. dn_children l = []"
        "relocated ctx schemeAndHost urlPrefix (with_children n cs)"
      using relocateModule_Inr [OF rel] by blast
    then show ?thesis using c leaf by (auto simp: list_all_iff)
  next
    case False
    then show ?thesis using f c by (auto simp: relocated_def isModuleNode_def)
  qed
  show ?thesis using assms rewriteChildren_forall [OF step]
    by (auto simp: replaceYangLibraryLocations_def mapE_Inr_iff list_all2_conv_all_nth list_all_length)
qed

section \<open>Streams\<close>

definition has_location :: "'n ly_context \<Rightarrow> 'n dnode \<Rightarrow> bool" where
  "has_location ctx n \<longleftrightarrow> (isStreamAccess ctx n \<longrightarrow> childNamed ctx ''location'' n \<noteq> None)"

lemma childNamed_None_iff: "childNamed ctx nm n = None \<longleftrightarrow>
    (\<forall>s \<in> set (map dn_schema (dn_children n)). \<not> (ly_name ctx s = nm \<and> ly_module ctx s = ly_module ctx (dn_schema n)))"
  by (auto simp: childNamed_def find_None_iff isNamed_def)

lemma has_location_schemas:
  "map dn_schema cs = map dn_schema (dn_children n) \<Longrightarrow> has_location ctx (with_children n cs) \<longleftrightarrow> has_location ctx n"
  by (simp add: has_location_def childNamed_None_iff isStreamAccess_def del: set_map)

abbreviation dropAccess :: "'n ly_context \<Rightarrow> 'n dnode \<Rightarrow> exn + 'n dnode list" where
  "dropAccess ctx n \<equiv> if isStreamAccess ctx n then relocateAccess ctx None n else Inr (dn_children n)"

lemma dropAccess_Inr: "(\<exists>cs. dropAccess ctx n = Inr cs) \<longleftrightarrow> has_location ctx n"
  by (auto simp: has_location_def relocateAccess_def deref_def split: option.splits)

lemma dropAccess_Inl: "dropAccess ctx n = Inl e \<Longrightarrow> e = Undefined ''replaceStreamLocations''"
  by (auto simp: relocateAccess_def deref_def split: option.splits if_splits)

lemma rewrite_streams: "(\<exists>n'. rewriteChildren (dropAccess ctx) n = Inr n') \<longleftrightarrow> forall_nodes (has_location ctx) n"
proof (induction n)
  case (DNode s opq v ms cs)
  let ?n = "DNode s opq v ms cs"
  have "(\<exists>cs'. mapE (rewriteChildren (dropAccess ctx)) cs = Inr cs') \<longleftrightarrow> list_all (forall_nodes (has_location ctx)) cs"
    unfolding mapE_total list_all_iff using DNode.IH by blast
  moreover have "(\<exists>cs2. dropAccess ctx (with_children ?n cs') = Inr cs2) \<longleftrightarrow> has_location ctx ?n"
    if "mapE (rewriteChildren (dropAccess ctx)) cs = Inr cs'" for cs'
    using dropAccess_Inr [of ctx "with_children ?n cs'"] has_location_schemas [of cs' ?n ctx] rewritten_schemas [OF that] by simp
  ultimately show ?case unfolding rewriteChildren_Inr_iff forall_nodes.simps dnode.sel by blast
qed

lemma rewrite_streams_Inl: "rewriteChildren (dropAccess ctx) n = Inl e \<Longrightarrow> e = Undefined ''replaceStreamLocations''"
proof (induction n)
  case (DNode s opq v ms cs)
  then consider "mapE (rewriteChildren (dropAccess ctx)) cs = Inl e" | cs' where "dropAccess ctx (DNode s opq v ms cs') = Inl e"
    by (auto simp: bindE_eq_Inl_iff)
  then show ?case
  proof cases
    case 1
    then show ?thesis using mapE_Inl DNode.IH by blast
  next
    case (2 cs')
    then show ?thesis by (rule dropAccess_Inl)
  qed
qed

lemma stream_locations_dropped:
  "(\<exists>tree'. replaceStreamLocations ctx None tree = Inr tree') \<longleftrightarrow> list_all (forall_nodes (has_location ctx)) tree"
  "replaceStreamLocations ctx None tree = Inl e \<Longrightarrow> e = Undefined ''replaceStreamLocations''"
proof -
  show "(\<exists>tree'. replaceStreamLocations ctx None tree = Inr tree') \<longleftrightarrow> list_all (forall_nodes (has_location ctx)) tree"
    unfolding replaceStreamLocations_def mapE_total rewrite_streams list_all_iff ..
  show "replaceStreamLocations ctx None tree = Inl e \<Longrightarrow> e = Undefined ''replaceStreamLocations''"
    unfolding replaceStreamLocations_def using mapE_Inl rewrite_streams_Inl by blast
qed

end
