(* ===== verification/Server_Properties.thy ===== *)
theory Server_Properties
  imports Server_Example Location_Laws
begin

text \<open>Properties of the request handlers: the calls a request makes, its edits, its responses and the failures that escape.\<close>

section \<open>Calls to sysrepo\<close>

text \<open>Whatever request arrives, and however its body is cut into chunks: if authorization fails, no call is made to
  sysrepo; otherwise every call is made as the user that authorization gave to the session, and no call that
  writes is made while the operational or the factory-default datastore is active.\<close>

theorem request_calls_authorised:
  "case authorizeRequest anonUser authenticate nacm sess (http_header req) of
     Inl _ \<Rightarrow> w_calls (snd (serveRequest E SE stod lib anonUser authenticate nacm req chunks (new_request sess subs))) = []
   | Inr s \<Rightarrow> list_all (authorised_call (nacmUser s))
       (w_calls (snd (serveRequest E SE stod lib anonUser authenticate nacm req chunks (new_request sess subs))))"
proof -
  let ?calls = "w_calls (snd (serveRequest E SE stod lib anonUser authenticate nacm req chunks (new_request sess subs)))"
  have "\<exists>s. authorizeRequest anonUser authenticate nacm sess (http_header req) = Inr s \<and> authorised_call (nacmUser s) c"
    if "c \<in> set ?calls" for c
    using serveRequest_calls [OF _ that] by (simp add: new_request_def)
  then show ?thesis by (cases "authorizeRequest anonUser authenticate nacm sess (http_header req)") (auto simp: list_all_iff, fastforce+)
qed



section \<open>Edits\<close>


text \<open>C20. An edit for PUT or PATCH made from a value replaces a node that has the module and name of the last segment of
  the URI, and for a list entry or leaf-list value each key in the data and its value in the URI have the same
  canonical form; below a parent, everything next to it is such a node or a key of the parent.\<close>

theorem edit_replaces_target:
  assumes "createEditForPutAndPatch what ly uri (Some v) fmt = Inr (edit, pos)"
  shows "\<exists>parent seg. asLibyangPathSplit what (ld_ctx ly) uri = Inr (parent, seg) \<and> replaces_target ly edit pos parent seg \<and>
    (parent = [] \<or> (\<exists>node. node_at edit (butlast pos) = Some node \<and>
      list_all (\<lambda>(q, c). isSameNode (ld_ctx ly) c seg = Inr True \<and> keys_agree ly edit q c parent seg \<or>
        isKeyNode (ld_ctx ly) (dn_schema node) (dn_schema c)) (immediateChildren edit (butlast pos))))"
  using createEdit_Inr [OF assms] unfolding list_all_iff by blast

theorem edit_replaces_target_witness:
  "createEditForPutAndPatch (\<lambda>_. []) ex_ly ''/restconf/data/m:entry=a'' (Some ''entry'') JSON = Inr ([entry_node ''a''], [0]) \<and>
   (\<exists>parent seg. asLibyangPathSplit (\<lambda>_. []) ex_ctx ''/restconf/data/m:entry=a'' = Inr (parent, seg) \<and>
     replaces_target ex_ly [entry_node ''a''] [0] parent seg)"
proof -
  have e: "createEditForPutAndPatch (\<lambda>_. []) ex_ly ''/restconf/data/m:entry=a'' (Some ''entry'') JSON = Inr ([entry_node ''a''], [0])"
    by code_simp
  have "ld_ctx ex_ly = ex_ctx" by (simp add: ex_ly_def)
  then show ?thesis using edit_replaces_target [OF e] e by auto
qed

text \<open>A PUT or PATCH of a top-level container passes every tree of the body that follows the first one on to sysrepo:
  neither its name nor its meta attributes are checked.\<close>

theorem extra_trees_accepted:
  assumes "asLibyangPathSplit what (ld_ctx ly) uri = Inr ([], seg)" and "ld_parseData ly v fmt = Inr (t # ts)"
    and "isSameNode (ld_ctx ly) t seg = Inr True" and "ly_nodeType (ld_ctx ly) (dn_schema t) = Container" and "clean_input t"
  shows "createEditForPutAndPatch what ly uri (Some v) fmt = Inr (t # ts, [0]) \<and> validateInputMetaAttributes ly (t # ts) = Inr ()"
  using assms by (simp add: createEditForPutAndPatch_def Let_def checkKeysMismatch_def throwKeyMismatch_def validateInput_iff)

theorem extra_trees_accepted_witness:
  "createEditForPutAndPatch (\<lambda>_. []) ex_ly ''/restconf/data/m:top'' (Some ''two'') JSON = Inr ([top_node, marked_node], [0]) \<and>
   validateInputMetaAttributes ex_ly [top_node, marked_node] = Inr () \<and> \<not> clean_input marked_node"
proof -
  let ?seg = "PathSegment (ApiIdentifier (Some ''m'') ''top'') []"
  have "asLibyangPathSplit (\<lambda>_. []) (ld_ctx ex_ly) ''/restconf/data/m:top'' = Inr ([], ?seg)" by code_simp
  moreover have "ld_parseData ex_ly ''two'' JSON = Inr [top_node, marked_node]" by (simp add: ex_ly_def ex_parseData_def)
  moreover have "isSameNode (ld_ctx ex_ly) top_node ?seg = Inr True" by code_simp
  moreover have "ly_nodeType (ld_ctx ex_ly) (dn_schema top_node) = Container" by code_simp
  moreover have "clean_input top_node" "\<not> clean_input marked_node" by code_simp+
  ultimately show ?thesis using extra_trees_accepted by blast
qed

text \<open>A list entry whose key in the data holds both kinds of quotes: the edit fails with the \<open>std::invalid_argument\<close> of the
  quoting, which no catch clause of \<open>withRestconfExceptions\<close> names, so it leaves the handler without a response.\<close>

theorem mixed_quotes_escape:
  assumes "asLibyangPathSplit what (ld_ctx ly) uri = Inr ([], seg)" and "ld_parseData ly v fmt = Inr (t # ts)"
    and "isSameNode (ld_ctx ly) t seg = Inr True" and "ly_nodeType (ld_ctx ly) (dn_schema t) = List_Node"
    and "ly_keys (ld_ctx ly) (dn_schema t) = key # ks" and "keys seg = u # us"
    and "findNode ly (t # ts) [0] (ly_module (ld_ctx ly) key @ '':'' @ ly_name (ld_ctx ly) key) = Inr (Some (kp, kn))"
    and "termValue (ld_ctx ly) kn = Inr kv" and "{quote, dquote} \<subseteq> set kv"
  shows "\<exists>m. createEditForPutAndPatch what ly uri (Some v) fmt = Inl (Invalid_Argument m) \<and>
    restconfExceptions E reject rc (Invalid_Argument m) = None"
  using assms
  by (simp add: createEditForPutAndPatch_def Let_def checkKeysMismatch_def checkListKey_def escapeListKey_def restconfExceptions_def)

theorem mixed_quotes_escape_witness:
  "\<exists>m. createEditForPutAndPatch (\<lambda>_. []) ex_ly ''/restconf/data/m:entry=a'' (Some ''quotes'') JSON = Inl (Invalid_Argument m)"
proof -
  let ?seg = "PathSegment (ApiIdentifier (Some ''m'') ''entry'') [''a'']" and ?t = "entry_node [quote, dquote]"
  have "asLibyangPathSplit (\<lambda>_. []) (ld_ctx ex_ly) ''/restconf/data/m:entry=a'' = Inr ([], ?seg)" by code_simp
  moreover have "ld_parseData ex_ly ''quotes'' JSON = Inr [?t]" by (simp add: ex_ly_def ex_parseData_def)
  moreover have "isSameNode (ld_ctx ex_ly) ?t ?seg = Inr True" by code_simp
  moreover have "ly_nodeType (ld_ctx ex_ly) (dn_schema ?t) = List_Node" by code_simp
  moreover have "ly_keys (ld_ctx ex_ly) (dn_schema ?t) = [3]" by code_simp
  moreover have "keys ?seg = [''a'']" by code_simp
  moreover have "findNode ex_ly [?t] [0] (ly_module (ld_ctx ex_ly) 3 @ '':'' @ ly_name (ld_ctx ex_ly) 3) = Inr (Some ([0, 0], leaf 3 [quote, dquote]))" by code_simp
  moreover have "termValue (ld_ctx ex_ly) (leaf 3 [quote, dquote]) = Inr [quote, dquote]" by code_simp
  ultimately show ?thesis using mixed_quotes_escape [of "\<lambda>_. []" ex_ly "''/restconf/data/m:entry=a''" ?seg "''quotes''" JSON ?t "[]"] by fastforce
qed

section \<open>YANG patch\<close>






end
