(* ===== verification/Sr_Events.thy ===== *)
theory Sr_Events
  imports Server_Edit "HOL-Library.Word"
begin

text \<open>
  \<open>sr/AllEvents.cpp\<close> and \<open>sr/OpticalEvents.cpp\<close>: changes of the operational datastore as events, and the
  telemetry documents of \<open>restconf/Server.cpp\<close> and \<open>restconf/utils/yang.cpp\<close> that carry them; and the pipe polls of
  \<open>restconf/utils/io.cpp\<close>. What sysrepo answers to a subscription and to a query of a module's data is a parameter.
\<close>

section \<open>Subscriptions to modules\<close>

text \<open>
  One iteration of the constructor of \<open>AllEvents\<close>. The state is the member \<open>sub\<close>, by the module it listens for:
  an assignment destroys the subscription it held.
\<close>

definition listenModule :: "(string \<Rightarrow> exn + unit) \<Rightarrow> string option \<Rightarrow> string \<Rightarrow> exn + string option" where
  "listenModule srSubscribe sub module =
     (if module = ''sysrepo'' then Inr sub
      else (case srSubscribe module of
          Inr _ \<Rightarrow> Inr (Some module)
        | Inl (Sysrepo_Error NotFound w) \<Rightarrow> Inr sub
        | Inl e \<Rightarrow> Inl e))"

definition AllEvents :: "(string \<Rightarrow> exn + unit) \<Rightarrow> string list \<Rightarrow> exn + string option" where
  "AllEvents srSubscribe modules = foldE (listenModule srSubscribe) None modules"

text \<open>\<open>OpticalEvents\<close>: the first module that can be subscribed and read; its data is dereferenced without a check.\<close>

record optical_events =
  oe_sub :: "string option"
  oe_lastData :: string

definition opticalModules :: "string list" where
  "opticalModules = [''czechlight-roadm-device'', ''czechlight-coherent-add-drop'', ''czechlight-inline-amp'', ''czechlight-bidi-amp'']"

definition dumpDataFrom :: "(string \<Rightarrow> exn + string option) \<Rightarrow> string \<Rightarrow> exn + string" where
  "dumpDataFrom getData module = bindE (getData (''/'' @ module @ '':*'')) (deref ''dumpDataFrom'')"

fun opticalLoop :: "(string \<Rightarrow> exn + unit) \<Rightarrow> (string \<Rightarrow> exn + string option) \<Rightarrow> optical_events \<Rightarrow> string list \<Rightarrow> exn + optical_events" where
  "opticalLoop srSubscribe getData st [] = Inr st"
| "opticalLoop srSubscribe getData st (module # rest) =
     (case srSubscribe module of
        Inl (Sysrepo_Error NotFound w) \<Rightarrow> opticalLoop srSubscribe getData st rest
      | Inl e \<Rightarrow> Inl e
      | Inr _ \<Rightarrow> (case dumpDataFrom getData module of
          Inr d \<Rightarrow> Inr (st\<lparr>oe_sub := Some module, oe_lastData := d\<rparr>)
        | Inl (Sysrepo_Error NotFound w) \<Rightarrow> opticalLoop srSubscribe getData (st\<lparr>oe_sub := Some module\<rparr>) rest
        | Inl e \<Rightarrow> Inl e))"

definition OpticalEvents :: "(string \<Rightarrow> exn + unit) \<Rightarrow> (string \<Rightarrow> exn + string option) \<Rightarrow> exn + optical_events" where
  "OpticalEvents srSubscribe getData = opticalLoop srSubscribe getData \<lparr>oe_sub = None, oe_lastData = []\<rparr> opticalModules"

text \<open>The new state and the value the signal is called with.\<close>

definition optical_onChange :: "(string \<Rightarrow> exn + string option) \<Rightarrow> string \<Rightarrow> optical_events \<Rightarrow> exn + optical_events \<times> string" where
  "optical_onChange getData module st = bindE (dumpDataFrom getData module) (\<lambda>d. Inr (st\<lparr>oe_lastData := d\<rparr>, d))"

definition currentData :: "optical_events \<Rightarrow> string" where
  "currentData st = oe_lastData st"

section \<open>Meta attributes of a change\<close>

datatype with_attributes = With_All | RemoveEmptyOperationAndOrigin | With_None

definition isEmptyOperationAndOrigin :: "meta_attr \<Rightarrow> bool" where
  "isEmptyOperationAndOrigin m \<longleftrightarrow>
     me_module m = ''sysrepo'' \<and> me_name m = ''operation'' \<and> me_value m = ''none'' \<or>
     me_module m = ''ietf-origin'' \<and> me_name m = ''origin'' \<and> me_value m = ''ietf-origin:unknown''"

text \<open>
  The loop over the attributes of a node, with the iterator as an index. After \<open>attr = attr++\<close> the iterator is
  where it was: the increment happens before the assignment of the old value. The loop may not end, which is \<open>None\<close>.
\<close>

partial_function (option) removeEmptyLoop :: "meta_attr list \<Rightarrow> nat \<Rightarrow> meta_attr list option" where
  "removeEmptyLoop meta attr =
     (if attr \<ge> length meta then Some meta
      else if isEmptyOperationAndOrigin (meta ! attr) then removeEmptyLoop (take attr meta @ drop (Suc attr) meta) attr
      else removeEmptyLoop meta attr)"

text \<open>\<open>WithAttributes::None\<close>: every attribute is erased from the front.\<close>

fun eraseLoop :: "meta_attr list \<Rightarrow> meta_attr list" where
  "eraseLoop [] = []"
| "eraseLoop (m # ms) = eraseLoop ms"

definition nodeAttributes :: "with_attributes \<Rightarrow> meta_attr list \<Rightarrow> meta_attr list option" where
  "nodeAttributes attrBehavior meta =
     (if meta = [] then Some meta
      else (case attrBehavior of
          With_All \<Rightarrow> Some meta
        | RemoveEmptyOperationAndOrigin \<Rightarrow> removeEmptyLoop meta 0
        | With_None \<Rightarrow> Some (eraseLoop meta)))"

fun mapO :: "('a \<Rightarrow> 'b option) \<Rightarrow> 'a list \<Rightarrow> 'b list option" where
  "mapO f [] = Some []"
| "mapO f (x # xs) = (case f x of None \<Rightarrow> None | Some y \<Rightarrow> map_option ((#) y) (mapO f xs))"

lemma mapO_cong [fundef_cong]: "xs = ys \<Longrightarrow> (\<And>x. x \<in> set ys \<Longrightarrow> f x = g x) \<Longrightarrow> mapO f xs = mapO g ys"
  by (induction ys arbitrary: xs) (auto split: option.split)

text \<open>The traversal of the copy; an opaque node has no attributes of this kind.\<close>

fun stripAttributes :: "with_attributes \<Rightarrow> 'n dnode \<Rightarrow> 'n dnode option" where
  "stripAttributes attrBehavior (DNode s opq v ms cs) =
     (case (if opq then Some ms else nodeAttributes attrBehavior ms) of
        None \<Rightarrow> None
      | Some ms' \<Rightarrow> map_option (DNode s opq v ms') (mapO (stripAttributes attrBehavior) cs))"

text \<open>
  \<open>onChange\<close>: the changed nodes are positions in a forest, and the roots of changes that were seen are skipped.
  The result is the list of copies the signal is called with. The data of the module, which is only logged,
  is dereferenced without a check.
\<close>

fun onChangeLoop :: "with_attributes \<Rightarrow> (exn + string option) \<Rightarrow> 'n dnode list \<Rightarrow> nat set \<Rightarrow> position list \<Rightarrow> (exn + 'n dnode list) option" where
  "onChangeLoop attrBehavior fullData forest seen [] = Some (Inr [])"
| "onChangeLoop attrBehavior fullData forest seen (p # ps) =
     (case p of
        [] \<Rightarrow> onChangeLoop attrBehavior fullData forest seen ps
      | i # _ \<Rightarrow>
          if i \<in> seen \<or> i \<ge> length forest then onChangeLoop attrBehavior fullData forest seen ps
          else (case stripAttributes attrBehavior (forest ! i) of
              None \<Rightarrow> None
            | Some copy \<Rightarrow> (case bindE fullData (deref ''onChange'') of
                Inl e \<Rightarrow> Some (Inl e)
              | Inr _ \<Rightarrow> map_option (map_sum id ((#) copy)) (onChangeLoop attrBehavior fullData forest (insert i seen) ps))))"

definition onChange :: "with_attributes \<Rightarrow> (exn + string option) \<Rightarrow> 'n dnode list \<Rightarrow> position list \<Rightarrow> (exn + 'n dnode list) option" where
  "onChange attrBehavior fullData forest changes = onChangeLoop attrBehavior fullData forest {} changes"

section \<open>Documents\<close>

definition as_restconf_push_update :: "(nat \<Rightarrow> string) \<Rightarrow> string \<Rightarrow> nat \<Rightarrow> string" where
  "as_restconf_push_update yangTime content timePoint =
     ''{'' @ [dquote] @ ''ietf-restconf:notification'' @ [dquote] @ '':{'' @ [dquote] @ ''eventTime'' @ [dquote] @ '':'' @ [dquote] @
     yangTime timePoint @
     [dquote] @ '','' @ [dquote] @ ''ietf-yang-push:push-update'' @ [dquote] @ '':{'' @ [dquote] @ ''datastore-contents'' @ [dquote] @ '':'' @
     content @ ''}}}''"

text \<open>
  The envelope of a notification: the namespace and prefix of \<open>notification\<close> and \<open>eventTime\<close>, the time and the whole tree
  the notification node is in, which for a nested notification is not the node itself.
\<close>

record 'n notification_envelope =
  ne_namespace :: string
  ne_prefix :: string
  ne_eventTime :: string
  ne_tree :: "'n dnode option"

definition as_restconf_notification :: "(nat \<Rightarrow> string) \<Rightarrow> data_format \<Rightarrow> 'n dnode list \<Rightarrow> position \<Rightarrow> nat \<Rightarrow> 'n notification_envelope" where
  "as_restconf_notification yangTime dataFormat forest notification timePoint =
     \<lparr>ne_namespace = (if dataFormat = JSON then ''ietf-restconf'' else ''urn:ietf:params:xml:ns:netconf:notification:1.0''),
      ne_prefix = (if dataFormat = JSON then ''ietf-restconf'' else ''ietf-netconf-notifications''),
      ne_eventTime = yangTime timePoint,
      ne_tree = node_at forest (take 1 notification)\<rparr>"

text \<open>The capabilities that the server publishes at its start.\<close>

definition monitoringCapabilities :: "(string \<times> string) list" where
  "monitoringCapabilities = map (\<lambda>(i, c). (''/ietf-restconf-monitoring:restconf-state/capabilities/capability['' @ i @ '']'', ''urn:ietf:params:restconf:capability:'' @ c))
     [(''1'', ''defaults:1.0?basic-mode=explicit''), (''2'', ''depth:1.0''), (''3'', ''with-defaults:1.0''), (''4'', ''filter:1.0''), (''5'', ''fields:1.0'')]"

section \<open>Polling a pipe\<close>

unbundle bit_operations_syntax

text \<open>The result of \<open>poll\<close> and \<open>revents\<close>, a 16-bit integer.\<close>

definition POLLIN :: "16 word" where "POLLIN = 0x001"
definition POLLHUP :: "16 word" where "POLLHUP = 0x010"

definition pipeHasData :: "int \<times> 16 word \<Rightarrow> bool" where
  "pipeHasData pr \<longleftrightarrow> fst pr = 1 \<and> snd pr AND POLLIN \<noteq> 0"

definition pipeIsClosedAndNoData :: "int \<times> 16 word \<Rightarrow> bool" where
  "pipeIsClosedAndNoData pr \<longleftrightarrow> fst pr = 1 \<and> snd pr AND POLLHUP \<noteq> 0 \<and> \<not> (snd pr AND POLLIN \<noteq> 0)"

section \<open>Laws\<close>

lemma removeEmptyLoop_all: "list_all isEmptyOperationAndOrigin (drop k ms) \<Longrightarrow> k \<le> length ms \<Longrightarrow> removeEmptyLoop ms k = Some (take k ms)"
proof (induction "length ms" arbitrary: ms rule: less_induct)
  case less
  show ?case
  proof (cases "k = length ms")
    case False
    then have k: "k < length ms" using less.prems by simp
    then have "isEmptyOperationAndOrigin (ms ! k)" and "list_all isEmptyOperationAndOrigin (drop k (take k ms @ drop (Suc k) ms))"
      using less.prems(1) by (simp_all add: Cons_nth_drop_Suc [symmetric])
    then show ?thesis
      using less.hyps [of "take k ms @ drop (Suc k) ms"] k by (subst removeEmptyLoop.simps) simp
  qed (subst removeEmptyLoop.simps, simp)
qed

lemma removeEmptyLoop_Some: "removeEmptyLoop ms k = Some r \<Longrightarrow> list_all isEmptyOperationAndOrigin (drop k ms)"
proof (erule removeEmptyLoop.raw_induct [where P = "\<lambda>ms k r. list_all isEmptyOperationAndOrigin (drop k ms)", rotated])
  fix loop meta attr r
  assume IH: "\<And>ms k r. loop ms k = Some r \<Longrightarrow> list_all isEmptyOperationAndOrigin (drop k ms)"
    and step: "(if attr \<ge> length meta then Some meta
      else if isEmptyOperationAndOrigin (meta ! attr) then loop (take attr meta @ drop (Suc attr) meta) attr
      else loop meta attr) = Some r"
  show "list_all isEmptyOperationAndOrigin (drop attr meta)"
  proof (cases "attr < length meta \<and> isEmptyOperationAndOrigin (meta ! attr)")
    case True
    then have "loop (take attr meta @ drop (Suc attr) meta) attr = Some r" using step by simp
    from IH [OF this] show ?thesis using True by (simp add: Cons_nth_drop_Suc [symmetric])
  next
    case False
    then have "attr < length meta \<Longrightarrow> loop meta attr = Some r" using step by simp
    then show ?thesis using IH [of meta attr r] by (cases "attr < length meta") simp_all
  qed
qed

lemma eraseLoop_Nil [simp]: "eraseLoop ms = []"
  by (induction ms) simp_all

lemma mapO_Some_iff: "(\<exists>ys. mapO f xs = Some ys) \<longleftrightarrow> (\<forall>x \<in> set xs. f x \<noteq> None)"
  by (induction xs) (auto split: option.split)

text \<open>The changes the signal is called for, in order: the roots of the changed nodes without repetition.\<close>

fun newRoots :: "nat \<Rightarrow> nat set \<Rightarrow> position list \<Rightarrow> nat list" where
  "newRoots n seen [] = []"
| "newRoots n seen (p # ps) = (case p of
      [] \<Rightarrow> newRoots n seen ps
    | i # _ \<Rightarrow> if i \<in> seen \<or> i \<ge> n then newRoots n seen ps else i # newRoots n (insert i seen) ps)"

lemma newRoots_distinct: "distinct (newRoots n seen ps) \<and> set (newRoots n seen ps) = {i. i < n \<and> i \<notin> seen \<and> (\<exists>p \<in> set ps. p \<noteq> [] \<and> hd p = i)}"
  by (induction ps arbitrary: seen) (auto split: list.splits if_splits)

lemma onChangeLoop_roots:
  "onChangeLoop b (Inr (Some d)) forest seen ps = map_option Inr (mapO (\<lambda>i. stripAttributes b (forest ! i)) (newRoots (length forest) seen ps))"
  by (induction ps arbitrary: seen) (auto simp: deref_def option.map_comp o_def split: list.split option.split)

text \<open>The module listened for in the end is the last one that can be subscribed.\<close>

lemma foldE_listenModule:
  assumes "\<And>m e. m \<in> set ms \<Longrightarrow> srSubscribe m = Inl e \<Longrightarrow> \<exists>w. e = Sysrepo_Error NotFound w"
  shows "foldE (listenModule srSubscribe) s ms =
    Inr (case filter (\<lambda>m. m \<noteq> ''sysrepo'' \<and> srSubscribe m = Inr ()) ms of [] \<Rightarrow> s | xs \<Rightarrow> Some (last xs))"
  using assms
proof (induction ms arbitrary: s)
  case (Cons m ms)
  have IH: "foldE (listenModule srSubscribe) t ms =
      Inr (case filter (\<lambda>m. m \<noteq> ''sysrepo'' \<and> srSubscribe m = Inr ()) ms of [] \<Rightarrow> t | xs \<Rightarrow> Some (last xs))" for t
    by (rule Cons.IH, rule Cons.prems) simp_all
  show ?case
  proof (cases "srSubscribe m")
    case (Inl e)
    then obtain w where "e = Sysrepo_Error NotFound w" using Cons.prems [of m e] by auto
    then show ?thesis using Inl IH by (simp add: listenModule_def [of srSubscribe s m])
  next
    case (Inr u)
    then show ?thesis using IH by (simp add: listenModule_def [of srSubscribe s m] split: list.split)
  qed
qed simp

end
