(* ===== verification/Request_Properties.thy ===== *)
theory Request_Properties
  imports Server_Example Location_Laws Sr_Events
begin

text \<open>
  Properties that span a whole request, from the query string to the response, with the streams, the schema
  locations and the change events.
\<close>

section \<open>Responses\<close>

text \<open>A request other than a YANG patch whose body arrives in nonempty chunks and then ends: if it is served without an
  exception, exactly one response is written, or none yet because the response to a failed authentication
  waits for its timer; if an exception escapes the handlers, no response was written.\<close>

theorem request_answered_once:
  assumes "list_all (\<lambda>c. c \<noteq> []) chunks" and "\<not> isYangPatch req"
    and "serveRequest E SE stod lib anonUser authenticate nacm req (chunks @ [[]]) (new_request sess subs) = (res, w')"
  shows "if isl res then w_responses w' = [] else length (w_responses w') = 1 \<or> w_responses w' = [] \<and> w_authDelay w' \<noteq> None"
proof -
  obtain r w1 where r: "restconfRoute E stod lib anonUser authenticate nacm req (new_request sess subs) = (r, w1)" by fastforce
  have out: "outcome req ([], None) r w1" using routedD [OF routed_restconfRoute r] by (simp add: new_request_def reply_def)
  have body: "w_responses w' = [] \<and> isl res \<or> (\<exists>x. w_responses w' = [x]) \<and> \<not> isl res"
    if a: "\<And>rc'. rc_req rc' = req \<Longrightarrow> answers (process rc')" and "rc_req rc = req" and "w_responses w1 = []"
      and m: "bindA (receive_body process (chunks @ [[]]) rc) (\<lambda>_. ret ()) w1 = (res, w')" for process rc
  proof -
    let ?rc = "rc\<lparr>rc_payload := rc_payload rc @ concat chunks\<rparr>"
    have "answers (process ?rc)" using a that(2) by simp
    moreover obtain r2 w2 where "process ?rc w1 = (r2, w2)" by fastforce
    ultimately show ?thesis using m that(3) receive_chunks [OF assms(1), of process rc]
      by (cases r2) (auto simp: bindA_def reply_def replies_def dest: answers_Inl answers_Inr)
  qed
  show ?thesis
  proof (cases r)
    case (Inl e)
    then show ?thesis using assms(3) r out by (auto simp: serveRequest_def bindA_def reply_def)
  next
    case (Inr h)
    show ?thesis
    proof (cases h)
      case Finished
      then show ?thesis using assms(3) r out Inr by (auto simp: serveRequest_def bindA_def reply_def replies_def)
    next
      case (Await_Write rc)
      then have "bindA (receive_body (processWrite E) (chunks @ [[]]) rc) (\<lambda>_. ret ()) w1 = (res, w')"
        using assms(3) r Inr by (simp add: serveRequest_def bindA_def)
      moreover have "answers (processWrite E rc')" if "rc_req rc' = req" for rc' using answers_processWrite that assms(2) by blast
      ultimately show ?thesis using body [of "processWrite E" rc] out Inr Await_Write by (auto simp: reply_def)
    next
      case (Await_Rpc rc)
      then have "bindA (receive_body (processRpc E SE) (chunks @ [[]]) rc) (\<lambda>_. ret ()) w1 = (res, w')"
        using assms(3) r Inr by (simp add: serveRequest_def bindA_def)
      then show ?thesis using body [of "processRpc E SE" rc] answers_processRpc out Inr Await_Rpc by (auto simp: reply_def)
    qed
  qed
qed

definition ex_http :: "string \<Rightarrow> string \<Rightarrow> string \<Rightarrow> http_request" where
  "ex_http method path query = \<lparr>http_method = method, http_path = path, http_raw_path = path, http_raw_query = query,
     http_header = [(''authorization'', ''alice''), (''content-type'', ''application/yang-data+json'')], http_remote = []\<rparr>"

definition ex_subs :: "nat subs_env" where
  "ex_subs = \<lparr>se_recoveryUser = ''root'', se_subscribe = (\<lambda>_ _ _ _. Inl (Runtime_Error [])), se_terminate = (\<lambda>_. Inr ()),
     se_makeUUID = (\<lambda>_. 0), se_uuidString = (\<lambda>_. ''0'')\<rparr>"

definition ex_stod :: "nat stod" where
  "ex_stod s = (if s = ''1'' then Some 1 else None)"

definition ex_serve :: "http_request \<Rightarrow> string list \<Rightarrow> (exn + unit) \<times> (nat, nat) world" where
  "ex_serve req chunks = serveRequest ex_env ex_subs ex_stod None ''anonymous'' Inr Nacm_init req chunks
     (new_request \<lparr>activeDatastore = Operational, nacmUser = None\<rparr> DynamicSubscriptions_init)"

theorem request_answered_once_witness:
  "\<exists>w'. ex_serve (ex_http ''PUT'' ''/restconf/data/m:top'' []) [''to'', ''p'', []] = (Inr (), w') \<and> map status (w_responses w') = [201] \<and> w_authDelay w' = None"
proof -
  let ?req = "ex_http ''PUT'' ''/restconf/data/m:top'' []"
  have "map_prod id (\<lambda>w. (map status (w_responses w), w_authDelay w)) (ex_serve ?req ([''to'', ''p''] @ [[]])) = (Inr (), [201], None)" by code_simp
  then obtain w' where r: "ex_serve ?req ([''to'', ''p''] @ [[]]) = (Inr (), w')" "map status (w_responses w') = [201]" "w_authDelay w' = None"
    by (cases "ex_serve ?req ([''to'', ''p''] @ [[]])") auto
  have "\<not> isYangPatch ?req" by code_simp
  moreover have "list_all (\<lambda>c. c \<noteq> []) [''to'', ''p'']" by simp
  ultimately have "length (w_responses w') = 1 \<or> w_responses w' = [] \<and> w_authDelay w' \<noteq> None"
    using request_answered_once [of "[''to'', ''p'']" ?req] r(1) unfolding ex_serve_def by fastforce
  then show ?thesis using r by simp
qed

section \<open>Query parameters in the handlers\<close>

lemma accepted_params:
  assumes "asRestconfRequest what ctx m up q = Inr r"
  shows "\<exists>ps. list_all valid_param ps \<and> params_accepted ps m \<and> (req_queryParams r = ps \<or> req_queryParams r = [])"
proof -
  obtain uri ps ly node t where "request_parts ctx m up q uri ps ly node t"
    and "RestconfRequest t (request_datastore t uri) (request_path t uri ly) (request_params t ps) = Inr r"
    using assms by (auto simp: asRestconfRequest_Inr_iff)
  then show ?thesis using queryParamGrammar_valid
    by (auto simp: request_parts_def RestconfRequest_def bindE_eq_Inr_iff request_params_def intro!: exI [of _ ps])
qed

lemma valid_param_find: "list_all valid_param ps \<Longrightarrow> mm_find ps k = Some v \<Longrightarrow> k \<in> set (param_keys v) \<and> value_ok v"
  by (auto simp: list_all_iff valid_param_def dest!: map_of_SomeD)

text \<open>C26. The check of the query string makes the handlers safe: for an accepted request the target of \<open>insert\<close> is defined, the
  XPath of \<open>fields\<close> gives at worst an error response, the flags of \<open>with-defaults\<close> never give a logic error for the data found, and
  the depth fits into 16 bits.\<close>

theorem accepted_params_sound:
  assumes "asRestconfRequest what ctx m up q = Inr r"
  shows "\<not> isl (insertTarget (req_queryParams r)) \<and> only_errors (getXPath ctx r) \<and> maxDepth (req_queryParams r) \<le> 65535 \<and>
    (findNode ly tree [0] (req_path r) = Inr nd \<longrightarrow> \<not> isl (libyangPrintFlags ly tree (req_path r) (mm_find (req_queryParams r) ''with-defaults'')))"
proof -
  obtain ps where ps: "list_all valid_param ps" "params_accepted ps m" "req_queryParams r = ps \<or> req_queryParams r = []"
    using accepted_params [OF assms] by blast
  then have v: "k \<in> set (param_keys v) \<and> value_ok v" if "mm_find (req_queryParams r) k = Some v" for k v
    using that valid_param_find by fastforce
  have point: "\<exists>segs. mm_find (req_queryParams r) ''point'' = Some (PointParsed segs)"
    if "mm_find (req_queryParams r) ''insert'' = Some x" "x \<in> {Before, After}" for x
  proof -
    have "''point'' \<in> fst ` set ps" "req_queryParams r = ps" using ps that by (auto simp: params_accepted_def dest!: map_of_SomeD)
    then obtain y where "mm_find (req_queryParams r) ''point'' = Some y" by (metis domIff dom_map_of_conv_image_fst not_Some_eq)
    with v [OF this] show ?thesis by (cases y) auto
  qed
  have "\<not> isl (insertTarget (req_queryParams r))"
  proof (cases "mm_find (req_queryParams r) ''insert''")
    case (Some x)
    then have x: "x \<in> {First, Last, Before, After}" using v [OF Some] by (cases x) auto
    show ?thesis
    proof (cases "x \<in> {Before, After}")
      case True
      then obtain segs where "mm_find (req_queryParams r) ''point'' = Some (PointParsed segs)" using point [OF Some] by blast
      then show ?thesis using Some True by (auto simp: insertTarget_def)
    next
      case False
      then show ?thesis using Some x by (auto simp: insertTarget_def)
    qed
  qed (simp add: insertTarget_def)
  moreover have "only_errors (getXPath ctx r)"
  proof (cases "mm_find (req_queryParams r) ''fields''")
    case (Some x)
    then show ?thesis using v [OF Some] by (cases x) (auto simp: getXPath_def only_errors_fieldsToXPath)
  qed (simp add: getXPath_def)
  moreover have "maxDepth (req_queryParams r) \<le> 65535"
    using v [of "''depth''"] by (auto simp: maxDepth_def split: option.splits query_param_value.splits)
  moreover have "\<not> isl (libyangPrintFlags ly tree (req_path r) (mm_find (req_queryParams r) ''with-defaults''))" if "findNode ly tree [0] (req_path r) = Inr nd"
  proof (cases "mm_find (req_queryParams r) ''with-defaults''")
    case (Some x)
    then show ?thesis using v [OF Some] that by (cases x) (auto simp: libyangPrintFlags_def)
  qed (use that in \<open>simp add: libyangPrintFlags_def\<close>)
  ultimately show ?thesis by blast
qed

theorem accepted_params_sound_witness:
  "maxDepth (req_queryParams \<lparr>req_type = GetData, req_datastore = None, req_path = ''/m:top'', req_queryParams = [(''depth'', Depth 7)]\<rparr>) \<le> 65535"
proof -
  have "asRestconfRequest (\<lambda>_. []) ex_ctx ''GET'' ''/restconf/data/m:top'' ''depth=7'' =
      Inr \<lparr>req_type = GetData, req_datastore = None, req_path = ''/m:top'', req_queryParams = [(''depth'', Depth 7)]\<rparr>"
    by code_simp
  from accepted_params_sound [OF this] show ?thesis by blast
qed

end
