(* ===== verification/Route_Laws.thy ===== *)
theory Route_Laws
  imports Server_Traces
begin

text \<open>Laws of the routes: requests with safe methods, the notification stream and access to schemas.\<close>

section \<open>Safe methods\<close>

lemma safe_table:
  assumes "request_table m pfx node = Some t" and "m \<in> {''GET'', ''HEAD'', ''OPTIONS''}"
  shows "t \<in> {GetData, OptionsQuery, Type_RestconfRoot, Type_YangLibraryVersion, ListRPC}"
proof (cases node)
  case None
  then show ?thesis using assms by (auto simp: table_defs split: if_splits uri_prefix_type.splits)
next
  case (Some tn)
  then show ?thesis using assms by (cases tn) (auto simp: table_defs split: if_splits node_type.splits)
qed

lemma safe_request_type:
  assumes "asRestconfRequest what ctx m up q = Inr r" and "m \<in> {''GET'', ''HEAD'', ''OPTIONS''}"
  shows "req_type r \<in> {GetData, OptionsQuery, Type_RestconfRoot, Type_YangLibraryVersion, ListRPC}"
proof -
  obtain uri ps ly node t where p: "request_parts ctx m up q uri ps ly node t"
    and r: "RestconfRequest t (request_datastore t uri) (request_path t uri ly) (request_params t ps) = Inr r"
    using assms(1) by (auto simp: asRestconfRequest_Inr_iff)
  have "req_type r = t" using r by (auto simp: RestconfRequest_def bindE_eq_Inr_iff)
  moreover have "request_table m (path_prefix uri) (target_of ctx node) = Some t" using p by (simp add: request_parts_def)
  ultimately show ?thesis using safe_table [OF _ assms(2)] by simp
qed

definition finishes :: "('n, 'u, handler_result) server_action \<Rightarrow> bool" where
  "finishes m \<longleftrightarrow> (\<forall>w h w'. m w = (Inr h, w') \<longrightarrow> h = Finished)"

lemma finishes_finish: "finishes (finish m)"
  by (auto simp: finishes_def finish_def bindA_def split: prod.splits sum.splits)

lemma finishes_bindA: "(\<And>a. finishes (f a)) \<Longrightarrow> finishes (bindA m f)"
  unfolding finishes_def bindA_def by (auto split: prod.splits sum.splits)

lemma finishes_catchA: "finishes m \<Longrightarrow> (\<And>e k. h e = Some k \<Longrightarrow> finishes k) \<Longrightarrow> finishes (catchA m h)"
  unfolding finishes_def catchA_def by (auto split: prod.splits sum.splits option.splits)

lemma bind_lift: "bindA (liftE x) f = (case x of Inl e \<Rightarrow> liftE (Inl e) | Inr a \<Rightarrow> f a)"
  by (auto simp: bindA_def fun_eq_iff split: sum.split)

text \<open>The policy of such requests: no call writes, whoever the user is.\<close>

interpretation safe: read_policy "\<lambda>_. True" "\<lambda>c :: 'n sr_call. \<not> is_write (call_op c)"
  by unfold_locales simp_all

lemma safe_handleRequest:
  assumes "req_type r \<in> {GetData, OptionsQuery, Type_RestconfRoot, Type_YangLibraryVersion, ListRPC}"
  shows "keeps (policy_inv (\<lambda>_. True) (\<lambda>c. \<not> is_write (call_op c))) (handleRequest E lib df req r)" "finishes (handleRequest E lib df req r)"
  using assms
  by (auto simp: handleRequest_def intro!: keeps_finish safe.keeps_handleGetData safe.keeps_handleOptions safe.keeps_apiResource finishes_finish)

lemma safe_route:
  assumes "http_method req \<in> {''GET'', ''HEAD'', ''OPTIONS''}"
  shows "keeps (policy_inv (\<lambda>_. True) (\<lambda>c. \<not> is_write (call_op c))) (restconfRoute E stod lib anonUser authenticate nacm req :: ('n, 'u, handler_result) server_action)"
    and "finishes (restconfRoute E stod lib anonUser authenticate nacm req :: ('n, 'u, handler_result) server_action)"
proof -
  let ?I = "policy_inv (\<lambda>_. True) (\<lambda>c. \<not> is_write (call_op c)) :: ('n, 'u) world \<Rightarrow> bool"
  let ?rest = "\<lambda>df. bindA (liftE (asRestconfRequest (env_what E) (env_ctx E) (http_method req) (http_raw_path req) (http_raw_query req)))
      (handleRequest E lib df req) :: ('n, 'u, handler_result) server_action"
  have auth: "keeps ?I (authorizeSession anonUser authenticate nacm req)"
    by (rule keepsI) (simp add: authorizeSession_def policy_inv_def split: sum.split)
  have lift: "finishes (liftE (Inl e) :: ('n, 'u, handler_result) server_action)" for e by (simp add: finishes_def)
  have rest: "keeps ?I (?rest df)" "finishes (?rest df)" for df
  proof -
    have "keeps ?I (handleRequest E lib df req r) \<and> finishes (handleRequest E lib df req r :: ('n, 'u, handler_result) server_action)"
      if "asRestconfRequest (env_what E) (env_ctx E) (http_method req) (http_raw_path req) (http_raw_query req) = Inr r" for r
      using safe_handleRequest [OF safe_request_type [OF that assms]] by blast
    then show "keeps ?I (?rest df)" "finishes (?rest df)" unfolding bind_lift by (auto intro: keeps_liftE lift split: sum.split)
  qed
  have catch: "finishes k" if "restconfCatch E fmt req e = Some k" for fmt e and k :: "('n, 'u, handler_result) server_action"
    using that by (auto simp: restconfCatch_def finishes_finish split: exn.splits)
  show "keeps ?I (restconfRoute E stod lib anonUser authenticate nacm req)"
    unfolding restconfRoute_def by (cases "chooseDataEncoding stod (http_header req)")
      (auto intro!: keeps_catchA keeps_liftE keeps_bindA auth rest intro: safe.keeps_restconfCatch)
  show "finishes (restconfRoute E stod lib anonUser authenticate nacm req :: ('n, 'u, handler_result) server_action)"
    unfolding restconfRoute_def by (cases "chooseDataEncoding stod (http_header req)")
      (auto intro!: finishes_catchA finishes_bindA lift rest intro: catch)
qed

section \<open>Notification streams\<close>

lemma subscribeModule_trace:
  assumes "subscribeModule sr ns m w = (Inr (), w')"
  shows "ops w' = ops w @ (if canBeSubscribed m then [Sr_OnNotification (lm_name m) (ns_filter ns) (ns_startTime ns) (ns_stopTime ns)] else []) \<and> w_responses w' = w_responses w"
  using assms
  by (auto simp: subscribeModule_def subscribe_notifications_def catchA_def ask_apply split: if_splits sum.splits exn.splits sr_error_code.splits)

lemma subscribe_all:
  "foldA (\<lambda>_. subscribeModule sr ns) () ms w = (Inr (), w') \<Longrightarrow>
   ops w' = ops w @ map (\<lambda>m. Sr_OnNotification (lm_name m) (ns_filter ns) (ns_startTime ns) (ns_stopTime ns)) (filter canBeSubscribed ms) \<and> w_responses w' = w_responses w"
proof (induction ms arbitrary: w)
  case (Cons m ms)
  then obtain w1 where "subscribeModule sr ns m w = (Inr (), w1)" "foldA (\<lambda>_. subscribeModule sr ns) () ms w1 = (Inr (), w')"
    by (auto simp: bindA_def split: prod.splits sum.splits)
  then show ?case using Cons.IH subscribeModule_trace by fastforce
qed simp

definition times_accepted :: "nat \<Rightarrow> nat option \<Rightarrow> nat option \<Rightarrow> bool" where
  "times_accepted now startTime stopTime \<longleftrightarrow> (case (startTime, stopTime) of
      (None, None) \<Rightarrow> True | (None, Some _) \<Rightarrow> False | (Some a, None) \<Rightarrow> a \<le> now | (Some a, Some b) \<Rightarrow> a < b \<and> a \<le> now)"

lemma checkStreamTimes_iff: "checkStreamTimes now a b = Inr () \<longleftrightarrow> times_accepted now a b"
  by (auto simp: checkStreamTimes_def times_accepted_def split: option.split)

text \<open>The replay information of all modules.\<close>

definition replay_times :: "(string \<Rightarrow> bool \<times> nat option) \<Rightarrow> ly_module_info list \<Rightarrow> nat set" where
  "replay_times replaySupport modules = {t. \<exists>m \<in> set modules. canBeSubscribed m \<and> snd (replaySupport (lm_name m)) = Some t}"

definition earliest :: "nat set \<Rightarrow> nat option" where
  "earliest S = (if S = {} then None else Some (Min S))"

lemma finite_replay_times: "finite (replay_times rs ms)"
proof -
  have "replay_times rs ms \<subseteq> (\<Union>m \<in> set ms. set_option (snd (rs (lm_name m))))" by (auto simp: replay_times_def)
  then show ?thesis by (rule finite_subset) simp
qed

lemma earliest_insert: "finite S \<Longrightarrow> earliest (insert t S) = (case earliest S of None \<Rightarrow> Some t | Some t' \<Rightarrow> Some (min t t'))"
  by (auto simp: earliest_def)

lemma sysrepoReplayInfo_eq:
  "sysrepoReplayInfo rs ms = \<lparr>ri_enabled = (\<exists>m \<in> set ms. canBeSubscribed m \<and> fst (rs (lm_name m))), ri_earliestNotification = earliest (replay_times rs ms)\<rparr>"
proof (induction ms rule: rev_induct)
  case Nil
  then show ?case by (simp add: sysrepoReplayInfo_def replay_times_def earliest_def)
next
  case (snoc m ms)
  have "replay_times rs (ms @ [m]) = (if canBeSubscribed m then (case snd (rs (lm_name m)) of None \<Rightarrow> replay_times rs ms | Some t \<Rightarrow> insert t (replay_times rs ms)) else replay_times rs ms)"
    by (auto simp: replay_times_def split: option.split)
  then show ?case using snoc
    by (auto simp: sysrepoReplayInfo_def addReplayInfo_def earliest_insert finite_replay_times split: prod.split option.split)
qed

section \<open>Subscriptions over the stream route\<close>

lemma handleStream_change:
  assumes "handleStream E SE NE rp w = (res, w')" and "w_subs w' \<noteq> w_subs w"
  shows "\<exists>uid ps a d. rp = (SubscribedStreamRequest uid, ps) \<and> res = Inr () \<and>
    getSubscriptionForUser (se_recoveryUser SE) uid (nacmUser (w_sess w)) (w_subs w) = Some (a, d) \<and> isReadyToAcceptClient d"
proof -
  obtain rq ps where rp: "rp = (rq, ps)" by fastforce
  show ?thesis
  proof (cases rq)
    case (SubscribedStreamRequest uid)
    then show ?thesis using assms rp
      by (auto simp: handleStream_def connectStream_def connect_stream_def respond_def throw_error_def throw_error_at_def split: option.splits if_splits)
  next
    case (NotificationStreamRequest stream enc)
    then have "keeps (\<lambda>x. w_subs x = w_subs w) (handleStream E SE NE rp)"
      unfolding handleStream_def rp by (auto intro!: keeps_intros same_subs.reading.keeps_NotificationStream)
    from keepsD [OF this, of w] show ?thesis using assms by simp
  qed
qed

lemma streamRoute_change:
  assumes "streamRoute E SE NE uuidOf anonUser authenticate nacm req w = (res, w')" and "w_subs w' \<noteq> w_subs w"
  shows "\<exists>sess uid ps a d. authorizeRequest anonUser authenticate nacm (w_sess w) (http_header req) = Inr sess \<and>
    asRestconfStreamRequest (env_what E) uuidOf (http_method req) (http_path req) (http_raw_query req) = Inr (SubscribedStreamRequest uid, ps) \<and>
    getSubscriptionForUser (se_recoveryUser SE) uid (nacmUser sess) (w_subs w) = Some (a, d) \<and> isReadyToAcceptClient d"
proof -
  let ?auth = "authorizeRequest anonUser authenticate nacm (w_sess w) (http_header req)"
  let ?rp = "asRestconfStreamRequest (env_what E) uuidOf (http_method req) (http_path req) (http_raw_query req)"
  let ?body = "bindA (authorizeSession anonUser authenticate nacm req) (\<lambda>_. bindA (liftE ?rp) (handleStream E SE NE))"
  have "http_method req \<noteq> ''OPTIONS''" using assms by (auto simp: streamRoute_def respond_def)
  then have "catchA ?body plainCatch w = (res, w')" using assms(1) by (simp add: streamRoute_def)
  then have changed: "w_subs (snd (?body w)) \<noteq> w_subs w" using assms(2) catchA_same_subs [of ?body w] by simp
  then obtain sess where sess: "?auth = Inr sess" by (cases ?auth) (auto simp: bindA_def authorizeSession_def)
  let ?w1 = "w\<lparr>w_sess := sess\<rparr>"
  obtain rp where rp: "?rp = Inr rp" using changed sess by (cases ?rp) (auto simp: bindA_def authorizeSession_def)
  obtain r2 w2 where h: "handleStream E SE NE rp ?w1 = (r2, w2)" by fastforce
  then have "w_subs w2 \<noteq> w_subs ?w1" using changed sess rp by (simp add: bindA_def authorizeSession_def)
  from handleStream_change [OF h this] show ?thesis using sess rp by fastforce
qed

end
