(* ===== verification/Route_Properties.thy ===== *)
theory Route_Properties
  imports Server_Example Route_Laws Location_Laws Sr_Events
begin

text \<open>Properties of the routes: safe methods, internal RPCs, streams, schemas and the events of sysrepo.\<close>

section \<open>Requests\<close>

text \<open>C24. A request with one of the methods GET, HEAD and OPTIONS never writes: it makes no call to edit, replace or apply
  configuration, whatever the client sends as a body.\<close>

theorem safe_methods_do_not_write:
  assumes "http_method req \<in> {''GET'', ''HEAD'', ''OPTIONS''}"
  shows "list_all (\<lambda>c. \<not> is_write (call_op c))
    (w_calls (snd (serveRequest E SE stod lib anonUser authenticate nacm req chunks (new_request sess subs))))"
proof -
  let ?w = "new_request sess subs"
  obtain r w1 where r: "restconfRoute E stod lib anonUser authenticate nacm req ?w = (r, w1)" by fastforce
  have "policy_inv (\<lambda>_. True) (\<lambda>c. \<not> is_write (call_op c)) w1"
    using keepsD [OF safe_route(1) [OF assms, of E stod lib anonUser authenticate nacm], of ?w] r by (simp add: policy_inv_def new_request_def)
  moreover have "snd (serveRequest E SE stod lib anonUser authenticate nacm req chunks ?w) = w1"
    using safe_route(2) [OF assms, of E stod lib anonUser authenticate nacm, unfolded finishes_def] r
    by (cases r) (fastforce simp: serveRequest_def bindA_def)+
  ultimately show ?thesis by (simp add: policy_inv_def list_all_iff)
qed

definition ex_get :: http_request where
  "ex_get = \<lparr>http_method = ''GET'', http_path = ''/restconf/data/m:top'', http_raw_path = ''/restconf/data/m:top'', http_raw_query = [],
     http_header = [(''authorization'', ''alice'')], http_remote = []\<rparr>"

definition ex_subs_env :: "nat subs_env" where
  "ex_subs_env = \<lparr>se_recoveryUser = ''root'', se_subscribe = (\<lambda>_ _ _ _. Inl (Runtime_Error [])), se_terminate = (\<lambda>_. Inr ()),
     se_makeUUID = (\<lambda>_. 0), se_uuidString = (\<lambda>_. ''0'')\<rparr>"

theorem safe_methods_do_not_write_witness:
  "list_all (\<lambda>c. \<not> is_write (call_op c)) (w_calls (snd (serveRequest ex_env ex_subs_env (\<lambda>_. Some (1 :: nat)) None ''anonymous'' Inr Nacm_init ex_get []
    (new_request \<lparr>activeDatastore = Operational, nacmUser = None\<rparr> DynamicSubscriptions_init))))"
  by (rule safe_methods_do_not_write) (simp add: ex_get_def)

text \<open>C23. An RPC that the server handles itself changes the table of subscriptions only if sysrepo has answered, to a check of
  this RPC for the user of the session, that it is permitted, and only for the three subscription RPCs with a handler.\<close>

theorem internal_rpc_authorised:
  assumes "processInternalRPC E SE rpcInput pos schemeAndHost fmt w = (res, w')" and "w_subs w' \<noteq> w_subs w"
  shows "\<exists>tree node. ld_newPath2 (env_ly E) (ld_nodePath (env_ly E) rpcInput pos) = Inr (tree, Some node) \<and>
    sr_permitted (env_sr E) (w_calls w @ [session_call w (Sr_CheckNacm tree)]) = Inr True \<and>
    ld_nodePath (env_ly E) rpcInput pos \<in> fst ` set internalHandlers"
  by (rule internal_rpc_change [OF assms])

definition ex_rpc_env :: "nat server_env" where
  "ex_rpc_env = ex_env\<lparr>env_ly := ex_ly\<lparr>ld_nodePath := (\<lambda>_ _. ''/ietf-subscribed-notifications:establish-subscription''),
     ld_findPath := (\<lambda>_ _ path. Inr (if path = ''stream'' then Some [0, 0] else None))\<rparr>\<rparr>"

definition ex_rpc_subs :: "nat subs_env" where
  "ex_rpc_subs = ex_subs_env\<lparr>se_subscribe := (\<lambda>_ _ _ _. Inr (1, None))\<rparr>"

definition ex_rpc_input :: "nat dnode list" where
  "ex_rpc_input = [DNode 0 False [] [] [leaf 1 ''NETCONF'']]"

theorem internal_rpc_authorised_witness:
  "\<exists>res w'. processInternalRPC ex_rpc_env ex_rpc_subs ex_rpc_input [0] (Some ''https://h'') JSON ex_world = (res, w') \<and> w_subs w' \<noteq> w_subs ex_world \<and>
    ld_nodePath (env_ly ex_rpc_env) ex_rpc_input [0] \<in> fst ` set internalHandlers"
proof -
  let ?run = "processInternalRPC ex_rpc_env ex_rpc_subs ex_rpc_input [0] (Some ''https://h'') JSON ex_world"
  obtain res w' where r: "?run = (res, w')" by fastforce
  have "length (m_subscriptions (w_subs (snd ?run))) = 1" and "length (m_subscriptions (w_subs ex_world)) = 0" by code_simp+
  then have "w_subs w' \<noteq> w_subs ex_world" using r by auto
  then show ?thesis using internal_rpc_authorised [OF r] r by blast
qed

section \<open>Streams\<close>

text \<open>The replay information published for the NETCONF stream: replay is supported if any module that can be
  subscribed supports it, and the log starts at the earliest notification of all those modules.\<close>

theorem replay_info_exact:
  "sysrepoReplayInfo replaySupport modules =
     \<lparr>ri_enabled = (\<exists>m \<in> set modules. canBeSubscribed m \<and> fst (replaySupport (lm_name m))),
      ri_earliestNotification = earliest (replay_times replaySupport modules)\<rparr>"
  by (rule sysrepoReplayInfo_eq)

text \<open>A NETCONF notification stream that is opened has an accepted time range, subscribes every implemented module
  except \<open>sysrepo\<close> once, in order, with the filter and times of the request, and only then answers with an event stream.\<close>

theorem notification_stream_opened:
  assumes "NotificationStream_create E now fmt xpathFilter startTime stopTime w = (Inr (), w')"
  shows "times_accepted now startTime stopTime \<and>
    ops w' = ops w @ map (\<lambda>m. Sr_OnNotification (lm_name m) xpathFilter startTime stopTime) (filter canBeSubscribed (ld_modules (env_ly E))) \<and>
    w_responses w' = w_responses w @ [\<lparr>status = 200, headers = eventStreamHeaders, body = Event_Stream_Body\<rparr>]"
proof -
  have t: "checkStreamTimes now startTime stopTime = Inr ()"
    using assms by (cases "checkStreamTimes now startTime stopTime") (auto simp: NotificationStream_create_def NotificationStream_new_def bindA_def)
  let ?ns = "\<lparr>ns_dataFormat = fmt, ns_filter = xpathFilter, ns_startTime = startTime, ns_stopTime = stopTime\<rparr>"
  obtain w1 where "foldA (\<lambda>_. subscribeModule (env_sr E) ?ns) () (ld_modules (env_ly E)) w = (Inr (), w1)"
      "w' = w1\<lparr>w_responses := w_responses w1 @ [\<lparr>status = 200, headers = eventStreamHeaders, body = Event_Stream_Body\<rparr>]\<rparr>"
    using assms t by (auto simp: NotificationStream_create_def NotificationStream_new_def NotificationStream_activate_def bindA_def respond_def split: prod.splits sum.splits)
  then show ?thesis using subscribe_all [of "env_sr E" ?ns] t by (fastforce simp: checkStreamTimes_iff)
qed

definition ex_module :: "string \<Rightarrow> bool \<Rightarrow> ly_module_info" where
  "ex_module nm impl = \<lparr>lm_name = nm, lm_ns = nm, lm_revision = None, lm_implemented = impl, lm_rpcs = []\<rparr>"

definition ex_notif_env :: "nat server_env" where
  "ex_notif_env = ex_env\<lparr>env_ly := ex_ly\<lparr>ld_modules := [ex_module ''a'' True, ex_module ''sysrepo'' True, ex_module ''b'' False, ex_module ''c'' True]\<rparr>\<rparr>"

theorem notification_stream_opened_witness:
  "\<exists>w'. NotificationStream_create ex_notif_env 5 JSON None (Some 2) None ex_world = (Inr (), w') \<and>
    ops w' = [Sr_OnNotification ''a'' None (Some 2) None, Sr_OnNotification ''c'' None (Some 2) None]"
proof -
  have "fst (NotificationStream_create ex_notif_env 5 JSON None (Some 2) None ex_world) = Inr ()" by code_simp
  then obtain w' where r: "NotificationStream_create ex_notif_env 5 JSON None (Some 2) None ex_world = (Inr (), w')"
    by (cases "NotificationStream_create ex_notif_env 5 JSON None (Some 2) None ex_world") simp
  show ?thesis using notification_stream_opened [OF r] r
    by (simp add: ex_notif_env_def ex_module_def canBeSubscribed_def ex_world_def new_request_def)
qed

text \<open>If libyang cannot convert the \<open>start-time\<close> of a request for the NETCONF stream, for instance the 31st of February, which the
  grammar of the query accepts, the exception leaves the handler and no response is written.\<close>

theorem stream_time_escapes:
  assumes "http_method req \<noteq> ''OPTIONS''" and "authorizeRequest anonUser authenticate nacm (w_sess w) (http_header req) = Inr sess"
    and "asRestconfStreamRequest (env_what E) uuidOf (http_method req) (http_path req) (http_raw_query req) =
      Inr (NotificationStreamRequest ''NETCONF'' enc, [(''start-time'', StringValue s)])"
    and "ne_fromYangTime NE s = Inl (Libyang_Error e)"
  shows "streamRoute E SE NE uuidOf anonUser authenticate nacm req w = (Inl (Libyang_Error e), w\<lparr>w_sess := sess\<rparr>)"
  using assms
  by (simp add: streamRoute_def catchA_def bindA_def authorizeSession_def handleStream_def streamFilter_def streamTime_def plainCatch_def)

definition ex_stream_request :: http_request where
  "ex_stream_request = \<lparr>http_method = ''GET'', http_path = ''/streams/NETCONF/JSON'', http_raw_path = ''/streams/NETCONF/JSON'',
     http_raw_query = ''start-time=2024-02-31T00:00:00Z'', http_header = [(''authorization'', ''alice'')], http_remote = []\<rparr>"

definition ex_notif :: notif_env where
  "ex_notif = \<lparr>ne_now = 5, ne_fromYangTime = (\<lambda>_. Inl (Libyang_Error (LyError None ''date''))), ne_yangTime = (\<lambda>_. []), ne_replaySupport = (\<lambda>_. (False, None))\<rparr>"

theorem stream_time_escapes_witness:
  "\<exists>w'. streamRoute ex_env ex_subs_env ex_notif (\<lambda>_. None) ''anonymous'' Inr Nacm_init ex_stream_request ex_world = (Inl (Libyang_Error (LyError None ''date'')), w') \<and>
    w_responses w' = []"
proof -
  have "authorizeRequest ''anonymous'' Inr Nacm_init (w_sess ex_world) (http_header ex_stream_request) = Inr \<lparr>activeDatastore = Running, nacmUser = Some ''alice''\<rparr>"
    by code_simp
  moreover have "asRestconfStreamRequest (env_what ex_env) (\<lambda>_. None :: nat option) (http_method ex_stream_request) (http_path ex_stream_request) (http_raw_query ex_stream_request) =
      Inr (NotificationStreamRequest ''NETCONF'' JSON, [(''start-time'', StringValue ''2024-02-31T00:00:00Z'')])"
    by code_simp
  moreover have "http_method ex_stream_request \<noteq> ''OPTIONS''" by (simp add: ex_stream_request_def)
  moreover have "ne_fromYangTime ex_notif ''2024-02-31T00:00:00Z'' = Inl (Libyang_Error (LyError None ''date''))" by (simp add: ex_notif_def)
  ultimately show ?thesis using stream_time_escapes [where SE = ex_subs_env and NE = ex_notif and w = ex_world and E = ex_env]
    by (fastforce simp: ex_world_def new_request_def)
qed

section \<open>Locations and schemas\<close>

text \<open>After the replacement of YANG library locations, every location of a module or submodule anywhere in the data is the URL
  of that module on this server: scheme and host of the request, the prefix of schemas, and the name with the
  revision the entry has; without scheme and host no location is left.\<close>

theorem yang_library_locations:
  assumes "replaceYangLibraryLocations ctx schemeAndHost urlPrefix tree = Inr tree'"
  shows "list_all (forall_nodes (relocated ctx schemeAndHost urlPrefix)) tree'"
  by (rule yang_library_relocated [OF assms])

definition ex_lib_ctx :: "nat ly_context" where
  "ex_lib_ctx = ex_ctx\<lparr>ly_path := (\<lambda>n. if n = 0 then ''/ietf-yang-library:yang-library/module-set/module'' else if n = 5 then ''/ietf-restconf-monitoring:restconf-state/streams/stream/access'' else []),
     ly_nodeType := (\<lambda>n. if n = 0 \<or> n = 5 then List_Node else Leaf),
     ly_name := (\<lambda>n. if n = 0 then ''module'' else if n = 1 then ''name'' else if n = 2 then ''location'' else if n = 5 then ''access'' else ''revision''),
     ly_childInstantiables := (\<lambda>n. [1, 2, 3])\<rparr>"

definition ex_library :: "nat dnode list" where
  "ex_library = [DNode 0 False [] [] [leaf 1 ''ietf-x'', leaf 3 ''2024-01-01'', leaf 2 ''file:///old'']]"

theorem yang_library_locations_witness:
  "list_all (forall_nodes (relocated ex_lib_ctx (Some ''https://h'') ''/yang/''))
     [DNode 0 False [] [] [leaf 1 ''ietf-x'', leaf 3 ''2024-01-01'', leaf 2 ''https://h/yang/ietf-x@2024-01-01'']]"
proof -
  have "replaceYangLibraryLocations ex_lib_ctx (Some ''https://h'') ''/yang/'' ex_library =
      Inr [DNode 0 False [] [] [leaf 1 ''ietf-x'', leaf 3 ''2024-01-01'', leaf 2 ''https://h/yang/ietf-x@2024-01-01'']]"
    by code_simp
  then show ?thesis by (rule yang_library_locations)
qed

text \<open>A request whose scheme and host are unknown: the removal of stream locations succeeds exactly if every access entry in the
  data has its location; otherwise, for instance when \<open>fields\<close> or \<open>depth\<close> left it out, an empty optional is dereferenced.\<close>

theorem stream_location_required:
  "case replaceStreamLocations ctx None tree of
     Inr _ \<Rightarrow> list_all (forall_nodes (has_location ctx)) tree
   | Inl e \<Rightarrow> \<not> list_all (forall_nodes (has_location ctx)) tree \<and> e = Undefined ''replaceStreamLocations''"
  using stream_locations_dropped [of ctx tree] by (cases "replaceStreamLocations ctx None tree") auto





section \<open>Events\<close>

text \<open>C39. The loop that removes attributes from a changed node returns only if all of them are to be removed: with any other
  attribute the iterator stays where it is and the loop runs forever.\<close>

theorem attribute_loop_exact:
  "removeEmptyLoop meta 0 = (if list_all isEmptyOperationAndOrigin meta then Some [] else None)"
proof (cases "removeEmptyLoop meta 0")
  case None
  then show ?thesis using removeEmptyLoop_all [of 0 meta] by auto
next
  case (Some r)
  then have "list_all isEmptyOperationAndOrigin meta" using removeEmptyLoop_Some [of meta 0 r] by simp
  then show ?thesis using removeEmptyLoop_all [of 0 meta] by simp
qed

text \<open>If the module data can be read, a change event signals each changed tree once: the roots of the changed nodes without
  repetition, with the attributes stripped as configured; it returns exactly if the stripping of every one returns.\<close>

theorem change_signals_roots:
  "onChange attrBehavior (Inr (Some d)) forest changes =
     map_option Inr (mapO (\<lambda>i. stripAttributes attrBehavior (forest ! i)) (newRoots (length forest) {} changes)) \<and>
   distinct (newRoots (length forest) {} changes) \<and>
   set (newRoots (length forest) {} changes) = {i. i < length forest \<and> (\<exists>p \<in> set changes. p \<noteq> [] \<and> hd p = i)}"
  using newRoots_distinct [of "length forest" "{}" changes] by (simp add: onChange_def onChangeLoop_roots)

text \<open>The constructor of \<open>AllEvents\<close> ends with a single subscription: to the last module that can be subscribed, since each
  assignment replaces the subscription made before.\<close>

theorem all_events_last_module:
  assumes "\<And>m e. m \<in> set modules \<Longrightarrow> srSubscribe m = Inl e \<Longrightarrow> \<exists>w. e = Sysrepo_Error NotFound w"
  shows "AllEvents srSubscribe modules =
    Inr (case filter (\<lambda>m. m \<noteq> ''sysrepo'' \<and> srSubscribe m = Inr ()) modules of [] \<Rightarrow> None | xs \<Rightarrow> Some (last xs))"
  unfolding AllEvents_def by (rule foldE_listenModule [OF assms])

theorem all_events_last_module_witness:
  "AllEvents (\<lambda>m. if m = ''empty'' then Inl (Sysrepo_Error NotFound []) else Inr ()) [''a'', ''b'', ''empty'', ''sysrepo''] = Inr (Some ''b'')"
proof -
  let ?sub = "\<lambda>m. if m = ''empty'' then Inl (Sysrepo_Error NotFound []) else Inr ()" and ?ms = "[''a'', ''b'', ''empty'', ''sysrepo'']"
  have "AllEvents ?sub ?ms = Inr (case filter (\<lambda>m. m \<noteq> ''sysrepo'' \<and> ?sub m = Inr ()) ?ms of [] \<Rightarrow> None | xs \<Rightarrow> Some (last xs))"
    by (rule all_events_last_module) (auto split: if_splits)
  then show ?thesis by simp
qed

end
