(* ===== verification/Live_Streams.thy ===== *)
theory Live_Streams
  imports Notification_Stream Sr_Events Event_Stream_Laws Dynamic_Subscriptions_Laws
begin

text \<open>
  The event streams of a running server together: the telemetry streams that share one signal, the NETCONF streams, and
  the streams of dynamic subscriptions (\<open>DynamicSubscriptionHttpStream\<close> of \<open>restconf/DynamicSubscriptions.cpp\<close>), which
  read the pipe of their subscription; and the shutdown of \<open>restconf/Server.cpp\<close>, which reaches all of them.
  Everything that happens to the server's streams is one event of \<open>hub_step\<close>.
\<close>

section \<open>State\<close>

text \<open>A stream with its callbacks, by the kind of its source; \<open>Subscribed\<close> has the address of its \<open>SubscriptionData\<close>.\<close>

datatype stream_source = Optics | Netconf | Subscribed nat

text \<open>\<open>hs_waiting\<close>: the \<open>async_wait\<close> on the pipe is pending. \<open>hs_out\<close>: the bytes handed to nghttp2 so far.\<close>

record http_stream =
  hs_source :: stream_source
  hs_stream :: event_stream
  hs_waiting :: bool
  hs_out :: string

text \<open>The pipe sysrepo writes the notifications of a subscription to, as the documents the code makes of them.\<close>

record notification_pipe =
  np_events :: "string list"
  np_closed :: bool

definition poll_pipe :: "notification_pipe \<Rightarrow> int \<times> 16 word" where
  "poll_pipe p =
     (let revents = (if np_events p \<noteq> [] then POLLIN else 0) OR (if np_closed p then POLLHUP else 0)
      in (if revents = 0 then 0 else 1, revents))"

record 'u hub =
  hub_subs :: "'u dyn_subs"
  hub_streams :: "http_stream list"
  hub_pipes :: "nat \<Rightarrow> notification_pipe"
  hub_optics :: optical_events

definition hub_init :: "optical_events \<Rightarrow> 'u hub" where
  "hub_init oe = \<lparr>hub_subs = DynamicSubscriptions_init, hub_streams = [], hub_pipes = (\<lambda>_. \<lparr>np_events = [], np_closed = False\<rparr>), hub_optics = oe\<rparr>"

text \<open>What the callbacks take from elsewhere: the NACM recovery user, sysrepo and the conversions of libyang and boost.\<close>

record 'u live_env =
  le_recoveryUser :: string
  le_subscribe :: subscribe_call
  le_uuid_string :: "'u \<Rightarrow> string"
  le_streamUri :: string
  le_sr_terminate :: "nat \<Rightarrow> exn + unit"
  le_yangTime :: "nat \<Rightarrow> string"
  le_getData :: "string \<Rightarrow> exn + string option"

section \<open>Operations\<close>

text \<open>An event of the base class, with the bytes it hands over.\<close>

definition deliver :: "stream_event \<Rightarrow> http_stream \<Rightarrow> exn + http_stream" where
  "deliver e hs = bindE (stream_step e (hs_stream hs)) (\<lambda>(s, r). Inr (hs\<lparr>hs_stream := s, hs_out := hs_out hs @ sent r\<rparr>))"

definition onStream :: "nat \<Rightarrow> (http_stream \<Rightarrow> exn + http_stream) \<Rightarrow> 'u hub \<Rightarrow> exn + 'u hub" where
  "onStream i f h = (if i < length (hub_streams h)
     then bindE (f (hub_streams h ! i)) (\<lambda>hs. Inr (h\<lparr>hub_streams := (hub_streams h)[i := hs]\<rparr>))
     else Inr h)"

text \<open>\<open>create\<close> of the stream classes: construction and \<open>activate\<close>.\<close>

definition addStream :: "stream_source \<Rightarrow> bool \<Rightarrow> string option \<Rightarrow> 'u hub \<Rightarrow> exn + 'u hub" where
  "addStream src waiting initialEvent h = bindE (create initialEvent) (\<lambda>s.
     Inr (h\<lparr>hub_streams := hub_streams h @ [\<lparr>hs_source = src, hs_stream = s, hs_waiting = waiting, hs_out = []\<rparr>]\<rparr>))"

definition telemetryRoute :: "'u live_env \<Rightarrow> nat \<Rightarrow> 'u hub \<Rightarrow> exn + 'u hub" where
  "telemetryRoute E now h = addStream Optics False (Some (as_restconf_push_update (le_yangTime E) (currentData (hub_optics h)) now)) h"

text \<open>The route of a subscription: \<open>clientConnected\<close> marks the object, and the wait on the pipe starts.\<close>

definition DynamicSubscriptionHttpStream_create :: "'u live_env \<Rightarrow> 'u \<Rightarrow> string option \<Rightarrow> 'u hub \<Rightarrow> exn + 'u hub" where
  "DynamicSubscriptionHttpStream_create E uid user h =
     bindE (connect_stream (le_recoveryUser E) uid user (hub_subs h)) (\<lambda>(a, s).
       addStream (Subscribed a) True None (h\<lparr>hub_subs := s\<rparr>))"

text \<open>The signal \<open>opticsChange\<close> calls the slots of all telemetry streams.\<close>

fun signalOptics :: "string \<Rightarrow> http_stream list \<Rightarrow> exn + http_stream list" where
  "signalOptics m [] = Inr []"
| "signalOptics m (hs # hss) =
     bindE (if hs_source hs = Optics then deliver (Message m) hs else Inr hs) (\<lambda>hs'.
     bindE (signalOptics m hss) (\<lambda>hss'. Inr (hs' # hss')))"

definition opticsChanged :: "'u live_env \<Rightarrow> string \<Rightarrow> nat \<Rightarrow> 'u hub \<Rightarrow> exn + 'u hub" where
  "opticsChanged E module now h =
     bindE (optical_onChange (le_getData E) module (hub_optics h)) (\<lambda>(oe, content).
     bindE (signalOptics (as_restconf_push_update (le_yangTime E) content now) (hub_streams h)) (\<lambda>hss.
       Inr (h\<lparr>hub_streams := hss, hub_optics := oe\<rparr>)))"

text \<open>
  The handler of \<open>awaitNextNotification\<close>: at most \<open>MAX_EVENTS - 1\<close> notifications go from the pipe to the signal of
  the stream, then it waits again; when the wait was cancelled or the pipe is closed and empty, it does not.
\<close>

definition awaitNextNotification :: "bool \<Rightarrow> notification_pipe \<Rightarrow> http_stream \<Rightarrow> exn + http_stream \<times> notification_pipe" where
  "awaitNextNotification aborted p hs =
     (if aborted \<or> pipeIsClosedAndNoData (poll_pipe p) then Inr (hs\<lparr>hs_waiting := False\<rparr>, p)
      else (let (signalled, rest) = process_notifications 0 (np_events p) in
        bindE (foldE (\<lambda>hs m. deliver (Message m) hs) hs signalled) (\<lambda>hs. Inr (hs, p\<lparr>np_events := rest\<rparr>))))"

definition waitCompleted :: "nat \<Rightarrow> bool \<Rightarrow> 'u hub \<Rightarrow> exn + 'u hub" where
  "waitCompleted i aborted h = (case hs_source (hub_streams h ! i) of
      Subscribed a \<Rightarrow> bindE (awaitNextNotification aborted (hub_pipes h a) (hub_streams h ! i)) (\<lambda>(hs, p).
        Inr (h\<lparr>hub_streams := (hub_streams h)[i := hs], hub_pipes := (hub_pipes h)(a := p)\<rparr>))
    | _ \<Rightarrow> Inr h)"

text \<open>
  The response is closed: the handler of the base class, then \<open>onClientDisconnectedCb\<close>. nghttp2 drops the response
  with its handlers, the last references to the stream, whose destructor cancels the wait.
\<close>

definition responseClosed :: "nat \<Rightarrow> 'u hub \<Rightarrow> exn + 'u hub" where
  "responseClosed i h = bindE (onStream i (\<lambda>hs. deliver Close (hs\<lparr>hs_waiting := False\<rparr>)) h) (\<lambda>h.
     Inr (case hs_source (hub_streams h ! i) of
        Subscribed a \<Rightarrow> h\<lparr>hub_subs := disconnect_stream a (hub_subs h)\<rparr>
      | _ \<Rightarrow> h))"

text \<open>The slot of the termination signal: \<open>onTerminationCb\<close>, then the handler of the base class.\<close>

definition terminationSlot :: "http_stream \<Rightarrow> 'u dyn_subs \<Rightarrow> exn + http_stream \<times> 'u dyn_subs" where
  "terminationSlot hs subs =
     bindE (deliver Terminate hs) (\<lambda>hs'.
       Inr (hs', case hs_source hs of
         Subscribed a \<Rightarrow> if es_terminateSub (hs_stream hs) then stream_terminated a subs else subs
       | _ \<Rightarrow> subs))"

fun shutdownRequested :: "http_stream list \<Rightarrow> 'u dyn_subs \<Rightarrow> exn + http_stream list \<times> 'u dyn_subs" where
  "shutdownRequested [] subs = Inr ([], subs)"
| "shutdownRequested (hs # hss) subs =
     bindE (terminationSlot hs subs) (\<lambda>(hs', subs').
     bindE (shutdownRequested hss subs') (\<lambda>(hss', subs''). Inr (hs' # hss', subs'')))"

text \<open>\<open>Server::stop\<close>, without the task it posts for the HTTP server.\<close>

definition Server_stop :: "'u hub \<Rightarrow> exn + 'u hub" where
  "Server_stop h = bindE (shutdownRequested (hub_streams h) (hub_subs h)) (\<lambda>(hss, subs).
     Inr (h\<lparr>hub_streams := hss, hub_subs := stop_all subs\<rparr>))"

section \<open>Events\<close>

datatype 'u hub_event =
    Connect_Optics nat
  | Connect_Netconf
  | Connect_Subscribed 'u "string option"
  | Optics_Change string nat
  | Netconf_Notification nat notification_type string
  | Notification_Written nat string
  | Pipe_Closed nat
  | Wait_Completed nat bool
  | Stream_Callback nat stream_event
  | Response_Closed nat
  | Establish "string option" 'u "string option" data_format establish_input establish_output
  | Delete "string option" bool "nat option" string
  | Timer_Expired nat
  | Stop

text \<open>
  What can happen when: the base class is called back by its timer, by nghttp2 and by posted tasks; a response is closed once; a
  closed pipe is not written to.
\<close>

definition hub_enabled :: "'u hub_event \<Rightarrow> 'u hub \<Rightarrow> bool" where
  "hub_enabled e h = (case e of
      Netconf_Notification i _ _ \<Rightarrow> i < length (hub_streams h) \<and> hs_source (hub_streams h ! i) = Netconf
    | Notification_Written a _ \<Rightarrow> \<not> np_closed (hub_pipes h a)
    | Wait_Completed i _ \<Rightarrow> i < length (hub_streams h) \<and> hs_waiting (hub_streams h ! i)
    | Stream_Callback i c \<Rightarrow> i < length (hub_streams h) \<and> event_enabled c (hs_stream (hub_streams h ! i)) \<and>
        (case c of Ping _ \<Rightarrow> True | Process _ \<Rightarrow> True | Run_Task \<Rightarrow> True | _ \<Rightarrow> False)
    | Response_Closed i \<Rightarrow> i < length (hub_streams h) \<and> es_res_alive (hs_stream (hub_streams h ! i))
    | _ \<Rightarrow> True)"

definition hub_step :: "'u::linorder live_env \<Rightarrow> 'u hub_event \<Rightarrow> 'u hub \<Rightarrow> exn + 'u hub" where
  "hub_step E e h = (case e of
      Connect_Optics now \<Rightarrow> telemetryRoute E now h
    | Connect_Netconf \<Rightarrow> addStream Netconf False None h
    | Connect_Subscribed uid user \<Rightarrow> DynamicSubscriptionHttpStream_create E uid user h
    | Optics_Change module now \<Rightarrow> opticsChanged E module now h
    | Netconf_Notification i type m \<Rightarrow> onStream i (\<lambda>hs. foldE (\<lambda>hs m. deliver (Message m) hs) hs (notifCb type m)) h
    | Notification_Written a m \<Rightarrow> Inr (h\<lparr>hub_pipes := (hub_pipes h)(a := (hub_pipes h a)\<lparr>np_events := np_events (hub_pipes h a) @ [m]\<rparr>)\<rparr>)
    | Pipe_Closed a \<Rightarrow> Inr (h\<lparr>hub_pipes := (hub_pipes h)(a := (hub_pipes h a)\<lparr>np_closed := True\<rparr>)\<rparr>)
    | Wait_Completed i aborted \<Rightarrow> waitCompleted i aborted h
    | Stream_Callback i c \<Rightarrow> onStream i (deliver c) h
    | Response_Closed i \<Rightarrow> responseClosed i h
    | Establish user uid schemeAndHost enc inp out \<Rightarrow>
        bindE (establishSubscription (le_subscribe E) (le_uuid_string E) (le_streamUri E) user uid schemeAndHost enc inp out (hub_subs h))
          (\<lambda>(s, _). Inr (h\<lparr>hub_subs := s\<rparr>))
    | Delete user isKill subId path \<Rightarrow>
        bindE (deleteSubscription (le_recoveryUser E) (le_sr_terminate E) user isKill subId path (hub_subs h)) (\<lambda>s. Inr (h\<lparr>hub_subs := s\<rparr>))
    | Timer_Expired a \<Rightarrow> Inr (h\<lparr>hub_subs := timer_expired a (hub_subs h)\<rparr>)
    | Stop \<Rightarrow> Server_stop h)"

text \<open>Runs of the server from its start; an operation that throws leaves the streams as they were.\<close>

inductive hub_run :: "'u::linorder live_env \<Rightarrow> 'u hub_event list \<Rightarrow> 'u hub \<Rightarrow> bool" for E where
  start: "hub_run E [] (hub_init oe)"
| event: "hub_run E tr h \<Longrightarrow> hub_enabled e h \<Longrightarrow> hub_step E e h = Inr h' \<Longrightarrow> hub_run E (tr @ [e]) h'"

end
