(* ===== verification/Live_Streams_Laws.thy ===== *)
theory Live_Streams_Laws
  imports Live_Streams
begin

text \<open>
  The streams of a server as a message service: the abstract service has, for every stream, the messages its client is
  given and whether it still gets more, and knows nothing of queues, chunks, pings and posted tasks. Each event
  of the server has the same effect on the service, errors included.
\<close>

section \<open>Refinement of event systems\<close>

text \<open>A detailed system whose events do to an abstraction what a specification says, as long as an invariant holds.\<close>

locale event_refinement =
  fixes step :: "'e \<Rightarrow> 'c \<Rightarrow> 'x + 'c"
    and spec :: "'e \<Rightarrow> 'a \<Rightarrow> 'x + 'a"
    and enabled :: "'e \<Rightarrow> 'c \<Rightarrow> bool"
    and inv :: "'c \<Rightarrow> bool"
    and abs :: "'c \<Rightarrow> 'a"
  assumes step_inv: "inv c \<Longrightarrow> enabled e c \<Longrightarrow> step e c = Inr c' \<Longrightarrow> inv c'"
    and step_spec: "inv c \<Longrightarrow> enabled e c \<Longrightarrow> map_sum id abs (step e c) = spec e (abs c)"
begin

inductive run :: "'c \<Rightarrow> 'e list \<Rightarrow> 'c \<Rightarrow> bool" for c where
  Nil: "run c [] c"
| snoc: "run c es d \<Longrightarrow> enabled e d \<Longrightarrow> step e d = Inr d' \<Longrightarrow> run c (es @ [e]) d'"

lemma run_inv: "run c es d \<Longrightarrow> inv c \<Longrightarrow> inv d"
  by (induction rule: run.induct) (auto intro: step_inv)

text \<open>Every run of the system is a run of the specification on the abstractions.\<close>

lemma run_spec: "run c es d \<Longrightarrow> inv c \<Longrightarrow> foldE (\<lambda>a e. spec e a) (abs c) es = Inr (abs d)"
proof (induction rule: run.induct)
  case (snoc es d e d')
  have "spec e (abs d) = map_sum id abs (step e d)" using step_spec [OF run_inv] snoc by metis
  then show ?case using snoc by (simp add: foldE_append)
qed simp

text \<open>The system throws exactly when the specification does.\<close>

lemma step_throws: "inv c \<Longrightarrow> enabled e c \<Longrightarrow> step e c = Inl x \<longleftrightarrow> spec e (abs c) = Inl x"
  by (subst step_spec [symmetric]) (auto split: sum.splits simp: map_sum_def)

end

section \<open>The service\<close>

datatype view_state = Live | Ending | Gone

record stream_view =
  sv_source :: stream_source
  sv_messages :: "string list"
  sv_state :: view_state

record 'u service =
  sp_subs :: "'u dyn_subs"
  sp_views :: "stream_view list"
  sp_pipes :: "nat \<Rightarrow> notification_pipe"
  sp_optics :: optical_events

definition view_of :: "stream_state \<Rightarrow> view_state" where
  "view_of s = (case s of Closed \<Rightarrow> Gone | WantToClose \<Rightarrow> Ending | _ \<Rightarrow> Live)"

text \<open>The messages of a stream are read off its bytes, sent and queued, the way a client does it.\<close>

definition stream_view_of :: "http_stream \<Rightarrow> stream_view" where
  "stream_view_of hs = \<lparr>sv_source = hs_source hs, sv_messages = sse_messages (hs_out hs @ concat (es_queue (hs_stream hs))),
     sv_state = view_of (es_state (hs_stream hs))\<rparr>"

definition service_of :: "'u hub \<Rightarrow> 'u service" where
  "service_of h = \<lparr>sp_subs = hub_subs h, sp_views = map stream_view_of (hub_streams h), sp_pipes = hub_pipes h, sp_optics = hub_optics h\<rparr>"

definition receive :: "stream_view \<Rightarrow> string \<Rightarrow> stream_view" where
  "receive v m = (if sv_state v = Live then v\<lparr>sv_messages := sv_messages v @ [strip_final_newline m]\<rparr> else v)"

definition end_view :: "stream_view \<Rightarrow> stream_view" where
  "end_view v = (if sv_state v = Live then v\<lparr>sv_state := Ending\<rparr> else v)"

definition open_view :: "stream_source \<Rightarrow> string list \<Rightarrow> 'u service \<Rightarrow> 'u service" where
  "open_view src ms sp = sp\<lparr>sp_views := sp_views sp @ [\<lparr>sv_source = src, sv_messages = ms, sv_state = Live\<rparr>]\<rparr>"

definition live_addr :: "stream_view \<Rightarrow> nat option" where
  "live_addr v = (case sv_source v of Subscribed a \<Rightarrow> if sv_state v = Gone then None else Some a | _ \<Rightarrow> None)"

text \<open>A wake-up moves notifications from the pipe of the subscription to its client.\<close>

definition service_wait :: "nat \<Rightarrow> bool \<Rightarrow> 'u service \<Rightarrow> 'u service" where
  "service_wait i aborted sp = (case sv_source (sp_views sp ! i) of
      Subscribed a \<Rightarrow>
        if aborted then sp
        else sp\<lparr>sp_views := (sp_views sp)[i := foldl receive (sp_views sp ! i) (take 49 (np_events (sp_pipes sp a)))],
                sp_pipes := (sp_pipes sp)(a := (sp_pipes sp a)\<lparr>np_events := drop 49 (np_events (sp_pipes sp a))\<rparr>)\<rparr>
    | _ \<Rightarrow> sp)"

definition service_close :: "nat \<Rightarrow> 'u service \<Rightarrow> 'u service" where
  "service_close i sp = sp\<lparr>sp_views := (sp_views sp)[i := (sp_views sp ! i)\<lparr>sv_state := Gone\<rparr>],
     sp_subs := (case sv_source (sp_views sp ! i) of Subscribed a \<Rightarrow> disconnect_stream a (sp_subs sp) | _ \<Rightarrow> sp_subs sp)\<rparr>"

definition service_stop :: "'u service \<Rightarrow> 'u service" where
  "service_stop sp = sp\<lparr>sp_views := map end_view (sp_views sp),
     sp_subs := stop_all (fold stream_terminated (List.map_filter live_addr (sp_views sp)) (sp_subs sp))\<rparr>"

definition service_step :: "'u::linorder live_env \<Rightarrow> 'u hub_event \<Rightarrow> 'u service \<Rightarrow> exn + 'u service" where
  "service_step E e sp = (case e of
      Connect_Optics now \<Rightarrow>
        Inr (open_view Optics [strip_final_newline (as_restconf_push_update (le_yangTime E) (currentData (sp_optics sp)) now)] sp)
    | Connect_Netconf \<Rightarrow> Inr (open_view Netconf [] sp)
    | Connect_Subscribed uid user \<Rightarrow> bindE (connect_stream (le_recoveryUser E) uid user (sp_subs sp)) (\<lambda>(a, s).
        Inr (open_view (Subscribed a) [] (sp\<lparr>sp_subs := s\<rparr>)))
    | Optics_Change module now \<Rightarrow> bindE (optical_onChange (le_getData E) module (sp_optics sp)) (\<lambda>(oe, content).
        Inr (sp\<lparr>sp_views := map (\<lambda>v. if sv_source v = Optics then receive v (as_restconf_push_update (le_yangTime E) content now) else v) (sp_views sp),
                sp_optics := oe\<rparr>))
    | Netconf_Notification i type m \<Rightarrow> Inr (sp\<lparr>sp_views := (sp_views sp)[i := foldl receive (sp_views sp ! i) (notifCb type m)]\<rparr>)
    | Notification_Written a m \<Rightarrow> Inr (sp\<lparr>sp_pipes := (sp_pipes sp)(a := (sp_pipes sp a)\<lparr>np_events := np_events (sp_pipes sp a) @ [m]\<rparr>)\<rparr>)
    | Pipe_Closed a \<Rightarrow> Inr (sp\<lparr>sp_pipes := (sp_pipes sp)(a := (sp_pipes sp a)\<lparr>np_closed := True\<rparr>)\<rparr>)
    | Wait_Completed i aborted \<Rightarrow> Inr (service_wait i aborted sp)
    | Stream_Callback i c \<Rightarrow> Inr sp
    | Response_Closed i \<Rightarrow> Inr (service_close i sp)
    | Establish user uid schemeAndHost enc inp out \<Rightarrow>
        bindE (establishSubscription (le_subscribe E) (le_uuid_string E) (le_streamUri E) user uid schemeAndHost enc inp out (sp_subs sp))
          (\<lambda>(s, _). Inr (sp\<lparr>sp_subs := s\<rparr>))
    | Delete user isKill subId path \<Rightarrow>
        bindE (deleteSubscription (le_recoveryUser E) (le_sr_terminate E) user isKill subId path (sp_subs sp)) (\<lambda>s. Inr (sp\<lparr>sp_subs := s\<rparr>))
    | Timer_Expired a \<Rightarrow> Inr (sp\<lparr>sp_subs := timer_expired a (sp_subs sp)\<rparr>)
    | Stop \<Rightarrow> Inr (service_stop sp))"

section \<open>One stream\<close>

definition stream_ok :: "http_stream \<Rightarrow> bool" where
  "stream_ok hs \<longleftrightarrow> (\<exists>evs. stream_inv (hs_stream hs) (wire evs) (hs_out hs)) \<and>
     (es_state (hs_stream hs) \<noteq> Closed \<longrightarrow> es_eventSub (hs_stream hs) \<and> es_terminateSub (hs_stream hs)) \<and>
     (hs_waiting hs \<longrightarrow> es_state (hs_stream hs) \<noteq> Closed)"

lemma wire_append: "wire (evs @ evs') = wire evs @ wire evs'"
  by (simp add: wire_def)

lemma wire_simps: "wire [] = []" "wire [Some m] = format_event ''data'' m" "wire [None] = format_event [] [CHR 0x0A]"
  by (simp_all add: wire_def)

text \<open>The effect of an event on what the client is given.\<close>

definition event_view :: "stream_event \<Rightarrow> stream_view \<Rightarrow> stream_view" where
  "event_view e v = (case e of Message m \<Rightarrow> receive v m | Terminate \<Rightarrow> end_view v | Close \<Rightarrow> v\<lparr>sv_state := Gone\<rparr> | _ \<Rightarrow> v)"

definition event_items :: "stream_event \<Rightarrow> event_stream \<Rightarrow> string option list" where
  "event_items e s = (case e of
      Message m \<Rightarrow> if es_eventSub s \<and> es_state s \<noteq> Closed \<and> es_state s \<noteq> WantToClose then [Some m] else []
    | Ping aborted \<Rightarrow> if \<not> aborted \<and> es_state s \<noteq> Closed \<and> es_state s \<noteq> WantToClose then [None] else []
    | _ \<Rightarrow> [])"

lemma accepted_wire: "accepted e s = wire (event_items e s)"
  by (cases e) (auto simp: accepted_def event_items_def wire_simps)

lemma send_chunk_fields: "send_chunk n s = Inr (s', out) \<Longrightarrow>
    es_state s' \<in> {HasEvents, WaitingForEvents} \<and> es_eventSub s' = es_eventSub s \<and> es_terminateSub s' = es_terminateSub s"
  by (auto simp: send_chunk_def Let_def split: if_splits prod.splits)

text \<open>Only closing ends the connections to the signals, and only termination and closing change what the client may expect.\<close>

lemma stream_step_state:
  assumes "stream_step e s = Inr (s', r)" and "es_state s \<noteq> Closed \<longrightarrow> es_eventSub s \<and> es_terminateSub s"
  shows "view_of (es_state s') = sv_state (event_view e \<lparr>sv_source = src, sv_messages = ms, sv_state = view_of (es_state s)\<rparr>) \<and>
    (es_state s' \<noteq> Closed \<longrightarrow> es_eventSub s' \<and> es_terminateSub s')"
  using assms
  by (cases e; cases "es_state s")
    (auto simp: stream_step_def event_view_def receive_def end_view_def view_of_def enqueue_def on_ping_def process_def on_termination_def
      post_task_def use_res_def on_close_def start_ping_def bindE_eq_Inr_iff Let_def dest!: send_chunk_fields split: if_splits list.splits)

lemma deliver_ok:
  assumes ok: "stream_ok hs" and en: "event_enabled e (hs_stream hs)" and w: "e = Close \<Longrightarrow> \<not> hs_waiting hs"
  obtains hs' where "deliver e hs = Inr hs'" "stream_ok hs'" "stream_view_of hs' = event_view e (stream_view_of hs)"
    "hs_source hs' = hs_source hs"
proof -
  let ?s = "hs_stream hs"
  obtain evs where evs: "stream_inv ?s (wire evs) (hs_out hs)" using ok by (auto simp: stream_ok_def)
  have sub: "es_state ?s \<noteq> Closed \<longrightarrow> es_eventSub ?s \<and> es_terminateSub ?s" using ok by (simp add: stream_ok_def)
  let ?evs = "evs @ event_items e ?s"
  obtain s' r where st: "stream_step e ?s = Inr (s', r)" and inv: "stream_inv s' (wire ?evs) (hs_out hs @ sent r)"
    using stream_step_inv [OF evs en] by (auto simp: accepted_wire wire_append)
  note state = stream_step_state [OF st sub]
  let ?h = "hs\<lparr>hs_stream := s', hs_out := hs_out hs @ sent r\<rparr>"
  have d: "deliver e hs = Inr ?h" by (simp add: deliver_def st)
  have bytes: "hs_out hs @ concat (es_queue ?s) = wire evs" "(hs_out hs @ sent r) @ concat (es_queue s') = wire ?evs"
    using evs inv by (simp_all add: stream_inv_def)
  have "stream_view_of ?h = event_view e (stream_view_of hs)"
  proof -
    have "sv_messages (stream_view_of ?h) = sv_messages (event_view e (stream_view_of hs))"
      using bytes sub
      by (cases e; cases "es_state ?s")
        (auto simp: stream_view_of_def event_view_def receive_def end_view_def view_of_def sse_messages_wire event_items_def map_filter_def)
    moreover have "sv_source (event_view e v) = sv_source v" for v
      by (simp add: event_view_def receive_def end_view_def split: stream_event.split)
    moreover have "sv_state (stream_view_of ?h) = sv_state (event_view e (stream_view_of hs))"
      using state unfolding stream_view_of_def by simp
    ultimately show ?thesis by (simp add: stream_view_of_def)
  qed
  moreover have "stream_ok ?h"
  proof -
    have "hs_waiting hs \<longrightarrow> es_state s' \<noteq> Closed"
      using state ok w by (cases e; cases "es_state ?s"; cases "es_state s'")
        (auto simp: stream_ok_def event_view_def receive_def end_view_def view_of_def)
    then show ?thesis using inv state by (auto simp: stream_ok_def)
  qed
  ultimately show thesis using that [OF d] by simp
qed

section \<open>All streams\<close>

definition hub_inv :: "'u hub \<Rightarrow> bool" where
  "hub_inv h \<longleftrightarrow> (\<forall>hs \<in> set (hub_streams h). stream_ok hs)"

lemma hub_invD: "hub_inv h \<Longrightarrow> i < length (hub_streams h) \<Longrightarrow> stream_ok (hub_streams h ! i)"
  by (simp add: hub_inv_def)

lemma hub_inv_update: "hub_inv h \<Longrightarrow> stream_ok hs \<Longrightarrow> hub_inv (h\<lparr>hub_streams := (hub_streams h)[i := hs]\<rparr>)"
  by (auto simp: hub_inv_def dest!: set_update_subset_insert [THEN subsetD])

lemma hub_inv_fields [simp]: "hub_inv (h\<lparr>hub_subs := s\<rparr>) = hub_inv h" "hub_inv (h\<lparr>hub_pipes := p\<rparr>) = hub_inv h"
  "hub_inv (h\<lparr>hub_optics := oe\<rparr>) = hub_inv h"
  by (simp_all add: hub_inv_def)

lemma create_view:
  obtains s where "create i = Inr s" "stream_ok \<lparr>hs_source = src, hs_stream = s, hs_waiting = w, hs_out = []\<rparr>"
    "stream_view_of \<lparr>hs_source = src, hs_stream = s, hs_waiting = w, hs_out = []\<rparr> =
       \<lparr>sv_source = src, sv_messages = (case i of None \<Rightarrow> [] | Some m \<Rightarrow> [strip_final_newline m]), sv_state = Live\<rparr>"
proof -
  let ?evs = "case i of None \<Rightarrow> [] | Some m \<Rightarrow> [Some m]"
  obtain s where s: "create i = Inr s" and inv: "stream_inv s (wire ?evs) []"
    using create_inv [of i] by (auto simp: wire_simps split: option.splits)
  have f: "es_eventSub s" "es_terminateSub s" "es_state s \<in> {HasEvents, WaitingForEvents}"
    using s by (cases i; auto simp: create_def EventStream_def activate_def use_res_def enqueue_def post_task_def start_ping_def Let_def)+
  have q: "concat (es_queue s) = wire ?evs" using inv by (simp add: stream_inv_def)
  show thesis
  proof (rule that [OF s])
    show "stream_ok \<lparr>hs_source = src, hs_stream = s, hs_waiting = w, hs_out = []\<rparr>"
      using inv f by (auto simp: stream_ok_def)
    show "stream_view_of \<lparr>hs_source = src, hs_stream = s, hs_waiting = w, hs_out = []\<rparr> =
       \<lparr>sv_source = src, sv_messages = (case i of None \<Rightarrow> [] | Some m \<Rightarrow> [strip_final_newline m]), sv_state = Live\<rparr>"
      using f(3) by (auto simp: stream_view_of_def q sse_messages_wire view_of_def map_filter_def split: option.splits)
  qed
qed

lemma addStream_spec:
  assumes "hub_inv h"
  obtains h' where "addStream src w i h = Inr h'" "hub_inv h'"
    "service_of h' = open_view src (case i of None \<Rightarrow> [] | Some m \<Rightarrow> [strip_final_newline m]) (service_of h)"
proof -
  obtain s where s: "create i = Inr s" "stream_ok \<lparr>hs_source = src, hs_stream = s, hs_waiting = w, hs_out = []\<rparr>"
    "stream_view_of \<lparr>hs_source = src, hs_stream = s, hs_waiting = w, hs_out = []\<rparr> =
       \<lparr>sv_source = src, sv_messages = (case i of None \<Rightarrow> [] | Some m \<Rightarrow> [strip_final_newline m]), sv_state = Live\<rparr>"
    by (rule create_view)
  let ?h = "h\<lparr>hub_streams := hub_streams h @ [\<lparr>hs_source = src, hs_stream = s, hs_waiting = w, hs_out = []\<rparr>]\<rparr>"
  have "hub_inv ?h" using assms s(2) by (simp add: hub_inv_def)
  then show thesis using that [of ?h] s by (simp add: addStream_def service_of_def open_view_def)
qed

lemma deliver_messages:
  assumes "stream_ok hs"
  obtains hs' where "foldE (\<lambda>hs m. deliver (Message m) hs) hs ms = Inr hs'" "stream_ok hs'"
    "stream_view_of hs' = foldl receive (stream_view_of hs) ms" "hs_source hs' = hs_source hs"
  using assms
proof (induction ms arbitrary: hs thesis)
  case (Cons m ms)
  obtain hs1 where 1: "deliver (Message m) hs = Inr hs1" "stream_ok hs1" "stream_view_of hs1 = receive (stream_view_of hs) m"
      "hs_source hs1 = hs_source hs"
    by (rule deliver_ok [OF Cons.prems(2), of "Message m"]) (auto simp: event_enabled_def event_view_def)
  obtain hs2 where 2: "foldE (\<lambda>hs m. deliver (Message m) hs) hs1 ms = Inr hs2" "stream_ok hs2"
      "stream_view_of hs2 = foldl receive (stream_view_of hs1) ms" "hs_source hs2 = hs_source hs1"
    by (rule Cons.IH [OF _ 1(2)])
  show ?case by (rule Cons.prems(1) [of hs2]) (use 1 2 in simp_all)
qed simp

lemma signalOptics_spec:
  assumes "\<forall>hs \<in> set hss. stream_ok hs"
  obtains hss' where "signalOptics m hss = Inr hss'" "\<forall>hs \<in> set hss'. stream_ok hs"
    "map stream_view_of hss' = map (\<lambda>v. if sv_source v = Optics then receive v m else v) (map stream_view_of hss)"
  using assms
proof (induction hss arbitrary: thesis)
  case (Cons hs hss)
  obtain hs1 where 1: "(if hs_source hs = Optics then deliver (Message m) hs else Inr hs) = Inr hs1" "stream_ok hs1"
      "stream_view_of hs1 = (if hs_source hs = Optics then receive (stream_view_of hs) m else stream_view_of hs)"
  proof (cases "hs_source hs = Optics")
    case True
    then show thesis using that Cons.prems(2)
      by (auto simp: event_enabled_def event_view_def elim!: deliver_ok [of hs "Message m"])
  qed (use that Cons.prems(2) in auto)
  obtain hss1 where 2: "signalOptics m hss = Inr hss1" "\<forall>hs \<in> set hss1. stream_ok hs"
      "map stream_view_of hss1 = map (\<lambda>v. if sv_source v = Optics then receive v m else v) (map stream_view_of hss)"
    using Cons by auto
  show ?case
    by (rule Cons.prems(1) [of "hs1 # hss1"]) (use 1 2 in \<open>auto simp: stream_view_of_def [of hs]\<close>)
qed simp

text \<open>The shutdown signal visits all streams in the order of their connection.\<close>

lemma terminationSlot_spec:
  assumes ok: "stream_ok hs"
  obtains hs' where "terminationSlot hs subs = Inr (hs', fold stream_terminated (List.map_filter live_addr [stream_view_of hs]) subs)"
    "stream_ok hs'" "stream_view_of hs' = end_view (stream_view_of hs)"
proof -
  obtain hs' where h: "deliver Terminate hs = Inr hs'" "stream_ok hs'" "stream_view_of hs' = end_view (stream_view_of hs)"
    by (rule deliver_ok [OF ok, of Terminate]) (auto simp: event_enabled_def event_view_def)
  have "es_terminateSub (hs_stream hs) \<longleftrightarrow> es_state (hs_stream hs) \<noteq> Closed"
    using ok by (auto simp: stream_ok_def stream_inv_def)
  then show thesis using that [of hs'] h
    by (cases "hs_source hs"; cases "es_state (hs_stream hs)")
      (simp_all add: terminationSlot_def live_addr_def stream_view_of_def view_of_def map_filter_simps)
qed

lemma shutdownRequested_spec:
  assumes "\<forall>hs \<in> set hss. stream_ok hs"
  obtains hss' where "shutdownRequested hss subs = Inr (hss', fold stream_terminated (List.map_filter live_addr (map stream_view_of hss)) subs)"
    "\<forall>hs \<in> set hss'. stream_ok hs" "map stream_view_of hss' = map end_view (map stream_view_of hss)"
  using assms
proof (induction hss arbitrary: subs thesis)
  case (Cons hs hss)
  let ?subs = "fold stream_terminated (List.map_filter live_addr [stream_view_of hs]) subs"
  obtain hs1 where 1: "terminationSlot hs subs = Inr (hs1, ?subs)" "stream_ok hs1" "stream_view_of hs1 = end_view (stream_view_of hs)"
    by (rule terminationSlot_spec [of hs subs]) (use Cons.prems(2) in auto)
  obtain hss1 where 2: "shutdownRequested hss ?subs = Inr (hss1, fold stream_terminated (List.map_filter live_addr (map stream_view_of hss)) ?subs)"
      "\<forall>hs \<in> set hss1. stream_ok hs" "map stream_view_of hss1 = map end_view (map stream_view_of hss)"
    using Cons.IH Cons.prems(2) by auto
  show ?case
    by (rule Cons.prems(1) [of "hs1 # hss1"]) (use 1 2 in \<open>auto simp: map_filter_simps split: option.split\<close>)
qed (simp add: map_filter_simps)

text \<open>What \<open>poll\<close> reports of a pipe.\<close>

lemma poll_pipe_iff:
  "pipeHasData (poll_pipe p) \<longleftrightarrow> np_events p \<noteq> []"
  "pipeIsClosedAndNoData (poll_pipe p) \<longleftrightarrow> np_closed p \<and> np_events p = []"
  by (cases "np_closed p"; cases "np_events p"; simp add: pipeHasData_def pipeIsClosedAndNoData_def poll_pipe_def POLLIN_def POLLHUP_def)+

lemma service_of_update:
  "i < length (hub_streams h) \<Longrightarrow>
    service_of (h\<lparr>hub_streams := (hub_streams h)[i := hs]\<rparr>) = (service_of h)\<lparr>sp_views := (sp_views (service_of h))[i := stream_view_of hs]\<rparr>"
  by (simp add: service_of_def map_update)

lemma service_of_fields [simp]:
  "sp_subs (service_of h) = hub_subs h" "sp_pipes (service_of h) = hub_pipes h" "sp_optics (service_of h) = hub_optics h"
  "sp_views (service_of h) = map stream_view_of (hub_streams h)"
  "service_of (h\<lparr>hub_subs := s\<rparr>) = (service_of h)\<lparr>sp_subs := s\<rparr>" "service_of (h\<lparr>hub_pipes := p\<rparr>) = (service_of h)\<lparr>sp_pipes := p\<rparr>"
  by (simp_all add: service_of_def)

lemma stream_view_source [simp]: "sv_source (stream_view_of hs) = hs_source hs"
  by (simp add: stream_view_of_def)

lemma hub_streams_update_same: "i < length (hub_streams h) \<Longrightarrow>
    (service_of h)\<lparr>sp_views := (map stream_view_of (hub_streams h))[i := stream_view_of (hub_streams h ! i)]\<rparr> = service_of h"
  by (simp add: service_of_def map_update [symmetric])

lemma onStream_deliver:
  assumes "hub_inv h" and "i < length (hub_streams h)" and "event_enabled c (hs_stream (hub_streams h ! i))" and "c \<noteq> Close"
  obtains h' where "onStream i (deliver c) h = Inr h'" "hub_inv h'"
    "service_of h' = (service_of h)\<lparr>sp_views := (map stream_view_of (hub_streams h))[i := event_view c (stream_view_of (hub_streams h ! i))]\<rparr>"
proof -
  obtain hs where hs: "deliver c (hub_streams h ! i) = Inr hs" "stream_ok hs"
      "stream_view_of hs = event_view c (stream_view_of (hub_streams h ! i))"
    by (rule deliver_ok [OF hub_invD [OF assms(1,2)] assms(3)]) (use assms(4) in auto)
  then show thesis using that assms(1,2) hub_inv_update [of h hs i] by (auto simp: onStream_def service_of_update)
qed

lemma waitCompleted_spec:
  assumes "hub_inv h" and "i < length (hub_streams h)"
  obtains h' where "waitCompleted i aborted h = Inr h'" "hub_inv h'" "service_of h' = service_wait i aborted (service_of h)"
proof (cases "hs_source (hub_streams h ! i)")
  case (Subscribed a)
  let ?hs = "hub_streams h ! i" and ?p = "hub_pipes h a"
  note ok = hub_invD [OF assms]
  obtain hs' where d: "foldE (\<lambda>hs m. deliver (Message m) hs) ?hs (take 49 (np_events ?p)) = Inr hs'" "stream_ok hs'"
      "stream_view_of hs' = foldl receive (stream_view_of ?hs) (take 49 (np_events ?p))"
    by (rule deliver_messages [OF ok])
  have n: "stream_ok (?hs\<lparr>hs_waiting := False\<rparr>)" "stream_view_of (?hs\<lparr>hs_waiting := False\<rparr>) = stream_view_of ?hs"
    using ok by (simp_all add: stream_ok_def stream_view_of_def)
  have e: "p\<lparr>np_events := []\<rparr> = p" if "np_events p = []" for p :: notification_pipe using that by simp
  show thesis
  proof (cases "aborted \<or> pipeIsClosedAndNoData (poll_pipe ?p)")
    case True
    then show thesis
      using that Subscribed n hub_inv_update [OF assms(1) n(1), of i] assms(2)
      by (auto simp: waitCompleted_def awaitNextNotification_def service_of_update service_wait_def hub_streams_update_same
          poll_pipe_iff e)
  next
    case False
    then show thesis
      using that Subscribed d hub_inv_update [OF assms(1) d(2), of i] assms(2)
      by (auto simp: waitCompleted_def awaitNextNotification_def service_of_update service_wait_def
          process_notifications_take_drop MAX_EVENTS_def)
  qed
qed (use assms that in \<open>auto simp: waitCompleted_def service_wait_def\<close>)

lemma responseClosed_spec:
  assumes "hub_inv h" and "i < length (hub_streams h)" and "es_res_alive (hs_stream (hub_streams h ! i))"
  obtains h' where "responseClosed i h = Inr h'" "hub_inv h'" "service_of h' = service_close i (service_of h)"
proof -
  let ?hs = "(hub_streams h ! i)\<lparr>hs_waiting := False\<rparr>"
  have "stream_ok ?hs" using hub_invD [OF assms(1,2)] by (simp add: stream_ok_def)
  then obtain hs' where d: "deliver Close ?hs = Inr hs'" "stream_ok hs'" "stream_view_of hs' = (stream_view_of ?hs)\<lparr>sv_state := Gone\<rparr>"
      "hs_source hs' = hs_source ?hs"
    by (rule deliver_ok [of _ Close]) (use assms(3) in \<open>auto simp: event_enabled_def event_view_def\<close>)
  then show thesis using that hub_inv_update [OF assms(1) d(2), of i] assms(2)
    by (cases "hs_source (hub_streams h ! i)")
      (auto simp: responseClosed_def onStream_def service_of_update service_close_def stream_view_of_def [of ?hs] stream_view_of_def [of "hub_streams h ! i"])
qed

lemma Server_stop_spec:
  assumes "hub_inv h"
  obtains h' where "Server_stop h = Inr h'" "hub_inv h'" "service_of h' = service_stop (service_of h)"
proof -
  let ?subs = "fold stream_terminated (List.map_filter live_addr (map stream_view_of (hub_streams h))) (hub_subs h)"
  obtain hss where s: "shutdownRequested (hub_streams h) (hub_subs h) = Inr (hss, ?subs)" "\<forall>hs \<in> set hss. stream_ok hs"
      "map stream_view_of hss = map end_view (map stream_view_of (hub_streams h))"
    by (rule shutdownRequested_spec [of "hub_streams h" "hub_subs h"]) (use assms in \<open>simp add: hub_inv_def\<close>)
  then show thesis using that by (auto simp: Server_stop_def hub_inv_def service_of_def service_stop_def)
qed

text \<open>Every event does to the service what the service promises.\<close>

lemma hub_refines:
  assumes inv: "hub_inv h" and en: "hub_enabled e h"
  shows "map_sum id service_of (hub_step E e h) = service_step E e (service_of h) \<and> (\<forall>h'. hub_step E e h = Inr h' \<longrightarrow> hub_inv h')"
proof (cases e)
  case (Connect_Optics now)
  let ?m = "as_restconf_push_update (le_yangTime E) (currentData (hub_optics h)) now"
  obtain h' where "addStream Optics False (Some ?m) h = Inr h'" "hub_inv h'"
      "service_of h' = open_view Optics (case Some ?m of None \<Rightarrow> [] | Some m \<Rightarrow> [strip_final_newline m]) (service_of h)"
    by (rule addStream_spec [OF inv])
  then show ?thesis using Connect_Optics by (simp add: hub_step_def service_step_def telemetryRoute_def)
next
  case Connect_Netconf
  obtain h' where "addStream Netconf False None h = Inr h'" "hub_inv h'"
      "service_of h' = open_view Netconf (case None of None \<Rightarrow> [] | Some m \<Rightarrow> [strip_final_newline m]) (service_of h)"
    by (rule addStream_spec [OF inv])
  then show ?thesis using Connect_Netconf by (simp add: hub_step_def service_step_def)
next
  case (Connect_Subscribed uid user)
  show ?thesis
  proof (cases "connect_stream (le_recoveryUser E) uid user (hub_subs h)")
    case (Inr r)
    obtain a s where r: "r = (a, s)" by (cases r)
    obtain h' where "addStream (Subscribed a) True None (h\<lparr>hub_subs := s\<rparr>) = Inr h'" "hub_inv h'"
        "service_of h' = open_view (Subscribed a) (case None of None \<Rightarrow> [] | Some m \<Rightarrow> [strip_final_newline m]) (service_of (h\<lparr>hub_subs := s\<rparr>))"
      by (rule addStream_spec [of "h\<lparr>hub_subs := s\<rparr>"]) (use inv in simp)
    then show ?thesis using Connect_Subscribed Inr r by (simp add: hub_step_def service_step_def DynamicSubscriptionHttpStream_create_def)
  qed (simp add: Connect_Subscribed hub_step_def service_step_def DynamicSubscriptionHttpStream_create_def)
next
  case (Optics_Change module now)
  show ?thesis
  proof (cases "optical_onChange (le_getData E) module (hub_optics h)")
    case (Inr r)
    obtain oe content where r: "r = (oe, content)" by (cases r)
    let ?m = "as_restconf_push_update (le_yangTime E) content now"
    obtain hss where "signalOptics ?m (hub_streams h) = Inr hss" "\<forall>hs \<in> set hss. stream_ok hs"
        "map stream_view_of hss = map (\<lambda>v. if sv_source v = Optics then receive v ?m else v) (map stream_view_of (hub_streams h))"
      by (rule signalOptics_spec [of "hub_streams h" ?m]) (use inv in \<open>simp add: hub_inv_def\<close>)
    then show ?thesis using Optics_Change Inr r
      by (simp add: hub_step_def service_step_def opticsChanged_def hub_inv_def service_of_def)
  qed (simp add: Optics_Change hub_step_def service_step_def opticsChanged_def)
next
  case (Netconf_Notification i type m)
  then have i: "i < length (hub_streams h)" using en by (simp add: hub_enabled_def)
  obtain hs where hs: "foldE (\<lambda>hs m. deliver (Message m) hs) (hub_streams h ! i) (notifCb type m) = Inr hs" "stream_ok hs"
      "stream_view_of hs = foldl receive (stream_view_of (hub_streams h ! i)) (notifCb type m)"
    by (rule deliver_messages [OF hub_invD [OF inv i]])
  then show ?thesis using Netconf_Notification i hub_inv_update [OF inv hs(2), of i]
    by (simp add: hub_step_def service_step_def onStream_def service_of_update)
next
  case (Stream_Callback i c)
  then obtain h' where "onStream i (deliver c) h = Inr h'" "hub_inv h'"
      "service_of h' = (service_of h)\<lparr>sp_views := (map stream_view_of (hub_streams h))[i := event_view c (stream_view_of (hub_streams h ! i))]\<rparr>"
    using onStream_deliver [OF inv, of i c] en by (auto simp: hub_enabled_def split: stream_event.splits)
  moreover have "event_view c v = v" for v using en Stream_Callback by (auto simp: hub_enabled_def event_view_def split: stream_event.splits)
  ultimately show ?thesis using Stream_Callback en
    by (simp add: hub_step_def service_step_def hub_streams_update_same hub_enabled_def)
next
  case (Wait_Completed i aborted)
  then obtain h' where "waitCompleted i aborted h = Inr h'" "hub_inv h'" "service_of h' = service_wait i aborted (service_of h)"
    using waitCompleted_spec [OF inv] en by (auto simp: hub_enabled_def)
  then show ?thesis using Wait_Completed by (simp add: hub_step_def service_step_def)
next
  case (Response_Closed i)
  then obtain h' where "responseClosed i h = Inr h'" "hub_inv h'" "service_of h' = service_close i (service_of h)"
    using responseClosed_spec [OF inv] en by (auto simp: hub_enabled_def)
  then show ?thesis using Response_Closed by (simp add: hub_step_def service_step_def)
next
  case Stop
  obtain h' where "Server_stop h = Inr h'" "hub_inv h'" "service_of h' = service_stop (service_of h)"
    by (rule Server_stop_spec [OF inv])
  then show ?thesis using Stop by (simp add: hub_step_def service_step_def)
qed (use inv in \<open>auto simp: hub_step_def service_step_def bindE_def split: sum.split\<close>)

interpretation live: event_refinement "hub_step E" "service_step E" hub_enabled hub_inv service_of
  by unfold_locales (use hub_refines in blast)+

end
