(* ===== verification/Live_Service_Laws.thy ===== *)
theory Live_Service_Laws
  imports Live_Streams_Laws
begin

text \<open>
  Invariants of the message service: streams and subscription objects refer to each other consistently, a subscription
  has one client at a time, the notifications written to its pipe reach its clients one after the other, and a
  shutdown ends everything.
\<close>

section \<open>Streams and subscriptions\<close>

text \<open>The source of a view and whether it is gone.\<close>

definition view_key :: "stream_view \<Rightarrow> stream_source \<times> bool" where
  "view_key v = (sv_source v, sv_state v = Gone)"

text \<open>The streams that the table counts are those that are not gone, and of the streams of a subscription only the last may be.\<close>

definition links :: "'u dyn_subs \<Rightarrow> (stream_source \<times> bool) list \<Rightarrow> bool" where
  "links subs ks \<longleftrightarrow> (\<forall>a. a \<in> set (ds_streams subs) \<longleftrightarrow> (Subscribed a, False) \<in> set ks) \<and>
     sorted_wrt (\<lambda>k l. \<forall>a. fst k = Subscribed a \<longrightarrow> fst l = Subscribed a \<longrightarrow> snd k) ks"

definition service_inv :: "'u::linorder service \<Rightarrow> bool" where
  "service_inv sp \<longleftrightarrow> subs_inv (sp_subs sp) \<and> links (sp_subs sp) (map view_key (sp_views sp))"

definition service_enabled :: "'u hub_event \<Rightarrow> 'u service \<Rightarrow> bool" where
  "service_enabled e sp = (case e of
      Netconf_Notification i _ _ \<Rightarrow> i < length (sp_views sp) \<and> sv_source (sp_views sp ! i) = Netconf
    | Wait_Completed i _ \<Rightarrow> i < length (sp_views sp) \<and> sv_state (sp_views sp ! i) \<noteq> Gone
    | Response_Closed i \<Rightarrow> i < length (sp_views sp) \<and> sv_state (sp_views sp ! i) \<noteq> Gone
    | _ \<Rightarrow> True)"

lemma hub_enabled_service:
  assumes "hub_inv h" and "hub_enabled e h"
  shows "service_enabled e (service_of h)"
proof -
  have "sv_state (stream_view_of hs) \<noteq> Gone" if "stream_ok hs" "hs_waiting hs \<or> es_res_alive (hs_stream hs)" for hs
    using that by (cases "es_state (hs_stream hs)") (auto simp: stream_ok_def stream_inv_def stream_view_of_def view_of_def)
  then show ?thesis using assms hub_invD [OF assms(1)]
    by (cases e) (auto simp: hub_enabled_def service_enabled_def)
qed

lemma view_key_ops [simp]:
  "view_key (receive v m) = view_key v" "view_key (foldl receive v ms) = view_key v" "view_key (end_view v) = view_key v"
proof -
  show r: "view_key (receive v m) = view_key v" for v m by (simp add: view_key_def receive_def)
  show "view_key (foldl receive v ms) = view_key v" by (induction ms arbitrary: v) (simp_all add: r)
  show "view_key (end_view v) = view_key v" by (simp add: view_key_def end_view_def)
qed

lemma view_key_comp [simp]:
  "view_key \<circ> (\<lambda>v. if P v then receive v m else v) = view_key" "view_key \<circ> end_view = view_key"
  by (simp_all add: fun_eq_iff)

lemma map_update_same: "i < length xs \<Longrightarrow> f y = f (xs ! i) \<Longrightarrow> map f (xs[i := y]) = map f xs"
  by (simp add: map_update list_update_same_conv)

lemma links_open:
  assumes "links s ks" and "a \<notin> set (ds_streams s)" and "ds_streams s' = a # ds_streams s"
  shows "links s' (ks @ [(Subscribed a, False)])"
proof -
  have "snd k" if "k \<in> set ks" "fst k = Subscribed a" for k
    using assms(1,2) that unfolding links_def by (metis (full_types) prod.collapse)
  then show ?thesis using assms(1,3) by (auto simp: links_def sorted_wrt_append)
qed

lemma links_open_other: "links s ks \<Longrightarrow> (\<And>a. src \<noteq> Subscribed a) \<Longrightarrow> links s (ks @ [(src, b)])"
  by (auto simp: links_def sorted_wrt_append)

lemma links_last:
  assumes "links s ks" and "i < length ks" and "ks ! i = (Subscribed a, False)" and "j < length ks" and "fst (ks ! j) = Subscribed a"
  shows "j \<le> i \<and> (j \<noteq> i \<longrightarrow> snd (ks ! j))"
proof -
  have "snd (ks ! k)" if "k < l" "l < length ks" "fst (ks ! k) = Subscribed a" "fst (ks ! l) = Subscribed a" for k l
    using assms(1) that by (auto simp: links_def sorted_wrt_iff_nth_less)
  from this [of i j] this [of j i] show ?thesis using assms by (cases i j rule: linorder_cases) auto
qed

lemma links_close:
  assumes l: "links s ks" and i: "i < length ks" "ks ! i = (src, False)"
    and st: "\<And>b. b \<in> set (ds_streams s') \<longleftrightarrow> b \<in> set (ds_streams s) \<and> src \<noteq> Subscribed b"
  shows "links s' (ks[i := (src, True)])"
  unfolding links_def
proof (intro conjI allI)
  have sorted: "snd (ks ! k)" if "k < l" "l < length ks" "fst (ks ! k) = Subscribed a" "fst (ks ! l) = Subscribed a" for k l a
    using l that by (auto simp: links_def sorted_wrt_iff_nth_less)
  show "sorted_wrt (\<lambda>k l. \<forall>a. fst k = Subscribed a \<longrightarrow> fst l = Subscribed a \<longrightarrow> snd k) (ks[i := (src, True)])"
    unfolding sorted_wrt_iff_nth_less
  proof (intro allI impI)
    fix j k a
    assume jk: "j < k" "k < length (ks[i := (src, True)])" "fst (ks[i := (src, True)] ! j) = Subscribed a" "fst (ks[i := (src, True)] ! k) = Subscribed a"
    then show "snd (ks[i := (src, True)] ! j)"
      using sorted [of j k a] i by (auto simp: nth_list_update split: if_splits)
  qed
  fix b
  have "(Subscribed b, False) \<in> set (ks[i := (src, True)]) \<longleftrightarrow> (Subscribed b, False) \<in> set ks \<and> src \<noteq> Subscribed b"
  proof
    assume "(Subscribed b, False) \<in> set (ks[i := (src, True)])"
    then obtain j where j: "j < length ks" "j \<noteq> i" "ks ! j = (Subscribed b, False)"
      using i(1) unfolding in_set_conv_nth by (metis length_list_update nth_list_update prod.inject)
    then show "(Subscribed b, False) \<in> set ks \<and> src \<noteq> Subscribed b"
      using links_last [OF l i(1), of b j] i(2) by (auto simp: in_set_conv_nth)
  next
    assume "(Subscribed b, False) \<in> set ks \<and> src \<noteq> Subscribed b"
    then show "(Subscribed b, False) \<in> set (ks[i := (src, True)])"
      using i by (metis in_set_conv_nth length_list_update nth_list_update_neq prod.inject)
  qed
  then show "b \<in> set (ds_streams s') \<longleftrightarrow> (Subscribed b, False) \<in> set (ks[i := (src, True)])"
    using l st [of b] by (simp add: links_def)
qed

section \<open>Every event keeps the invariant\<close>

text \<open>The effect of the operations of the table on its streams.\<close>

lemma establishSubscription_streams:
  "establishSubscription subscribe us uri nacm u hst enc inp out s = Inr (s', out') \<Longrightarrow> ds_streams s' = ds_streams s"
  by (elim establishSubscription_Inr) (simp add: store_subscription_def Let_def release_fields split: option.splits)

lemma deleteSubscription_streams: "deleteSubscription ru srt user kill i p s = Inr s' \<Longrightarrow> ds_streams s' = ds_streams s"
  by (cases i) (auto simp: deleteSubscription_def throw_error_at_def release_fields bindE_eq_Inr_iff Let_def split: option.splits if_splits)

lemma timer_expired_streams: "ds_streams (timer_expired a s) = ds_streams s"
  by (simp add: timer_expired_def terminateSubscription_def Let_def update_data_def release_fields split: option.splits inactivity_timer.splits)

lemma stream_terminated_fields:
  "ds_streams (stream_terminated a s) = ds_streams s" "m_subscriptions (stream_terminated a s) = m_subscriptions s"
  "ds_heap (stream_terminated a s) b = (if b = a then map_option (\<lambda>d. d\<lparr>sd_state := Terminating\<rparr>) (ds_heap s b) else ds_heap s b)"
  by (auto simp: stream_terminated_def update_data_def terminate_def split: option.splits)

lemma stream_terminated_fold:
  "ds_streams (fold stream_terminated as s) = ds_streams s" "m_subscriptions (fold stream_terminated as s) = m_subscriptions s"
  "ds_heap (fold stream_terminated as s) b = (if b \<in> set as then map_option (\<lambda>d. d\<lparr>sd_state := Terminating\<rparr>) (ds_heap s b) else ds_heap s b)"
  by (induction as arbitrary: s) (auto simp: stream_terminated_fields option.map_comp o_def)

lemma connect_stream_streams: "connect_stream ru u user s = Inr (a, s') \<Longrightarrow> subs_inv s \<Longrightarrow> a \<notin> set (ds_streams s) \<and> ds_streams s' = a # ds_streams s"
  using subs_invD(6) [of s a]
  by (auto simp: connect_stream_def getSubscriptionForUser_def isReadyToAcceptClient_def object_ok_def throw_error_def split: option.splits if_splits)

lemma disconnect_stream_streams:
  assumes "subs_inv s" and "a \<in> set (ds_streams s)"
  shows "b \<in> set (ds_streams (disconnect_stream a s)) \<longleftrightarrow> b \<in> set (ds_streams s) \<and> b \<noteq> a"
proof -
  obtain d where "ds_heap s a = Some d" using subs_invD(5) [OF assms] by auto
  then show ?thesis using subs_invD(4) [OF assms(1)]
    by (auto simp: disconnect_stream_def Let_def update_data_def release_fields)
qed

abbreviation table_step :: "'u::linorder live_env \<Rightarrow> 'u dyn_subs \<Rightarrow> 'u dyn_subs \<Rightarrow> bool" where
  "table_step E \<equiv> subs_step (le_recoveryUser E) (le_subscribe E) (le_uuid_string E) (le_streamUri E) (le_sr_terminate E)"

lemma live_addrs: "set (List.map_filter live_addr vs) = {a. (Subscribed a, False) \<in> set (map view_key vs)}"
proof (induction vs)
  case (Cons v vs)
  then show ?case by (cases "sv_source v") (auto simp: map_filter_simps live_addr_def view_key_def)
qed (simp add: map_filter_simps)

lemma fold_terminated_steps: "set as \<subseteq> set (ds_streams s) \<Longrightarrow> (table_step E)\<^sup>*\<^sup>* s (fold stream_terminated as s)"
proof (induction as arbitrary: s)
  case (Cons a as)
  have "table_step E s (stream_terminated a s)" by (rule subs_step.terminated) (use Cons.prems in simp)
  moreover have "(table_step E)\<^sup>*\<^sup>* (stream_terminated a s) (fold stream_terminated as (stream_terminated a s))"
    by (rule Cons.IH) (use Cons.prems in \<open>simp add: stream_terminated_fields\<close>)
  ultimately show ?case by simp
qed simp

lemma table_one: "table_step E s s' \<or> s' = s \<Longrightarrow> (table_step E)\<^sup>*\<^sup>* s s'"
  by blast

lemma service_live_stream:
  assumes "service_inv sp" and "i < length (sp_views sp)" and "sv_state (sp_views sp ! i) \<noteq> Gone" and "sv_source (sp_views sp ! i) = Subscribed a"
  shows "a \<in> set (ds_streams (sp_subs sp))"
proof -
  have "view_key (sp_views sp ! i) \<in> set (map view_key (sp_views sp))" using assms(2) by simp
  then show ?thesis using assms(1,3,4) by (auto simp: service_inv_def links_def view_key_def)
qed

text \<open>Whatever happens to the streams is, for the table of subscriptions, a sequence of its operations.\<close>

lemma service_step_table:
  assumes "service_inv sp" and "service_enabled e sp" and "service_step E e sp = Inr sp'"
  shows "(table_step E)\<^sup>*\<^sup>* (sp_subs sp) (sp_subs sp')"
proof (cases e)
  case (Response_Closed i)
  have "table_step E (sp_subs sp) (disconnect_stream a (sp_subs sp))" if "sv_source (sp_views sp ! i) = Subscribed a" for a
    by (rule subs_step.disconnect, rule service_live_stream [OF assms(1) _ _ that])
      (use assms(2) Response_Closed in \<open>simp_all add: service_enabled_def\<close>)
  then show ?thesis using assms(3) Response_Closed by (cases "sv_source (sp_views sp ! i)") (auto simp: service_step_def service_close_def)
next
  case Stop
  have "set (List.map_filter live_addr (sp_views sp)) \<subseteq> set (ds_streams (sp_subs sp))"
    using assms(1) unfolding live_addrs by (auto simp: service_inv_def links_def)
  from rtranclp.rtrancl_into_rtrancl [OF fold_terminated_steps [OF this] subs_step.stop]
  show ?thesis using assms(3) Stop by (auto simp: service_step_def service_stop_def)
next
  case (Wait_Completed i aborted)
  then show ?thesis using assms(3) by (cases "sv_source (sp_views sp ! i)") (auto simp: service_step_def service_wait_def)
qed (rule table_one, use assms(3) in \<open>auto simp: service_step_def open_view_def bindE_eq_Inr_iff intro: subs_step.intros\<close>)+

lemma table_steps_inv: "(table_step E)\<^sup>*\<^sup>* s s' \<Longrightarrow> subs_inv s \<Longrightarrow> subs_inv s'"
  by (induction rule: rtranclp_induct) (auto intro: subs_step_inv)

lemma service_step_inv:
  assumes inv: "service_inv sp" and en: "service_enabled e sp" and st: "service_step E e sp = Inr sp'"
  shows "service_inv sp'"
proof -
  note subs = table_steps_inv [OF service_step_table [OF assms]]
  have si: "subs_inv (sp_subs sp)" and l: "links (sp_subs sp) (map view_key (sp_views sp))" using inv by (simp_all add: service_inv_def)
  have "links (sp_subs sp') (map view_key (sp_views sp'))"
  proof (cases e)
    case (Connect_Subscribed uid user)
    then obtain a s where c: "connect_stream (le_recoveryUser E) uid user (sp_subs sp) = Inr (a, s)"
        "sp' = open_view (Subscribed a) [] (sp\<lparr>sp_subs := s\<rparr>)"
      using st by (auto simp: service_step_def bindE_eq_Inr_iff)
    then show ?thesis using connect_stream_streams [OF c(1) si] by (auto simp: open_view_def view_key_def intro!: links_open [OF l])
  next
    case (Response_Closed i)
    then have i: "i < length (sp_views sp)" "sv_state (sp_views sp ! i) \<noteq> Gone" using en by (simp_all add: service_enabled_def)
    let ?v = "sp_views sp ! i"
    have k: "view_key ?v = (sv_source ?v, False)" using i by (simp add: view_key_def)
    note mem = service_live_stream [OF inv i]
    have "links (sp_subs sp') ((map view_key (sp_views sp))[i := (sv_source ?v, True)])"
    proof (rule links_close [OF l])
      fix b
      show "b \<in> set (ds_streams (sp_subs sp')) \<longleftrightarrow> b \<in> set (ds_streams (sp_subs sp)) \<and> sv_source ?v \<noteq> Subscribed b"
        using st Response_Closed disconnect_stream_streams [OF si mem]
        by (cases "sv_source ?v") (auto simp: service_step_def service_close_def)
    qed (use i k in simp_all)
    then show ?thesis using st Response_Closed by (auto simp: service_step_def service_close_def map_update view_key_def)
  next
    case (Wait_Completed i aborted)
    then show ?thesis using st l en
      by (cases "sv_source (sp_views sp ! i)") (auto simp: service_step_def service_wait_def service_enabled_def map_update_same split: if_splits)
  next
    case (Netconf_Notification i type m)
    then show ?thesis using st l en by (auto simp: service_step_def service_enabled_def map_update_same)
  next
    case (Optics_Change module now)
    then show ?thesis using st l by (auto simp: service_step_def bindE_eq_Inr_iff)
  next
    case Stop
    then have "ds_streams (sp_subs sp') = ds_streams (sp_subs sp)" "map view_key (sp_views sp') = map view_key (sp_views sp)"
      using st by (auto simp: service_step_def service_stop_def stop_all_def stream_terminated_fold)
    then show ?thesis using l by (simp add: links_def)
  next
    case (Establish user uid schemeAndHost enc inp out)
    then show ?thesis using st l
      by (auto simp: service_step_def bindE_eq_Inr_iff links_def dest!: establishSubscription_streams)
  next
    case (Delete user isKill subId path)
    then show ?thesis using st l
      by (auto simp: service_step_def bindE_eq_Inr_iff links_def dest!: deleteSubscription_streams)
  next
    case (Timer_Expired a)
    then show ?thesis using st l by (auto simp: service_step_def links_def timer_expired_streams)
  qed (use st l in \<open>auto simp: service_step_def open_view_def view_key_def intro!: links_open_other\<close>)
  then show ?thesis using subs si by (simp add: service_inv_def)
qed

section \<open>Runs\<close>

lemma hub_run_live: "hub_run E tr h \<Longrightarrow> \<exists>oe. live.run E (hub_init oe) tr h"
proof (induction rule: hub_run.induct)
  case (event tr h e h')
  then show ?case using live.run.snoc by blast
qed (blast intro: live.run.Nil)

lemma hub_init_inv: "hub_inv (hub_init oe)" "service_inv (service_of (hub_init oe))"
  by (simp_all add: hub_init_def hub_inv_def service_inv_def subs_inv_def DynamicSubscriptions_init_def links_def)

lemma hub_run_inv: "hub_run E tr h \<Longrightarrow> hub_inv h"
  using hub_run_live [of E tr h] live.run_inv [OF _ hub_init_inv(1)] by blast

lemma hub_step_service:
  assumes "hub_run E tr h" and "hub_enabled e h" and "hub_step E e h = Inr h'"
  shows "service_enabled e (service_of h) \<and> service_step E e (service_of h) = Inr (service_of h')"
  using hub_enabled_service [OF hub_run_inv [OF assms(1)] assms(2)] live.step_spec [OF hub_run_inv [OF assms(1)] assms(2), of E] assms(3) by simp

lemma hub_run_service_inv: "hub_run E tr h \<Longrightarrow> service_inv (service_of h)"
proof (induction rule: hub_run.induct)
  case (event tr h e h')
  then show ?case using hub_step_service [OF event(1-3)] service_step_inv by blast
qed (rule hub_init_inv)

text \<open>The table of subscriptions of a running server is in a state its own operations reach.\<close>

lemma hub_run_subs_reachable:
  "hub_run E tr h \<Longrightarrow> subs_reachable (le_recoveryUser E) (le_subscribe E) (le_uuid_string E) (le_streamUri E) (le_sr_terminate E) (hub_subs h)"
proof (induction rule: hub_run.induct)
  case (start oe)
  then show ?case using subs_reachable.init by (simp add: hub_init_def)
next
  case (event tr h e h')
  have "(table_step E)\<^sup>*\<^sup>* (hub_subs h) (hub_subs h')"
    using service_step_table [OF hub_run_service_inv [OF event(1)], of e E] hub_step_service [OF event(1-3)] by fastforce
  then show ?case using event.IH
    by (induction rule: rtranclp_induct) (auto intro: subs_reachable.step)
qed

section \<open>Delivery of notifications\<close>

text \<open>The notifications sysrepo wrote for a subscription, and what its clients were given, one client after the other.\<close>

definition written :: "nat \<Rightarrow> 'u hub_event list \<Rightarrow> string list" where
  "written a tr = List.map_filter (\<lambda>e. case e of Notification_Written b m \<Rightarrow> if b = a then Some m else None | _ \<Rightarrow> None) tr"

definition messages_for :: "nat \<Rightarrow> stream_view \<Rightarrow> string list" where
  "messages_for a v = (if sv_source v = Subscribed a then sv_messages v else [])"

definition received :: "nat \<Rightarrow> stream_view list \<Rightarrow> string list" where
  "received a vs = concat (map (messages_for a) vs)"

lemma written_append: "written a (tr @ tr') = written a tr @ written a tr'"
  by (simp add: written_def map_filter_def)

lemma foldl_receive:
  "foldl receive v ms = (if sv_state v = Live then v\<lparr>sv_messages := sv_messages v @ map strip_final_newline ms\<rparr> else v)"
  by (induction ms arbitrary: v) (simp_all add: receive_def)

lemma received_streams:
  "received a (map stream_view_of hss) =
    concat (map (\<lambda>hs. sse_messages (hs_out hs @ concat (es_queue (hs_stream hs)))) (filter (\<lambda>hs. hs_source hs = Subscribed a) hss))"
  by (induction hss) (simp_all add: received_def messages_for_def stream_view_of_def)

lemma received_same: "i < length vs \<Longrightarrow> messages_for a v = messages_for a (vs ! i) \<Longrightarrow> received a (vs[i := v]) = received a vs"
  by (simp add: received_def map_update_same)

lemma messages_for_receive: "sv_source v \<noteq> Subscribed a \<Longrightarrow> messages_for a (receive v m) = messages_for a v"
  by (simp add: messages_for_def receive_def)

text \<open>A message for the last stream of a subscription comes after all others.\<close>

lemma received_last:
  assumes "i < length vs" and "\<And>j. i < j \<Longrightarrow> j < length vs \<Longrightarrow> sv_source (vs ! j) \<noteq> Subscribed a"
    and "messages_for a v = messages_for a (vs ! i) @ ms"
  shows "received a (vs[i := v]) = received a vs @ ms"
proof -
  have rest: "concat (map (messages_for a) (drop (Suc i) vs)) = []"
    using assms(2) by (auto simp: messages_for_def in_set_conv_nth)
  have vs: "vs = take i vs @ vs ! i # drop (Suc i) vs" using assms(1) by (rule id_take_nth_drop)
  have "received a (vs[i := v]) = concat (map (messages_for a) (take i vs)) @ messages_for a v"
    unfolding received_def upd_conv_take_nth_drop [OF assms(1)] using rest by simp
  moreover have "received a vs = concat (map (messages_for a) (take i vs)) @ messages_for a (vs ! i)"
    unfolding received_def by (subst vs) (use rest in simp)
  ultimately show ?thesis using assms(3) by simp
qed

lemma service_last_stream:
  assumes "service_inv sp" and "i < length (sp_views sp)" and "sv_state (sp_views sp ! i) \<noteq> Gone" and "sv_source (sp_views sp ! i) = Subscribed a"
    and "i < j" and "j < length (sp_views sp)"
  shows "sv_source (sp_views sp ! j) \<noteq> Subscribed a"
  using links_last [of "sp_subs sp" "map view_key (sp_views sp)" i a j] assms by (auto simp: service_inv_def view_key_def)

abbreviation no_ending :: "'u service \<Rightarrow> bool" where
  "no_ending sp \<equiv> \<forall>v \<in> set (sp_views sp). sv_state v \<noteq> Ending"

lemma no_ending_update: "\<forall>v \<in> set vs. sv_state v \<noteq> Ending \<Longrightarrow> sv_state v \<noteq> Ending \<Longrightarrow> \<forall>v \<in> set (vs[i := v]). sv_state v \<noteq> Ending"
  using set_update_subset_insert by fastforce

lemma service_wait_delivers:
  assumes inv: "service_inv sp" and i: "i < length (sp_views sp)" "sv_state (sp_views sp ! i) \<noteq> Gone" and live: "no_ending sp"
  shows "received a (sp_views (service_wait i aborted sp)) @ map strip_final_newline (np_events (sp_pipes (service_wait i aborted sp) a)) =
      received a (sp_views sp) @ map strip_final_newline (np_events (sp_pipes sp a)) \<and> no_ending (service_wait i aborted sp)"
proof (cases "sv_source (sp_views sp ! i)")
  case (Subscribed b)
  let ?v = "sp_views sp ! i" and ?ms = "take 49 (np_events (sp_pipes sp b))"
  have state: "sv_state ?v = Live" using i live nth_mem by (cases "sv_state ?v") fastforce+
  have v: "foldl receive ?v ?ms = ?v\<lparr>sv_messages := sv_messages ?v @ map strip_final_newline ?ms\<rparr>" using state by (simp add: foldl_receive)
  have "received a ((sp_views sp)[i := foldl receive ?v ?ms]) = received a (sp_views sp) @ (if a = b then map strip_final_newline ?ms else [])"
  proof (cases "a = b")
    case True
    have "received a ((sp_views sp)[i := foldl receive ?v ?ms]) = received a (sp_views sp) @ map strip_final_newline ?ms"
      by (rule received_last) (use i v Subscribed True service_last_stream [OF inv i Subscribed] in \<open>auto simp: messages_for_def\<close>)
    then show ?thesis using True by simp
  next
    case False
    then show ?thesis using i v Subscribed by (simp add: received_same messages_for_def)
  qed
  moreover have "map f (take n xs) @ map f (drop n xs) = map f xs" for f n and xs :: "string list"
    by (simp flip: map_append)
  moreover have "no_ending (service_wait i aborted sp)"
    using Subscribed live no_ending_update [OF live, of "foldl receive ?v ?ms" i] state by (simp add: service_wait_def v)
  ultimately show ?thesis using Subscribed by (auto simp: service_wait_def)
qed (use live in \<open>simp_all add: service_wait_def\<close>)

lemma service_delivers:
  assumes inv: "service_inv sp" and en: "service_enabled e sp" and st: "service_step E e sp = Inr sp'" and "e \<noteq> Stop" and live: "no_ending sp"
  shows "received a (sp_views sp') @ map strip_final_newline (np_events (sp_pipes sp' a)) =
      received a (sp_views sp) @ map strip_final_newline (np_events (sp_pipes sp a)) @ map strip_final_newline (written a [e]) \<and> no_ending sp'"
proof (cases e)
  case (Wait_Completed i aborted)
  then show ?thesis using service_wait_delivers [OF inv _ _ live, of i a aborted] en st
    by (auto simp: service_enabled_def service_step_def written_def map_filter_simps)
next
  case (Response_Closed i)
  then show ?thesis using st en live no_ending_update [OF live, of "(sp_views sp ! i)\<lparr>sv_state := Gone\<rparr>" i]
    by (auto simp: service_enabled_def service_step_def service_close_def written_def map_filter_simps received_same messages_for_def)
next
  case (Netconf_Notification i type m)
  then show ?thesis using st en live no_ending_update [OF live, of "foldl receive (sp_views sp ! i) (notifCb type m)" i]
    by (auto simp: service_enabled_def service_step_def written_def map_filter_simps received_same messages_for_def foldl_receive)
next
  case (Optics_Change module now)
  have "map (messages_for a \<circ> (\<lambda>v. if sv_source v = Optics then receive v m else v)) vs = map (messages_for a) vs" for m vs
    by (simp add: messages_for_receive)
  then show ?thesis using st live Optics_Change
    by (auto simp: service_step_def bindE_eq_Inr_iff written_def map_filter_simps received_def receive_def simp del: map_eq_conv)
qed (use assms in \<open>auto simp: service_step_def open_view_def bindE_eq_Inr_iff written_def map_filter_simps received_def messages_for_def\<close>)

lemma hub_run_delivers:
  "hub_run E tr h \<Longrightarrow> Stop \<notin> set tr \<Longrightarrow>
    map strip_final_newline (written a tr) = received a (sp_views (service_of h)) @ map strip_final_newline (np_events (hub_pipes h a)) \<and>
    no_ending (service_of h)"
proof (induction rule: hub_run.induct)
  case (start oe)
  then show ?case by (simp add: hub_init_def written_def received_def map_filter_simps)
next
  case (event tr h e h')
  note st = hub_step_service [OF event(1-3)]
  from event.prems have "Stop \<notin> set tr" "e \<noteq> Stop" by auto
  then show ?case
    using service_delivers [OF hub_run_service_inv [OF event(1)], of e E "service_of h'" a] st event.IH
    by (simp add: written_append)
qed

section \<open>Shutdown\<close>

lemma service_stop_ends:
  assumes "service_inv sp"
  shows "\<forall>v \<in> set (sp_views (service_stop sp)). sv_state v \<noteq> Live"
    and "ds_heap (sp_subs (service_stop sp)) a = Some d \<Longrightarrow> sd_state d = Terminating"
proof -
  show "\<forall>v \<in> set (sp_views (service_stop sp)). sv_state v \<noteq> Live" by (auto simp: service_stop_def end_view_def)
  let ?as = "List.map_filter live_addr (sp_views sp)"
  assume d: "ds_heap (sp_subs (service_stop sp)) a = Some d"
  have "object_ok (sp_subs sp) a x" if "ds_heap (sp_subs sp) a = Some x" for x
    using subs_invD(6) [OF _ that] assms by (simp add: service_inv_def)
  moreover have "a \<in> set (ds_streams (sp_subs sp)) \<longleftrightarrow> a \<in> set ?as"
    using assms unfolding live_addrs by (simp add: service_inv_def links_def)
  ultimately show "sd_state d = Terminating" using d
    by (auto simp: service_stop_def stop_all_def stream_terminated_fold stop_subscription_def object_ok_def mapped_def split: if_splits)
qed

lemma terminating_refuses: "(\<And>a d. ds_heap s a = Some d \<Longrightarrow> sd_state d = Terminating) \<Longrightarrow> connect_stream ru u user s \<noteq> Inr r"
  by (auto simp: connect_stream_def getSubscriptionForUser_def isReadyToAcceptClient_def throw_error_def split: option.splits if_splits)

text \<open>The server can always be stopped, and then nothing goes on.\<close>

lemma hub_stop_ends:
  assumes "hub_run E tr h"
  shows "\<exists>h'. Server_stop h = Inr h' \<and>
    (\<forall>hs \<in> set (hub_streams h'). closing (hs_stream hs) \<and> (es_res_alive (hs_stream hs) \<longrightarrow> (\<forall>n. process n (hs_stream hs) = Inr (hs_stream hs, Eof)))) \<and>
    (\<forall>a d. ds_heap (hub_subs h') a = Some d \<longrightarrow> sd_state d = Terminating) \<and> (\<forall>ru u user r. connect_stream ru u user (hub_subs h') \<noteq> Inr r)"
proof -
  obtain h' where h': "Server_stop h = Inr h'" "hub_inv h'" "service_of h' = service_stop (service_of h)"
    by (rule Server_stop_spec [OF hub_run_inv [OF assms]])
  note ends = service_stop_ends [OF hub_run_service_inv [OF assms], folded h'(3)]
  have t: "sd_state d = Terminating" if "ds_heap (hub_subs h') a = Some d" for a d using ends(2) [of a d] that by simp
  have "closing (hs_stream hs) \<and> (es_res_alive (hs_stream hs) \<longrightarrow> (\<forall>n. process n (hs_stream hs) = Inr (hs_stream hs, Eof)))"
    if "hs \<in> set (hub_streams h')" for hs
  proof -
    have "sv_state (stream_view_of hs) \<noteq> Live" using ends(1) that by simp
    moreover have "stream_ok hs" using h'(2) that by (simp add: hub_inv_def)
    ultimately show ?thesis
      by (cases "es_state (hs_stream hs)") (auto simp: stream_view_of_def view_of_def closing_def process_def stream_ok_def stream_inv_def)
  qed
  then show ?thesis using h'(1) t terminating_refuses [of "hub_subs h'"] by blast
qed

end
