(* ===== verification/Server_Life.thy ===== *)
theory Server_Life
  imports Live_Service_Laws Server_Handlers
begin

text \<open>
  The life of the server object of \<open>restconf/Server.cpp\<close>: its constructor, which checks the modules, publishes the capabilities
  and starts to listen, and its end by \<open>stop\<close>, \<open>join\<close> and the destructor.
\<close>

section \<open>Start\<close>

text \<open>Calls to sysrepo at the start, in order; sysrepo may refuse each of them.\<close>

datatype start_call = Set_Item string string | Apply_Capabilities | On_Oper_Get string string

text \<open>
  \<open>st_nacm\<close> is the NACM object as its constructor leaves it, \<open>st_features\<close> the enabled features of an implemented module,
  \<open>st_listen\<close> the message of the error of \<open>listen_and_serve\<close>, if any.
\<close>

record start_env =
  st_nacm :: "exn + nacm"
  st_subscribe :: "string \<Rightarrow> exn + unit"
  st_getData :: "string \<Rightarrow> exn + string option"
  st_features :: "string \<Rightarrow> string list option"
  st_sysrepo :: "start_call list \<Rightarrow> exn + unit"
  st_listen :: "string \<Rightarrow> string \<Rightarrow> string option"

datatype transport_call = Post_Stop | Join_Threads

record 'u server_object =
  so_nacm :: nacm
  so_hub :: "'u hub"
  so_joined :: bool
  so_transport :: "transport_call list"

definition start_ask :: "start_env \<Rightarrow> start_call list \<Rightarrow> start_call \<Rightarrow> exn + start_call list" where
  "start_ask E calls c = bindE (st_sysrepo E (calls @ [c])) (\<lambda>_. Inr (calls @ [c]))"

definition startCalls :: "start_call list" where
  "startCalls = map (\<lambda>(path, value). Set_Item path value) monitoringCapabilities @
     [Apply_Capabilities, On_Oper_Get ''ietf-restconf-monitoring'' ''/ietf-restconf-monitoring:restconf-state/streams/stream'']"

definition Server_construct :: "start_env \<Rightarrow> string \<Rightarrow> string \<Rightarrow> exn + 'u server_object \<times> start_call list" where
  "Server_construct E address port =
     bindE (st_nacm E) (\<lambda>nacm.
     bindE (OpticalEvents (st_subscribe E) (st_getData E)) (\<lambda>dwdmEvents.
     bindE (checkRequiredModules (st_features E)) (\<lambda>_.
     bindE (foldE (start_ask E) [] startCalls) (\<lambda>calls.
       case st_listen E address port of
         Some msg \<Rightarrow> Inl (Runtime_Error (''Server error: '' @ msg))
       | None \<Rightarrow> Inr (\<lparr>so_nacm = nacm, so_hub = hub_init dwdmEvents, so_joined = False, so_transport = []\<rparr>, calls)))))"

section \<open>End\<close>

definition Server_stop_object :: "'u server_object \<Rightarrow> exn + 'u server_object" where
  "Server_stop_object so = bindE (Server_stop (so_hub so)) (\<lambda>h. Inr (so\<lparr>so_hub := h, so_transport := so_transport so @ [Post_Stop]\<rparr>))"

definition Server_join :: "'u server_object \<Rightarrow> 'u server_object" where
  "Server_join so = so\<lparr>so_joined := True, so_transport := so_transport so @ [Join_Threads]\<rparr>"

definition Server_destroy :: "'u server_object \<Rightarrow> exn + 'u server_object" where
  "Server_destroy so = bindE (Server_stop_object so) (\<lambda>so.
     Inr (if so_joined so then so else so\<lparr>so_transport := so_transport so @ [Join_Threads]\<rparr>))"

section \<open>Laws\<close>

lemma foldE_check_Inr_iff: "foldE (\<lambda>_. f) () xs = Inr () \<longleftrightarrow> (\<forall>x \<in> set xs. f x = Inr ())"
  by (induction xs) (auto simp: bindE_eq_Inr_iff)

lemma checkModule_Inr_iff:
  "checkModule features (module, version, required) = Inr () \<longleftrightarrow> (\<exists>fs. features module = Some fs \<and> set required \<subseteq> set fs)"
proof -
  have "foldE (\<lambda>_ f. if f \<notin> set fs then Inl (e f) else Inr ()) () required = Inr () \<longleftrightarrow> set required \<subseteq> set fs" for fs and e :: "string \<Rightarrow> exn"
    by (induction required) auto
  then show ?thesis by (simp add: checkModule_def split: option.split)
qed

lemma checkRequiredModules_Inr_iff:
  "checkRequiredModules features = Inr () \<longleftrightarrow>
    (\<forall>(module, version, required) \<in> set requiredModules. \<exists>fs. features module = Some fs \<and> set required \<subseteq> set fs)"
  unfolding checkRequiredModules_def foldE_check_Inr_iff by (auto simp: checkModule_Inr_iff)

lemma foldE_start_ask: "foldE (start_ask E) calls cs = Inr calls' \<longleftrightarrow>
    calls' = calls @ cs \<and> (\<forall>i < length cs. st_sysrepo E (calls @ take (Suc i) cs) = Inr ())"
proof (induction cs arbitrary: calls)
  case (Cons c cs)
  have "(\<forall>i < length (c # cs). st_sysrepo E (calls @ take (Suc i) (c # cs)) = Inr ()) \<longleftrightarrow>
      st_sysrepo E (calls @ [c]) = Inr () \<and> (\<forall>i < length cs. st_sysrepo E ((calls @ [c]) @ take (Suc i) cs) = Inr ())"
    by (simp add: All_less_Suc2)
  then show ?case using Cons.IH [of "calls @ [c]"] by (auto simp: start_ask_def bindE_eq_Inr_iff)
qed auto

text \<open>A server that starts has all the modules and features it needs, and has published its capabilities before it listens.\<close>

theorem server_start_ready:
  assumes "Server_construct E address port = Inr (so, calls)"
  shows "(\<forall>(module, version, required) \<in> set requiredModules. \<exists>fs. st_features E module = Some fs \<and> set required \<subseteq> set fs) \<and>
    calls = startCalls \<and> (\<forall>i < length startCalls. st_sysrepo E (take (Suc i) startCalls) = Inr ()) \<and> st_listen E address port = None \<and>
    hub_streams (so_hub so) = [] \<and> \<not> so_joined so"
proof -
  obtain oe where c: "checkRequiredModules (st_features E) = Inr ()" "foldE (start_ask E) [] startCalls = Inr calls"
      "st_listen E address port = None" "so_hub so = hub_init oe" "\<not> so_joined so"
    using assms by (auto simp: Server_construct_def bindE_eq_Inr_iff split: option.splits)
  then show ?thesis by (auto simp: checkRequiredModules_Inr_iff foldE_start_ask hub_init_def)
qed

text \<open>The threads are joined exactly once over the life of the object, by \<open>join\<close> or by the destructor.\<close>

theorem server_joined_once:
  assumes "hub_run E tr (so_hub so)" and "count_list (so_transport so) Join_Threads = (if so_joined so then 1 else 0)"
  shows "\<exists>so'. Server_destroy so = Inr so' \<and> count_list (so_transport so') Join_Threads = 1 \<and> Post_Stop \<in> set (so_transport so')"
proof -
  obtain h where "Server_stop (so_hub so) = Inr h" using Server_stop_spec [OF hub_run_inv [OF assms(1)]] by blast
  then show ?thesis using assms(2) by (auto simp: Server_destroy_def Server_stop_object_def)
qed

end
