(* ===== verification/Live_Properties.thy ===== *)
theory Live_Properties
  imports Server_Life Subscription_Properties
begin

text \<open>Properties of the streams of a running server together, over every order of events.\<close>

section \<open>A concrete run\<close>

fun hub_exec :: "'u::linorder live_env \<Rightarrow> 'u hub \<Rightarrow> 'u hub_event list \<Rightarrow> 'u hub option" where
  "hub_exec E h [] = Some h"
| "hub_exec E h (e # es) = (if hub_enabled e h then (case hub_step E e h of Inl _ \<Rightarrow> None | Inr h' \<Rightarrow> hub_exec E h' es) else None)"

lemma hub_exec_run: "hub_exec E h es = Some h' \<Longrightarrow> hub_run E tr h \<Longrightarrow> hub_run E (tr @ es) h'"
proof (induction es arbitrary: h tr)
  case (Cons e es)
  then obtain h1 where 1: "hub_enabled e h" "hub_step E e h = Inr h1" "hub_exec E h1 es = Some h'"
    by (auto split: if_splits sum.splits)
  from hub_run.event [OF Cons.prems(2) 1(1,2)] Cons.IH [OF 1(3)] show ?case by fastforce
qed simp

definition ex_live :: "nat live_env" where
  "ex_live = \<lparr>le_recoveryUser = ''root'', le_subscribe = example_subscribe, le_uuid_string = (\<lambda>_. ''u''), le_streamUri = ''/streams/'',
     le_sr_terminate = (\<lambda>_. Inr ()), le_yangTime = (\<lambda>_. ''t''), le_getData = (\<lambda>_. Inr (Some ''{}''))\<rparr>"

definition ex_events :: "nat hub_event list" where
  "ex_events = [Establish (Some ''alice'') 3 (Some ''http://h'') JSON example_input \<lparr>out_replay_start_time_revision = None, out_id = None, out_uri = None\<rparr>,
     Connect_Subscribed 3 (Some ''alice''), Connect_Optics 0, Notification_Written 0 ''first'', Notification_Written 0 ''second'',
     Wait_Completed 0 False, Stream_Callback 0 (Process 5), Optics_Change ''m'' 1, Notification_Written 0 ''third'']"

definition ex_optics :: optical_events where
  "ex_optics = \<lparr>oe_sub = Some ''m'', oe_lastData = ''{}''\<rparr>"

definition ex_hub :: "nat hub" where
  "ex_hub = the (hub_exec ex_live (hub_init ex_optics) ex_events)"

lemma ex_hub_run: "hub_run ex_live ex_events ex_hub"
proof -
  have "\<not> Option.is_none (hub_exec ex_live (hub_init ex_optics) ex_events)" by code_simp
  then have "hub_exec ex_live (hub_init ex_optics) ex_events = Some ex_hub" by (auto simp: ex_hub_def Option.is_none_def)
  from hub_exec_run [OF this hub_run.start] show ?thesis by simp
qed

section \<open>Properties\<close>



text \<open>Until the server is stopped no notification of a subscription is lost, duplicated or reordered between sysrepo and its clients: what sysrepo
  wrote to the pipe is what the streams of the subscription, one after the other, were given for their clients, followed by what is still in
  the pipe; this holds across clients that disconnect and later ones that take over.\<close>

theorem subscription_delivery:
  assumes "hub_run E tr h" and "Stop \<notin> set tr"
  shows "map strip_final_newline (written a tr) =
    concat (map (\<lambda>hs. sse_messages (hs_out hs @ concat (es_queue (hs_stream hs)))) (filter (\<lambda>hs. hs_source hs = Subscribed a) (hub_streams h))) @
    map strip_final_newline (np_events (hub_pipes h a))"
  using hub_run_delivers [OF assms, of a] by (simp add: received_streams)

theorem subscription_delivery_witness:
  "[''first'', ''second'', ''third''] =
   concat (map (\<lambda>hs. sse_messages (hs_out hs @ concat (es_queue (hs_stream hs)))) (filter (\<lambda>hs. hs_source hs = Subscribed 0) (hub_streams ex_hub))) @
   map strip_final_newline (np_events (hub_pipes ex_hub 0))"
proof -
  have "Stop \<notin> set ex_events" by (simp add: ex_events_def)
  moreover have "map strip_final_newline (written 0 ex_events) = [''first'', ''second'', ''third'']" by code_simp
  ultimately show ?thesis using subscription_delivery [OF ex_hub_run, of 0] by simp
qed

text \<open>C18. A shutdown always succeeds and reaches everything: each stream that is still connected ends at its next read, sending nothing more, every
  subscription object is terminating, and no client can connect to any of them any more.\<close>

theorem shutdown_ends_streams:
  assumes "hub_run E tr h"
  shows "\<exists>h'. Server_stop h = Inr h' \<and>
    (\<forall>hs \<in> set (hub_streams h'). closing (hs_stream hs) \<and> (es_res_alive (hs_stream hs) \<longrightarrow> (\<forall>n. process n (hs_stream hs) = Inr (hs_stream hs, Eof)))) \<and>
    (\<forall>a d. ds_heap (hub_subs h') a = Some d \<longrightarrow> sd_state d = Terminating) \<and> (\<forall>ru u user r. connect_stream ru u user (hub_subs h') \<noteq> Inr r)"
  by (rule hub_stop_ends [OF assms])

theorem shutdown_ends_streams_witness:
  "\<exists>h'. Server_stop ex_hub = Inr h' \<and> (\<forall>user r. connect_stream ''root'' 3 user (hub_subs h') \<noteq> Inr r)"
  using shutdown_ends_streams [OF ex_hub_run] by blast

end
