(* ===== verification/Server_System.thy ===== *)
theory Server_System
  imports Live_Streams Server_Handlers
begin

text \<open>
  The running server as one system: HTTP requests, whose bodies arrive in chunks and interleave with each other, the streams, timers and
  pipes of \<open>Live_Streams\<close>, and changes of the NACM configuration, all on one table of subscriptions and one history of
  calls to sysrepo. A handler runs to its end before the next event, since the event loop has one thread. An exception that leaves a
  handler ends the event loop (see the comment in \<open>Server::join\<close>).
\<close>

section \<open>State\<close>

text \<open>A request from its head on: its session, what it did so far and what it waits for.\<close>

record 'n request_state =
  rq_request :: http_request
  rq_restconf :: bool
  rq_sess :: sr_session
  rq_calls :: "'n sr_call list"
  rq_responses :: "'n http_response list"
  rq_authDelay :: "nat option"
  rq_pending :: handler_result

record ('n, 'u) system =
  sy_hub :: "'u hub"
  sy_nacm :: nacm
  sy_log :: "'n sr_call list"
  sy_requests :: "'n request_state list"
  sy_crashed :: "exn option"

definition system_init :: "nacm \<Rightarrow> optical_events \<Rightarrow> ('n, 'u) system" where
  "system_init nacm oe = \<lparr>sy_hub = hub_init oe, sy_nacm = nacm, sy_log = [], sy_requests = [], sy_crashed = None\<rparr>"

record ('n, 'u, 'd) system_env =
  ge_server :: "'n server_env"
  ge_subs :: "'u subs_env"
  ge_notif :: notif_env
  ge_stod :: "'d stod"
  ge_yangLib :: "string option"
  ge_anonUser :: string
  ge_anonGroup :: string
  ge_uuidOf :: "string \<Rightarrow> 'u option"
  ge_getModule :: "string \<Rightarrow> string option \<Rightarrow> string option"
  ge_getSubmodule :: "string \<Rightarrow> string option \<Rightarrow> string option"
  ge_opticsData :: "string \<Rightarrow> exn + string option"

text \<open>The subscriptions of the streams are those of the RPCs.\<close>

definition live_of :: "('n, 'u, 'd) system_env \<Rightarrow> 'u live_env" where
  "live_of G = \<lparr>le_recoveryUser = se_recoveryUser (ge_subs G), le_subscribe = se_subscribe (ge_subs G), le_uuid_string = se_uuidString (ge_subs G),
     le_streamUri = netconfStreamRoot, le_sr_terminate = se_terminate (ge_subs G), le_yangTime = ne_yangTime (ge_notif G), le_getData = ge_opticsData G\<rparr>"

section \<open>A handler in the system\<close>

text \<open>A request sees the calls of all requests before it: its own new calls follow the common history.\<close>

definition sr_after :: "'n sr_call list \<Rightarrow> nat \<Rightarrow> 'n sysrepo \<Rightarrow> 'n sysrepo" where
  "sr_after log k sr = \<lparr>sr_data = (\<lambda>cs. sr_data sr (log @ drop k cs)), sr_done = (\<lambda>cs. sr_done sr (log @ drop k cs)),
     sr_permitted = (\<lambda>cs. sr_permitted sr (log @ drop k cs))\<rparr>"

definition env_at :: "('n, 'u, 'd) system_env \<Rightarrow> ('n, 'u) system \<Rightarrow> 'n request_state \<Rightarrow> 'n server_env" where
  "env_at G s rq = (ge_server G)\<lparr>env_sr := sr_after (sy_log s) (length (rq_calls rq)) (env_sr (ge_server G))\<rparr>"

definition enter :: "('n, 'u) system \<Rightarrow> 'n request_state \<Rightarrow> ('n, 'u) world" where
  "enter s rq = \<lparr>w_sess = rq_sess rq, w_calls = rq_calls rq, w_responses = rq_responses rq, w_authDelay = rq_authDelay rq, w_subs = hub_subs (sy_hub s)\<rparr>"

definition leave :: "'n request_state \<Rightarrow> (exn + handler_result) \<Rightarrow> ('n, 'u) world \<Rightarrow> 'n request_state" where
  "leave rq res w = rq\<lparr>rq_sess := w_sess w, rq_calls := w_calls w, rq_responses := w_responses w, rq_authDelay := w_authDelay w,
     rq_pending := (case res of Inr h \<Rightarrow> h | Inl _ \<Rightarrow> Finished)\<rparr>"

text \<open>\<open>i\<close> is the number of the request, the next one for a new request.\<close>

definition conclude :: "nat \<Rightarrow> 'n request_state \<Rightarrow> (exn + handler_result) \<times> ('n, 'u) world \<Rightarrow> ('n, 'u) system \<Rightarrow> ('n, 'u) system" where
  "conclude i rq rw s = (case rw of (res, w) \<Rightarrow>
     s\<lparr>sy_hub := (sy_hub s)\<lparr>hub_subs := w_subs w\<rparr>,
       sy_log := sy_log s @ drop (length (rq_calls rq)) (w_calls w),
       sy_requests := (if i < length (sy_requests s) then (sy_requests s)[i := leave rq res w] else sy_requests s @ [leave rq res w]),
       sy_crashed := (case res of Inl e \<Rightarrow> Some e | Inr _ \<Rightarrow> sy_crashed s)\<rparr>)"

text \<open>\<open>conn.sessionStart\<close> for a new request.\<close>

definition newRequest :: "http_request \<Rightarrow> bool \<Rightarrow> sr_datastore \<Rightarrow> 'n request_state" where
  "newRequest req restconf ds = \<lparr>rq_request = req, rq_restconf = restconf, rq_sess = \<lparr>activeDatastore = ds, nacmUser = None\<rparr>,
     rq_calls = [], rq_responses = [], rq_authDelay = None, rq_pending = Finished\<rparr>"

section \<open>Events\<close>

text \<open>
  A request carries what PAM answers at that moment; a stream request also the time. A chunk of a body that is empty ends it.
\<close>

datatype 'u system_event =
    Restconf_Head http_request "string \<Rightarrow> exn + string"
  | Restconf_Data nat string
  | Streams_Request http_request "string \<Rightarrow> exn + string" nat
  | Yang_Request http_request "string \<Rightarrow> exn + string"
  | Auth_Delay_Over nat
  | Request_Closed nat
  | Nacm_Changed "nacm_rule_list list option"
  | Live_Event "'u hub_event"

definition restconfHead :: "('n, 'u::linorder, 'd::{linorder, zero, one}) system_env \<Rightarrow> http_request \<Rightarrow> (string \<Rightarrow> exn + string) \<Rightarrow> ('n, 'u) system \<Rightarrow> ('n, 'u) system" where
  "restconfHead G req auth s = (let rq = newRequest req True Operational in
     conclude (length (sy_requests s)) rq
       (restconfRoute (env_at G s rq) (ge_stod G) (ge_yangLib G) (ge_anonUser G) auth (sy_nacm s) req (enter s rq)) s)"

text \<open>The rest of a body after a chunk: nghttp2 reports its end once.\<close>

definition dataResult :: "(request_context \<Rightarrow> handler_result) \<Rightarrow> string \<Rightarrow> (exn + request_context) \<times> ('n, 'u) world \<Rightarrow> (exn + handler_result) \<times> ('n, 'u) world" where
  "dataResult await chunk rw = (case rw of
      (Inl e, w) \<Rightarrow> (Inl e, w)
    | (Inr rc, w) \<Rightarrow> (Inr (if chunk = [] then Finished else await rc), w))"

definition restconfData :: "('n, 'u::linorder, 'd) system_env \<Rightarrow> nat \<Rightarrow> string \<Rightarrow> ('n, 'u) system \<Rightarrow> ('n, 'u) system" where
  "restconfData G i chunk s = (let rq = sy_requests s ! i; E = env_at G s rq in
     case rq_pending rq of
       Finished \<Rightarrow> s
     | Await_Write rc \<Rightarrow> conclude i rq (dataResult Await_Write chunk (on_data (processWrite E) chunk rc (enter s rq))) s
     | Await_Rpc rc \<Rightarrow> conclude i rq (dataResult Await_Rpc chunk (on_data (processRpc E (ge_subs G)) chunk rc (enter s rq))) s)"

text \<open>A handler without a body; the stream that the stream route creates joins the others.\<close>

definition finished :: "(exn + unit) \<times> ('n, 'u) world \<Rightarrow> (exn + handler_result) \<times> ('n, 'u) world" where
  "finished rw = (case rw of (Inl e, w) \<Rightarrow> (Inl e, w) | (Inr _, w) \<Rightarrow> (Inr Finished, w))"

definition openedStream :: "('n, 'u) world \<Rightarrow> ('n, 'u) world \<Rightarrow> (stream_source \<times> bool) option" where
  "openedStream w w' =
     (if length (ds_streams (w_subs w')) \<noteq> length (ds_streams (w_subs w)) then Some (Subscribed (hd (ds_streams (w_subs w'))), True)
      else if list_ex (\<lambda>r. case body r of Event_Stream_Body \<Rightarrow> True | _ \<Rightarrow> False) (w_responses w') then Some (Netconf, False)
      else None)"

definition attachStream :: "(stream_source \<times> bool) option \<Rightarrow> ('n, 'u) system \<Rightarrow> ('n, 'u) system" where
  "attachStream opened s = (case opened of
      None \<Rightarrow> s
    | Some (src, waiting) \<Rightarrow> (case addStream src waiting None (sy_hub s) of
        Inl e \<Rightarrow> s\<lparr>sy_crashed := Some e\<rparr>
      | Inr h \<Rightarrow> s\<lparr>sy_hub := h\<rparr>))"

definition streamsRequest :: "('n, 'u, 'd) system_env \<Rightarrow> http_request \<Rightarrow> (string \<Rightarrow> exn + string) \<Rightarrow> nat \<Rightarrow> ('n, 'u) system \<Rightarrow> ('n, 'u) system" where
  "streamsRequest G req auth now s = (let rq = newRequest req False Running;
       rw = streamRoute (env_at G s rq) (ge_subs G) ((ge_notif G)\<lparr>ne_now := now\<rparr>) (ge_uuidOf G) (ge_anonUser G) auth (sy_nacm s) req (enter s rq) in
     attachStream (openedStream (enter s rq) (snd rw)) (conclude (length (sy_requests s)) rq (finished rw) s))"

definition yangRequest :: "('n, 'u, 'd) system_env \<Rightarrow> http_request \<Rightarrow> (string \<Rightarrow> exn + string) \<Rightarrow> ('n, 'u) system \<Rightarrow> ('n, 'u) system" where
  "yangRequest G req auth s = (let rq = newRequest req False Operational in
     conclude (length (sy_requests s)) rq
       (finished (yangRoute (env_at G s rq) (ge_getModule G) (ge_getSubmodule G) (ge_anonUser G) auth (sy_nacm s) req (enter s rq))) s)"

text \<open>The timer of \<open>processAuthError\<close>: the response of the route, in the encoding it had chosen.\<close>

definition authDelayOver :: "('n, 'u, 'd::{linorder, zero, one}) system_env \<Rightarrow> nat \<Rightarrow> ('n, 'u) system \<Rightarrow> ('n, 'u) system" where
  "authDelayOver G i s = (let rq = sy_requests s ! i; req = rq_request rq;
       fmt = (case chooseDataEncoding (ge_stod G) (http_header req) of Inr df \<Rightarrow> df_response df | Inl _ \<Rightarrow> JSON) in
     conclude i rq (finished ((if rq_restconf rq then restconfAuthFailed (env_at G s rq) fmt req else plainAuthFailed)
       (enter s (rq\<lparr>rq_authDelay := None\<rparr>)))) s)"

definition requestClosed :: "nat \<Rightarrow> ('n, 'u) system \<Rightarrow> ('n, 'u) system" where
  "requestClosed i s = s\<lparr>sy_requests := (sy_requests s)[i := (sy_requests s ! i)\<lparr>rq_authDelay := None, rq_pending := Finished\<rparr>]\<rparr>"

text \<open>Exceptions of the callbacks that sysrepo makes are caught by sysrepo-cpp.\<close>

definition nacmChanged :: "('n, 'u, 'd) system_env \<Rightarrow> nacm_rule_list list option \<Rightarrow> ('n, 'u) system \<Rightarrow> ('n, 'u) system" where
  "nacmChanged G data s = (case onModuleChange (ge_anonGroup G) data (sy_nacm s) of Inl _ \<Rightarrow> s | Inr n \<Rightarrow> s\<lparr>sy_nacm := n\<rparr>)"

definition liveEvent :: "('n, 'u::linorder, 'd) system_env \<Rightarrow> 'u hub_event \<Rightarrow> ('n, 'u) system \<Rightarrow> ('n, 'u) system" where
  "liveEvent G e s = (case hub_step (live_of G) e (sy_hub s) of Inl _ \<Rightarrow> s | Inr h \<Rightarrow> s\<lparr>sy_hub := h\<rparr>)"

definition system_step :: "('n, 'u::linorder, 'd::{linorder, zero, one}) system_env \<Rightarrow> 'u system_event \<Rightarrow> ('n, 'u) system \<Rightarrow> ('n, 'u) system" where
  "system_step G e s = (case e of
      Restconf_Head req auth \<Rightarrow> restconfHead G req auth s
    | Restconf_Data i chunk \<Rightarrow> restconfData G i chunk s
    | Streams_Request req auth now \<Rightarrow> streamsRequest G req auth now s
    | Yang_Request req auth \<Rightarrow> yangRequest G req auth s
    | Auth_Delay_Over i \<Rightarrow> authDelayOver G i s
    | Request_Closed i \<Rightarrow> requestClosed i s
    | Nacm_Changed data \<Rightarrow> nacmChanged G data s
    | Live_Event e \<Rightarrow> liveEvent G e s)"

text \<open>Subscriptions are established, deleted and consumed by requests only.\<close>

definition not_by_request :: "'u hub_event \<Rightarrow> bool" where
  "not_by_request e = (case e of
      Connect_Netconf \<Rightarrow> False | Connect_Subscribed _ _ \<Rightarrow> False | Establish _ _ _ _ _ _ \<Rightarrow> False | Delete _ _ _ _ \<Rightarrow> False | _ \<Rightarrow> True)"

definition system_enabled :: "'u system_event \<Rightarrow> ('n, 'u) system \<Rightarrow> bool" where
  "system_enabled e s \<longleftrightarrow> sy_crashed s = None \<and> (case e of
      Restconf_Data i _ \<Rightarrow> i < length (sy_requests s) \<and> rq_pending (sy_requests s ! i) \<noteq> Finished
    | Auth_Delay_Over i \<Rightarrow> i < length (sy_requests s) \<and> rq_authDelay (sy_requests s ! i) \<noteq> None
    | Request_Closed i \<Rightarrow> i < length (sy_requests s)
    | Live_Event l \<Rightarrow> hub_enabled l (sy_hub s) \<and> not_by_request l
    | _ \<Rightarrow> True)"

text \<open>Runs from the start, with the NACM configuration and the telemetry data of that time.\<close>

inductive system_run ::
  "('n, 'u::linorder, 'd::{linorder, zero, one}) system_env \<Rightarrow> nacm \<Rightarrow> optical_events \<Rightarrow> 'u system_event list \<Rightarrow> ('n, 'u) system \<Rightarrow> bool"
  for G nacm oe where
  start: "system_run G nacm oe [] (system_init nacm oe)"
| event: "system_run G nacm oe tr s \<Longrightarrow> system_enabled e s \<Longrightarrow> system_run G nacm oe (tr @ [e]) (system_step G e s)"

end
