(* ===== verification/Server_System_Laws.thy ===== *)
theory Server_System_Laws
  imports Server_System Server_Policy Live_Service_Laws
begin

text \<open>
  What requests do to the rest of the system: every request is, for the streams and the table of subscriptions, a sequence of events of
  \<open>Live_Streams\<close>, and everything that a user can cause goes back to a request of that user that was authorized.
\<close>

section \<open>Requests and the table of subscriptions\<close>

lemma restconfRoute_subs: "w_subs (snd (restconfRoute E stod lib anonUser authenticate nacm req w)) = w_subs w"
  using keepsD [OF same_subs.keeps_restconfRoute] by blast

lemma yangRoute_subs: "w_subs (snd (yangRoute E gm gs anonUser authenticate nacm req w)) = w_subs w"
  using keepsD [OF same_subs.keeps_yangRoute] by blast

lemma processWrite_subs: "w_subs (snd (on_data (processWrite E) chunk rc w)) = w_subs w"
  using keepsD [OF same_subs.keeps_on_write] by blast

text \<open>RPCs change it by its operations, as the user of the session.\<close>

inductive rpc_step :: "'u::linorder subs_env \<Rightarrow> string option \<Rightarrow> 'u dyn_subs \<Rightarrow> 'u dyn_subs \<Rightarrow> bool" for SE user where
  establish: "establishSubscription (se_subscribe SE) (se_uuidString SE) netconfStreamRoot user uid schemeAndHost enc inp out s = Inr (s', out') \<Longrightarrow>
    rpc_step SE user s s'"
| delete: "deleteSubscription (se_recoveryUser SE) (se_terminate SE) user isKill i p s = Inr s' \<Longrightarrow> rpc_step SE user s s'"

definition rpc_inv :: "'u::linorder subs_env \<Rightarrow> string option \<Rightarrow> 'u dyn_subs \<Rightarrow> ('n, 'u) world \<Rightarrow> bool" where
  "rpc_inv SE user d w \<longleftrightarrow> nacmUser (w_sess w) = user \<and> (rpc_step SE user)\<^sup>*\<^sup>* d (w_subs w)"

lemma rpc_inv_step: "rpc_inv SE user d w \<Longrightarrow> rpc_step SE user (w_subs w) s \<Longrightarrow> rpc_inv SE user d (w\<lparr>w_subs := s\<rparr>)"
  by (auto simp: rpc_inv_def intro: rtranclp.rtrancl_into_rtrancl)

interpretation rpc_subs: rpc_frame "rpc_inv SE user d" SE for SE user d
proof unfold_locales
  have user: "rpc_inv SE user d w \<Longrightarrow> nacmUser (w_sess w) = user" for w by (simp add: rpc_inv_def)
  show "keeps (rpc_inv SE user d) (rpcEstablish E SE sh fmt t p)" for E sh fmt t p
    unfolding rpcEstablish_def
    by (intro keeps_bindA keeps_liftE keepsI)
      (auto simp: user split: sum.split prod.split intro!: rpc_inv_step intro: rpc_step.establish)
  show "keeps (rpc_inv SE user d) (rpcDelete E SE t p)" for E t p
    unfolding rpcDelete_def
    by (intro keeps_bindA keeps_liftE keepsI)
      (auto simp: user split: sum.split intro!: rpc_inv_step intro: rpc_step.delete)
qed (simp_all add: rpc_inv_def record_call_def switchDatastore_def)

lemma processRpc_subs:
  "(rpc_step SE (nacmUser (w_sess w)))\<^sup>*\<^sup>* (w_subs w) (w_subs (snd (on_data (processRpc E SE) chunk rc w)))"
proof -
  have "rpc_inv SE (nacmUser (w_sess w)) (w_subs w) w" by (simp add: rpc_inv_def)
  from keepsD [OF rpc_subs.keeps_on_rpc this] show ?thesis by (simp only: rpc_inv_def simp_thms)
qed

text \<open>The stream route changes it by connecting a client.\<close>

lemma streamRoute_subs:
  fixes w :: "('n, 'u) world"
  assumes "streamRoute E SE NE uuidOf anonUser authenticate nacm req w = (res, w')"
  shows "w_subs w' = w_subs w \<or> (\<exists>sess uid a. authorizeRequest anonUser authenticate nacm (w_sess w) (http_header req) = Inr sess \<and>
    connect_stream (se_recoveryUser SE) uid (nacmUser sess) (w_subs w) = Inr (a, w_subs w'))"
proof -
  let ?rp = "asRestconfStreamRequest (env_what E) uuidOf (http_method req) (http_path req) (http_raw_query req)"
  let ?body = "bindA (authorizeSession anonUser authenticate nacm req) (\<lambda>_. bindA (liftE ?rp) (handleStream E SE NE))"
  have handle: "w_subs (snd (handleStream E SE NE rp v)) = w_subs v \<or>
      (\<exists>uid a. connect_stream (se_recoveryUser SE) uid (nacmUser (w_sess v)) (w_subs v) = Inr (a, w_subs (snd (handleStream E SE NE rp v))))" for rp and v :: "('n, 'u) world"
  proof -
    have "keeps (\<lambda>w. w_subs w = w_subs v) (handleStream E SE NE (NotificationStreamRequest stream enc, ps))" for stream enc ps
      by (auto simp: handleStream_def intro!: keeps_intros same_subs.reading.keeps_NotificationStream)
    from keepsD [OF this] show ?thesis
      by (cases rp; cases "fst rp") (auto simp: handleStream_def connectStream_def respond_def split: sum.splits)
  qed
  show ?thesis
  proof (cases "http_method req = ''OPTIONS''")
    case False
    then have "w_subs w' = w_subs (snd (?body w))" using assms catchA_same_subs [of ?body w] by (simp add: streamRoute_def)
    moreover have "w_subs (snd (?body w)) = w_subs w \<or> (\<exists>sess rp. authorizeRequest anonUser authenticate nacm (w_sess w) (http_header req) = Inr sess \<and>
        w_subs (snd (?body w)) = w_subs (snd (handleStream E SE NE rp (w\<lparr>w_sess := sess\<rparr>))))"
      by (auto simp: bindA_def authorizeSession_def split: sum.split)
    ultimately show ?thesis using handle [of _ "w\<lparr>w_sess := _\<rparr>"] by (auto) (metis (no_types) world.select_convs)
  qed (use assms in \<open>auto simp: streamRoute_def respond_def\<close>)
qed

section \<open>Requests and authorization\<close>

text \<open>The calls of the routes for streams and schemas.\<close>

lemma keeps_handleStream: "keeps (reading user) (handleStream E SE NE rp)"
proof -
  have "keeps (reading user) (connectStream SE uid)" for uid
    by (rule keepsI) (auto simp: connectStream_def respond_def policy_inv_def split: sum.split prod.split)
  then show ?thesis
    unfolding handleStream_def by (intro keeps_intros) (auto intro!: keeps_intros reader.keeps_NotificationStream split: stream_request.splits)
qed

lemma plain_route_calls:
  assumes "w_calls w = []" and act: "\<And>user. keeps (reading user) act"
    and "catchA (bindA (authorizeSession anonUser authenticate nacm req) (\<lambda>_. act)) plainCatch w = (res, w')"
  shows "w_calls w' = [] \<or> (\<exists>sess. authorizeRequest anonUser authenticate nacm (w_sess w) (http_header req) = Inr sess \<and> reading (nacmUser sess) w')"
proof (cases "authorizeRequest anonUser authenticate nacm (w_sess w) (http_header req)")
  case (Inl e)
  have "policy_inv (\<lambda>_. True) (\<lambda>_. False) w" using assms(1) by (simp add: policy_inv_def)
  then have "policy_inv (\<lambda>_. True) (\<lambda>_. False) w'"
    using assms(3) Inl keepsD [OF silent.keeps_plainCatch]
    by (auto simp: catchA_def bindA_def authorizeSession_def split: option.splits) fastforce
  then show ?thesis by (simp add: policy_inv_def)
next
  case (Inr sess)
  let ?w = "w\<lparr>w_sess := sess\<rparr>"
  have "reading (nacmUser sess) (snd (act ?w))" by (rule keepsD [OF act]) (simp add: policy_inv_def assms(1))
  then have "reading (nacmUser sess) w'"
    using assms(3) Inr keepsD [OF reader.keeps_plainCatch]
    by (auto simp: catchA_def bindA_def authorizeSession_def split: option.splits prod.splits sum.splits) fastforce
  then show ?thesis using Inr by blast
qed

lemma silent_respond: "w_calls w = [] \<Longrightarrow> w_calls (snd (respond st hs b w)) = []"
  by (simp add: respond_def)

lemma streamRoute_calls:
  assumes "w_calls w = []" and "streamRoute E SE NE uuidOf anonUser authenticate nacm req w = (res, w')"
  shows "w_calls w' = [] \<or> (\<exists>sess. authorizeRequest anonUser authenticate nacm (w_sess w) (http_header req) = Inr sess \<and> reading (nacmUser sess) w')"
proof (cases "http_method req = ''OPTIONS''")
  case False
  have "keeps (reading user) (bindA (liftE rp) (handleStream E SE NE))" for user rp
    by (intro keeps_intros keeps_handleStream)
  from plain_route_calls [OF assms(1) this] show ?thesis using assms(2) False by (auto simp: streamRoute_def)
qed (use assms silent_respond [OF assms(1)] in \<open>auto simp: streamRoute_def respond_def\<close>)

lemma yangRoute_calls:
  assumes "w_calls w = []" and "yangRoute E gm gs anonUser authenticate nacm req w = (res, w')"
  shows "w_calls w' = [] \<or> (\<exists>sess. authorizeRequest anonUser authenticate nacm (w_sess w) (http_header req) = Inr sess \<and> reading (nacmUser sess) w')"
proof (cases "http_method req = ''OPTIONS'' \<or> http_method req \<noteq> ''GET'' \<and> http_method req \<noteq> ''HEAD''")
  case False
  show ?thesis
    by (rule plain_route_calls [OF assms(1)], rule_tac [2] assms(2) [unfolded yangRoute_def if_not_P [OF False]])
      (auto intro!: keeps_intros reader.keeps_hasAccessToYangSchema reader.keeps_respond split: module_or_submodule.splits)
qed (use assms silent_respond [OF assms(1)] in \<open>auto simp: yangRoute_def respond_def\<close>)

section \<open>Calls of the system\<close>

text \<open>The request an event begins, what PAM answers and the datastore of its session.\<close>

definition request_of :: "'u system_event \<Rightarrow> (http_request \<times> (string \<Rightarrow> exn + string) \<times> sr_datastore) option" where
  "request_of e = (case e of
      Restconf_Head req auth \<Rightarrow> Some (req, auth, Operational)
    | Streams_Request req auth now \<Rightarrow> Some (req, auth, Running)
    | Yang_Request req auth \<Rightarrow> Some (req, auth, Operational)
    | _ \<Rightarrow> None)"

text \<open>The event begins a request which is authorized as the user, with the NACM configuration of that moment.\<close>

definition authorises :: "('n, 'u, 'd) system_env \<Rightarrow> ('n, 'u) system \<Rightarrow> 'u system_event \<Rightarrow> string option \<Rightarrow> bool" where
  "authorises G s e user = (case request_of e of
      None \<Rightarrow> False
    | Some (req, auth, ds) \<Rightarrow> (case authorizeRequest (ge_anonUser G) auth (sy_nacm s) \<lparr>activeDatastore = ds, nacmUser = None\<rparr> (http_header req) of
        Inl _ \<Rightarrow> False
      | Inr sess \<Rightarrow> nacmUser sess = user))"

text \<open>Request \<open>i\<close> of the run was authorized as the user.\<close>

definition authorised_request where
  "authorised_request G nacm oe tr i user \<longleftrightarrow>
     (\<exists>tr1 e tr2 s. tr = tr1 @ e # tr2 \<and> system_run G nacm oe tr1 s \<and> length (sy_requests s) = i \<and> authorises G s e user)"

lemma authorised_request_mono: "authorised_request G nacm oe tr i user \<Longrightarrow> authorised_request G nacm oe (tr @ tr') i user"
  unfolding authorised_request_def by fastforce

lemma authorised_request_new:
  "system_run G nacm oe tr s \<Longrightarrow> authorises G s e user \<Longrightarrow> authorised_request G nacm oe (tr @ [e]) (length (sy_requests s)) user"
  unfolding authorised_request_def by blast

text \<open>Handlers only add calls.\<close>

interpretation grows: route_frame "\<lambda>w. prefix cs (w_calls w)" for cs
  by unfold_locales (auto simp: record_call_def prefix_def)

interpretation grows_rpc: rpc_frame "\<lambda>w. prefix cs (w_calls w)" SE for cs SE
  by unfold_locales
    (simp_all add: rpcEstablish_def rpcDelete_def keeps_bindA keeps_liftE keeps_def bindA_def record_call_def split: prod.split sum.split)

text \<open>
  The invariant: a request that did or can still do something was authorized, its calls are those of its user, and it writes to a
  writable datastore; every call in the history is a call of some request.
\<close>

definition request_ok :: "(string option \<Rightarrow> bool) \<Rightarrow> 'n request_state \<Rightarrow> bool" where
  "request_ok A rq \<longleftrightarrow> rq_calls rq = [] \<and> rq_pending rq = Finished \<or>
     A (nacmUser (rq_sess rq)) \<and> (\<forall>c \<in> set (rq_calls rq). authorised_call (nacmUser (rq_sess rq)) c) \<and>
     (\<forall>rc. rq_pending rq = Await_Write rc \<longrightarrow> activeDatastore (rq_sess rq) \<notin> {Operational, FactoryDefault})"

definition system_inv :: "(nat \<Rightarrow> string option \<Rightarrow> bool) \<Rightarrow> ('n, 'u) system \<Rightarrow> bool" where
  "system_inv A s \<longleftrightarrow> (\<forall>i < length (sy_requests s). request_ok (A i) (sy_requests s ! i)) \<and>
     set (sy_log s) = (\<Union>rq \<in> set (sy_requests s). set (rq_calls rq))"

lemma request_ok_mono: "request_ok A rq \<Longrightarrow> (\<And>user. A user \<Longrightarrow> A' user) \<Longrightarrow> request_ok A' rq"
  by (auto simp: request_ok_def)

lemma system_inv_mono: "system_inv A s \<Longrightarrow> (\<And>i user. A i user \<Longrightarrow> A' i user) \<Longrightarrow> system_inv A' s"
  by (auto simp: system_inv_def intro: request_ok_mono)

lemma conclude_new:
  assumes "system_inv A s" and "request_ok (A (length (sy_requests s))) (leave rq res w)" and "rq_calls rq = []"
  shows "system_inv A (conclude (length (sy_requests s)) rq (res, w) s)"
  using assms by (auto simp: system_inv_def conclude_def nth_append less_Suc_eq leave_def)

lemma conclude_known:
  assumes "system_inv A s" and i: "i < length (sy_requests s)" and "request_ok (A i) (leave rq (fst rw) (snd rw))"
    and "rq_calls rq = rq_calls (sy_requests s ! i)" and "prefix (rq_calls rq) (w_calls (snd rw))"
  shows "system_inv A (conclude i rq rw s)"
proof -
  obtain res w where rw: "rw = (res, w)" by fastforce
  let ?rqs = "sy_requests s" and ?new = "drop (length (rq_calls rq)) (w_calls w)"
  have calls: "rq_calls (leave rq res w) = rq_calls (?rqs ! i) @ ?new" using assms(4,5) rw by (auto simp: leave_def prefix_def)
  have "(\<Union>r \<in> set (?rqs[i := leave rq res w]). set (rq_calls r)) = (\<Union>r \<in> set ?rqs. set (rq_calls r)) \<union> set ?new"
  proof -
    have nth: "(\<Union>r \<in> set xs. f r) = (\<Union>j < length xs. f (xs ! j))" for f and xs :: "'a request_state list"
      by (auto simp: set_conv_nth)
    show ?thesis unfolding nth using i calls by (auto simp: nth_list_update split: if_splits)
  qed
  then show ?thesis using assms(1,3) i rw by (auto simp: system_inv_def conclude_def nth_list_update)
qed

text \<open>Each kind of event.\<close>

lemma authorises_simps [simp]:
  "authorises G s (Restconf_Head req auth) user \<longleftrightarrow>
    (\<exists>sess. authorizeRequest (ge_anonUser G) auth (sy_nacm s) \<lparr>activeDatastore = Operational, nacmUser = None\<rparr> (http_header req) = Inr sess \<and> nacmUser sess = user)"
  "authorises G s (Streams_Request req auth now) user \<longleftrightarrow>
    (\<exists>sess. authorizeRequest (ge_anonUser G) auth (sy_nacm s) \<lparr>activeDatastore = Running, nacmUser = None\<rparr> (http_header req) = Inr sess \<and> nacmUser sess = user)"
  "authorises G s (Yang_Request req auth) user \<longleftrightarrow>
    (\<exists>sess. authorizeRequest (ge_anonUser G) auth (sy_nacm s) \<lparr>activeDatastore = Operational, nacmUser = None\<rparr> (http_header req) = Inr sess \<and> nacmUser sess = user)"
  by (auto simp: authorises_def request_of_def split: sum.split)

lemma enter_simps [simp]:
  "w_sess (enter s rq) = rq_sess rq" "w_calls (enter s rq) = rq_calls rq" "w_subs (enter s rq) = hub_subs (sy_hub s)"
  by (simp_all add: enter_def)

lemma newRequest_simps [simp]:
  "rq_calls (newRequest req r ds) = []" "rq_sess (newRequest req r ds) = \<lparr>activeDatastore = ds, nacmUser = None\<rparr>"
  by (simp_all add: newRequest_def)

lemma snd_results [simp]: "snd (dataResult await chunk rw) = snd rw" "snd (finished rw') = snd rw'"
  by (auto simp: dataResult_def finished_def split: prod.split sum.split)

lemma request_ok_reading: "reading user w \<Longrightarrow> A user \<Longrightarrow> (\<And>rc. res = Inr (Await_Write rc) \<Longrightarrow> writing user w) \<Longrightarrow> request_ok A (leave rq res w)"
  by (auto simp: request_ok_def leave_def policy_inv_def split: sum.splits)

lemma request_ok_silent: "w_calls w = [] \<Longrightarrow> (\<And>h. res = Inr h \<Longrightarrow> h = Finished) \<Longrightarrow> request_ok A (leave rq res w)"
  by (auto simp: request_ok_def leave_def split: sum.splits)

lemma finished_Finished: "finished rw = (Inr h, w) \<Longrightarrow> h = Finished"
  by (auto simp: finished_def split: prod.splits sum.splits)

lemma restconfHead_inv:
  assumes "system_inv A s" and "\<And>user. authorises G s (Restconf_Head req auth) user \<Longrightarrow> A (length (sy_requests s)) user"
  shows "system_inv A (restconfHead G req auth s)"
proof -
  let ?rq = "newRequest req True Operational"
  obtain res w where r: "restconfRoute (env_at G s ?rq) (ge_stod G) (ge_yangLib G) (ge_anonUser G) auth (sy_nacm s) req (enter s ?rq) = (res, w)" by fastforce
  have "request_ok (A (length (sy_requests s))) (leave ?rq res w)"
    using restconfRoute_cases [OF enter_simps(2) [THEN trans, OF newRequest_simps(1)] r] assms(2) unfolding after_route_def
    by (elim disjE exE conjE) (auto intro: request_ok_reading request_ok_silent)
  then show ?thesis using conclude_new [OF assms(1)] r by (simp add: restconfHead_def)
qed

lemma finished_inv:
  assumes "system_inv A s" and "rq_calls rq = []" and "w_calls (snd rw) = [] \<or> (\<exists>user. A (length (sy_requests s)) user \<and> reading user (snd rw))"
  shows "system_inv A (conclude (length (sy_requests s)) rq (finished rw) s)"
proof -
  obtain res w where f: "finished rw = (res, w)" by fastforce
  then have "w = snd rw" by (metis snd_conv snd_results(2))
  then have "request_ok (A (length (sy_requests s))) (leave rq res w)"
    using assms(3) f finished_Finished by (fastforce intro: request_ok_reading request_ok_silent)
  then show ?thesis unfolding f by (rule conclude_new [OF assms(1) _ assms(2)])
qed

lemma yangRequest_inv:
  assumes "system_inv A s" and "\<And>user. authorises G s (Yang_Request req auth) user \<Longrightarrow> A (length (sy_requests s)) user"
  shows "system_inv A (yangRequest G req auth s)"
proof -
  let ?rq = "newRequest req False Operational"
  let ?r = "yangRoute (env_at G s ?rq) (ge_getModule G) (ge_getSubmodule G) (ge_anonUser G) auth (sy_nacm s) req (enter s ?rq)"
  have "w_calls (snd ?r) = [] \<or> (\<exists>user. A (length (sy_requests s)) user \<and> reading user (snd ?r))"
    using yangRoute_calls [of "enter s ?rq"] assms(2) by (metis authorises_simps(3) enter_simps(1,2) newRequest_simps prod.collapse)
  then show ?thesis unfolding yangRequest_def Let_def
    by (intro finished_inv [OF assms(1)]) simp_all
qed

lemma streamsRequest_inv:
  assumes "system_inv A s" and "\<And>user. authorises G s (Streams_Request req auth now) user \<Longrightarrow> A (length (sy_requests s)) user"
  shows "system_inv A (streamsRequest G req auth now s)"
proof -
  let ?rq = "newRequest req False Running"
  let ?r = "streamRoute (env_at G s ?rq) (ge_subs G) ((ge_notif G)\<lparr>ne_now := now\<rparr>) (ge_uuidOf G) (ge_anonUser G) auth (sy_nacm s) req (enter s ?rq)"
  have "w_calls (snd ?r) = [] \<or> (\<exists>user. A (length (sy_requests s)) user \<and> reading user (snd ?r))"
    using streamRoute_calls [of "enter s ?rq"] assms(2) by (metis authorises_simps(2) enter_simps(1,2) newRequest_simps prod.collapse)
  then have "system_inv A (conclude (length (sy_requests s)) ?rq (finished ?r) s)"
    by (intro finished_inv [OF assms(1)]) simp_all
  moreover have "system_inv A (attachStream opened s')  = system_inv A s'" for opened and s' :: "('a, 'b) system"
    by (simp add: attachStream_def system_inv_def split: option.split sum.split prod.split)
  ultimately show ?thesis by (simp add: streamsRequest_def Let_def)
qed

lemma restconfData_inv:
  assumes inv: "system_inv A s" and i: "i < length (sy_requests s)"
  shows "system_inv A (restconfData G i chunk s)"
proof -
  let ?rq = "sy_requests s ! i" and ?w = "enter s (sy_requests s ! i)"
  let ?user = "nacmUser (rq_sess ?rq)"
  have ok: "request_ok (A i) ?rq" using inv i by (simp add: system_inv_def)
  show ?thesis
  proof (cases "rq_pending ?rq")
    case (Await_Write rc)
    let ?r = "on_data (processWrite (env_at G s ?rq)) chunk rc ?w"
    have w: "writing ?user ?w" "A i ?user" using ok Await_Write by (auto simp: request_ok_def policy_inv_def)
    note w' = keepsD [OF writer.keeps_on_write w(1), of "env_at G s ?rq" chunk rc]
    have "request_ok (A i) (leave ?rq (fst (dataResult Await_Write chunk ?r)) (snd ?r))"
      by (rule request_ok_reading [where A = "A i", OF writing_reading [OF w'] w(2)]) (rule w')
    then show ?thesis using conclude_known [OF inv i, of ?rq "dataResult Await_Write chunk ?r"]
        keepsD [OF grows.keeps_on_write, of "rq_calls ?rq" ?w] Await_Write by (simp add: restconfData_def Let_def del: on_data.simps)
  next
    case (Await_Rpc rc)
    let ?r = "on_data (processRpc (env_at G s ?rq) (ge_subs G)) chunk rc ?w"
    have r: "reading ?user ?w" "A i ?user" using ok Await_Rpc by (auto simp: request_ok_def policy_inv_def)
    have "fst (dataResult Await_Rpc chunk ?r) \<noteq> Inr (Await_Write rc')" for rc' by (auto simp: dataResult_def split: prod.split sum.split)
    then have "request_ok (A i) (leave ?rq (fst (dataResult Await_Rpc chunk ?r)) (snd ?r))"
      using request_ok_reading [where A = "A i", OF keepsD [OF reader.rpc.keeps_on_rpc r(1)] r(2)] by blast
    then show ?thesis using conclude_known [OF inv i, of ?rq "dataResult Await_Rpc chunk ?r"]
        keepsD [OF grows_rpc.keeps_on_rpc, of "rq_calls ?rq" ?w] Await_Rpc by (simp add: restconfData_def Let_def del: on_data.simps)
  qed (use inv in \<open>simp add: restconfData_def\<close>)
qed

lemma authDelayOver_inv:
  fixes s :: "('n, 'u) system"
  assumes inv: "system_inv A s" and i: "i < length (sy_requests s)"
  shows "system_inv A (authDelayOver G i s)"
proof -
  let ?rq = "sy_requests s ! i"
  let ?w = "enter s (?rq\<lparr>rq_authDelay := None\<rparr>)"
  define m :: "('n, 'u, unit) server_action" where "m = (if rq_restconf ?rq then restconfAuthFailed (env_at G s ?rq)
      (case chooseDataEncoding (ge_stod G) (http_header (rq_request ?rq)) of Inr df \<Rightarrow> df_response df | Inl _ \<Rightarrow> JSON) (rq_request ?rq) else plainAuthFailed)"
  have m: "keeps (\<lambda>w. prefix cs (w_calls w)) m" "keeps (reading user) m" "keeps (policy_inv (\<lambda>_. True) (\<lambda>_. False)) m" for cs user
    by (auto simp: m_def restconfAuthFailed_def plainAuthFailed_def
        intro: grows.keeps_rejectWithError grows.keeps_respond reader.keeps_rejectWithError reader.keeps_respond silent.keeps_rejectWithError silent.keeps_respond)
  obtain res w where r: "finished (m ?w) = (res, w)" by fastforce
  then have w: "w = snd (m ?w)" by (metis snd_conv snd_results(2))
  have "request_ok (A i) ?rq" using inv i by (simp add: system_inv_def)
  then consider "rq_calls ?rq = []" | "A i (nacmUser (rq_sess ?rq))" "reading (nacmUser (rq_sess ?rq)) ?w"
    unfolding request_ok_def policy_inv_def by auto
  then have "request_ok (A i) (leave ?rq res w)"
  proof cases
    case 1
    then have "w_calls w = []" using keepsD [OF m(3), of ?w] w by (simp add: policy_inv_def)
    then show ?thesis by (rule request_ok_silent) (use r finished_Finished in blast)
  next
    case 2
    show ?thesis by (rule request_ok_reading [where A = "A i", OF _ 2(1)]) (use keepsD [OF m(2) 2(2)] w r finished_Finished in fastforce)+
  qed
  then show ?thesis using conclude_known [OF inv i, of ?rq "finished (m ?w)"] keepsD [OF m(1), of "rq_calls ?rq" ?w] r w
    by (simp add: authDelayOver_def Let_def m_def)
qed

lemma requestClosed_inv:
  assumes inv: "system_inv A s" and i: "i < length (sy_requests s)"
  shows "system_inv A (requestClosed i s)"
proof -
  let ?rq = "(sy_requests s ! i)\<lparr>rq_authDelay := None, rq_pending := Finished\<rparr>"
  have "request_ok (A i) ?rq" using inv i by (auto simp: system_inv_def request_ok_def)
  moreover have "(\<Union>r \<in> set ((sy_requests s)[i := ?rq]). set (rq_calls r)) = (\<Union>r \<in> set (sy_requests s). set (rq_calls r))"
  proof -
    have calls: "(\<Union>r \<in> set xs. set (rq_calls r)) = \<Union> (set ` set (map rq_calls xs))" for xs :: "'a request_state list" by simp
    show ?thesis unfolding calls by (subst map_update_same) (simp_all add: i)
  qed
  ultimately show ?thesis using inv i by (simp add: system_inv_def requestClosed_def nth_list_update)
qed

lemma system_step_inv:
  assumes "system_inv A s" and "system_enabled e s" and "\<And>user. authorises G s e user \<Longrightarrow> A (length (sy_requests s)) user"
  shows "system_inv A (system_step G e s)"
proof -
  have same: "system_inv A (nacmChanged G data s)" "system_inv A (liveEvent G l s)" for data l
    using assms(1) by (simp_all add: system_inv_def nacmChanged_def liveEvent_def split: sum.split)
  note steps = restconfHead_inv restconfData_inv streamsRequest_inv yangRequest_inv authDelayOver_inv requestClosed_inv
  show ?thesis using assms(2,3) by (cases e) (simp_all add: system_step_def system_enabled_def steps [OF assms(1)] same del: authorises_simps)
qed

lemma system_run_inv: "system_run G nacm oe tr s \<Longrightarrow> system_inv (authorised_request G nacm oe tr) s"
proof (induction rule: system_run.induct)
  case (event tr s e)
  show ?case
    by (rule system_step_inv [OF system_inv_mono [OF event.IH] event.hyps(2)])
      (simp_all add: authorised_request_mono authorised_request_new [OF event.hyps(1)])
qed (simp add: system_inv_def system_init_def)

text \<open>Every call to sysrepo goes back to a request that was authorized as its user.\<close>

lemma system_run_calls:
  assumes "system_run G nacm oe tr s" and "c \<in> set (sy_log s)"
  shows "\<exists>i < length (sy_requests s). c \<in> set (rq_calls (sy_requests s ! i)) \<and>
    authorised_request G nacm oe tr i (call_user c) \<and> authorised_call (call_user c) c"
proof -
  note inv = system_run_inv [OF assms(1)]
  obtain i where i: "i < length (sy_requests s)" "c \<in> set (rq_calls (sy_requests s ! i))"
    using inv assms(2) unfolding system_inv_def by (auto simp: set_conv_nth [of "sy_requests s"])
  then have "request_ok (authorised_request G nacm oe tr i) (sy_requests s ! i)" using inv by (simp add: system_inv_def)
  then show ?thesis using i by (auto simp: request_ok_def authorised_call_def)
qed

end
