(* ===== verification/Server_System_Streams.thy ===== *)
theory Server_System_Streams
  imports Server_System_Laws
begin

text \<open>
  The streams and subscriptions of the system are those of a run of \<open>Live_Streams\<close>, in which every event of a user goes
  back to a request that was authorized as that user.
\<close>

section \<open>Requests as events of the streams\<close>

text \<open>What a request of a user can do to streams and subscriptions.\<close>

definition requested :: "string option \<Rightarrow> 'u hub_event \<Rightarrow> bool" where
  "requested user e = (case e of
      Establish u _ _ _ _ _ \<Rightarrow> u = user | Delete u _ _ _ \<Rightarrow> u = user | Connect_Subscribed _ u \<Rightarrow> u = user | Connect_Netconf \<Rightarrow> True | _ \<Rightarrow> False)"

lemma requested_quiet: "requested user e \<Longrightarrow> written a [e] = []" "requested user e \<Longrightarrow> e \<noteq> Stop"
  by (auto simp: requested_def written_def map_filter_simps split: hub_event.splits)

lemma rpc_steps_hub:
  assumes "(rpc_step (ge_subs G) user)\<^sup>*\<^sup>* (hub_subs h) subs" and "hub_run (live_of G) htr h"
  shows "\<exists>htr'. hub_run (live_of G) (htr @ htr') (h\<lparr>hub_subs := subs\<rparr>) \<and> (\<forall>e \<in> set htr'. requested user e)"
  using assms(1)
proof (induction rule: rtranclp_induct)
  case base
  show ?case using assms(2) by (intro exI [of _ "[]"]) simp
next
  case (step s s')
  then obtain htr' where IH: "hub_run (live_of G) (htr @ htr') (h\<lparr>hub_subs := s\<rparr>)" "\<forall>e \<in> set htr'. requested user e" by blast
  have "\<exists>e. requested user e \<and> hub_enabled e (h\<lparr>hub_subs := s\<rparr>) \<and> hub_step (live_of G) e (h\<lparr>hub_subs := s\<rparr>) = Inr (h\<lparr>hub_subs := s'\<rparr>)"
    using step(2)
  proof cases
    case (establish uid sh enc inp out out')
    then show ?thesis by (intro exI [of _ "Establish user uid sh enc inp out"]) (simp add: requested_def hub_enabled_def hub_step_def live_of_def)
  next
    case (delete isKill i p)
    then show ?thesis by (intro exI [of _ "Delete user isKill i p"]) (simp add: requested_def hub_enabled_def hub_step_def live_of_def)
  qed
  then obtain e where "requested user e" "hub_run (live_of G) ((htr @ htr') @ [e]) (h\<lparr>hub_subs := s'\<rparr>)" using hub_run.event [OF IH(1)] by blast
  then show ?case using IH(2) by (intro exI [of _ "htr' @ [e]"]) simp
qed

lemma conclude_hub: "sy_hub (conclude i rq rw s) = (sy_hub s)\<lparr>hub_subs := w_subs (snd rw)\<rparr>"
  by (simp add: conclude_def split: prod.split)

lemma attachStream_hub:
  assumes "addStream src waiting None (sy_hub s) = Inr h"
  shows "sy_hub (attachStream (Some (src, waiting)) s) = h"
  using assms by (simp add: attachStream_def)

text \<open>A response that is a stream is only given to an authorized request.\<close>

definition is_stream :: "'n http_response \<Rightarrow> bool" where
  "is_stream r = (case body r of Event_Stream_Body \<Rightarrow> True | _ \<Rightarrow> False)"

lemma unauthorised_no_stream:
  assumes "authorizeRequest anonUser auth nacm (w_sess w) (http_header req) = Inl e" and "w_responses w = []"
  shows "\<not> list_ex is_stream (w_responses (snd (streamRoute E SE NE uuidOf anonUser auth nacm req w)))"
  using assms
  by (auto simp: streamRoute_def respond_def catchA_def bindA_def authorizeSession_def plainCatch_def rejectAuth_def plainAuthFailed_def plainError_def
      is_stream_def split: exn.splits option.splits)

lemma streamsRequest_hub:
  fixes G :: "('n, 'u::linorder, 'd) system_env" and s :: "('n, 'u) system"
  assumes run: "hub_run (live_of G) htr (sy_hub s)"
  shows "\<exists>htr'. hub_run (live_of G) (htr @ htr') (sy_hub (streamsRequest G req auth now s)) \<and>
    (\<forall>e \<in> set htr'. \<exists>user. authorises G s (Streams_Request req auth now) user \<and> requested user e)"
proof -
  let ?rq = "newRequest req False Running :: 'n request_state" and ?L = "live_of G" and ?h = "sy_hub s"
  let ?r = "streamRoute (env_at G s ?rq) (ge_subs G) ((ge_notif G)\<lparr>ne_now := now\<rparr>) (ge_uuidOf G) (ge_anonUser G) auth (sy_nacm s) req (enter s ?rq)"
  let ?s = "conclude (length (sy_requests s)) ?rq (finished ?r) s"
  have result: "streamsRequest G req auth now s = attachStream (openedStream (enter s ?rq) (snd ?r)) ?s" by (simp add: streamsRequest_def Let_def)
  have one: "\<exists>htr'. hub_run ?L (htr @ htr') h \<and> (\<forall>e \<in> set htr'. \<exists>user. authorises G s (Streams_Request req auth now) user \<and> requested user e)"
    if "hub_enabled e ?h" "hub_step ?L e ?h = Inr h" "authorises G s (Streams_Request req auth now) user" "requested user e" for e h user
    using hub_run.event [OF run that(1,2)] that(3,4) by (intro exI [of _ "[e]"]) auto
  obtain res w' where r: "?r = (res, w')" by fastforce
  consider (same) "w_subs (snd ?r) = hub_subs ?h"
    | (connect) sess uid a where "authorizeRequest (ge_anonUser G) auth (sy_nacm s) (rq_sess ?rq) (http_header req) = Inr sess"
        "connect_stream (se_recoveryUser (ge_subs G)) uid (nacmUser sess) (hub_subs ?h) = Inr (a, w_subs (snd ?r))"
    using streamRoute_subs [OF r] that unfolding r by auto
  then show ?thesis
  proof cases
    case same
    then have hub: "sy_hub ?s = ?h" by (simp add: conclude_hub)
    show ?thesis
    proof (cases "list_ex is_stream (w_responses (snd ?r))")
      case False
      then have "openedStream (enter s ?rq) (snd ?r) = None" using same by (simp add: openedStream_def is_stream_def [abs_def])
      then show ?thesis using run hub result by (intro exI [of _ "[]"]) (simp add: attachStream_def)
    next
      case True
      then have "openedStream (enter s ?rq) (snd ?r) = Some (Netconf, False)" using same by (simp add: openedStream_def is_stream_def [abs_def])
      moreover obtain h where h: "addStream Netconf False None ?h = Inr h" by (rule addStream_spec [OF hub_run_inv [OF run]])
      ultimately have "sy_hub (streamsRequest G req auth now s) = h" unfolding result by (simp add: attachStream_hub hub)
      moreover obtain user where "authorises G s (Streams_Request req auth now) user"
        using unauthorised_no_stream [of _ _ _ "enter s ?rq"] True
        by (cases "authorizeRequest (ge_anonUser G) auth (sy_nacm s) (rq_sess ?rq) (http_header req)") (auto simp: enter_def newRequest_def)
      ultimately show ?thesis using one [of Connect_Netconf h] h by (simp add: hub_enabled_def hub_step_def requested_def)
    qed
  next
    case connect
    have "subs_inv (hub_subs ?h)" using hub_run_service_inv [OF run] by (simp add: service_inv_def)
    from connect_stream_streams [OF connect(2) this] have "openedStream (enter s ?rq) (snd ?r) = Some (Subscribed a, True)"
      by (simp add: openedStream_def)
    moreover obtain h where h: "addStream (Subscribed a) True None (?h\<lparr>hub_subs := w_subs (snd ?r)\<rparr>) = Inr h"
      by (rule addStream_spec [of "?h\<lparr>hub_subs := w_subs (snd ?r)\<rparr>"]) (use hub_run_inv [OF run] in \<open>simp add: hub_inv_def\<close>)
    ultimately have "sy_hub (streamsRequest G req auth now s) = h" unfolding result by (simp add: attachStream_hub conclude_hub)
    then show ?thesis using one [of "Connect_Subscribed uid (nacmUser sess)" h "nacmUser sess"] connect h
      by (simp add: hub_enabled_def hub_step_def requested_def DynamicSubscriptionHttpStream_create_def live_of_def)
  qed
qed

section \<open>Runs\<close>

definition live_events :: "'u system_event list \<Rightarrow> 'u hub_event list" where
  "live_events tr = List.map_filter (\<lambda>e. case e of Live_Event l \<Rightarrow> Some l | _ \<Rightarrow> None) tr"

lemma live_events_append: "live_events (tr @ tr') = live_events tr @ live_events tr'"
  by (simp add: live_events_def map_filter_def)

lemma live_events_one [simp]: "live_events [Live_Event l] = [l]"
  by (simp add: live_events_def map_filter_simps)

text \<open>Events of the streams explained by those of the system, where \<open>A\<close> has the authorized requests.\<close>

definition hub_traced :: "(nat \<Rightarrow> string option \<Rightarrow> bool) \<Rightarrow> 'u system_event list \<Rightarrow> 'u hub_event list \<Rightarrow> bool" where
  "hub_traced A tr htr \<longleftrightarrow> (\<forall>e \<in> set htr. not_by_request e \<or> (\<exists>i user. A i user \<and> requested user e)) \<and>
     (\<forall>a. written a htr = written a (live_events tr)) \<and> (Stop \<in> set htr \<longrightarrow> Live_Event Stop \<in> set tr)"

lemma hub_traced_mono: "hub_traced A tr htr \<Longrightarrow> (\<And>i user. A i user \<Longrightarrow> A' i user) \<Longrightarrow> hub_traced A' tr htr"
  unfolding hub_traced_def by blast

lemma written_all_quiet: "(\<And>e. e \<in> set es \<Longrightarrow> written a [e] = []) \<Longrightarrow> written a es = []"
proof (induction es)
  case (Cons e es)
  then show ?case using written_append [of a "[e]" es] by simp
qed (simp add: written_def map_filter_simps)

lemma hub_traced_requested:
  assumes "hub_traced A tr htr" and "\<forall>e \<in> set htr'. \<exists>i user. A i user \<and> requested user e" and "\<And>l. e \<noteq> Live_Event l"
  shows "hub_traced A (tr @ [e]) (htr @ htr')"
proof -
  have "written a htr' = []" for a by (rule written_all_quiet) (use assms(2) requested_quiet in blast)
  moreover have "live_events [e] = []" using assms(3) by (cases e) (auto simp: live_events_def map_filter_simps)
  moreover have "Stop \<notin> set htr'" using assms(2) requested_quiet by blast
  ultimately show ?thesis using assms(1,2) by (auto simp: hub_traced_def live_events_append written_append)
qed

lemma hub_traced_live:
  assumes "hub_traced A tr htr" and "not_by_request l"
  shows "hub_traced A (tr @ [Live_Event l]) (htr @ [l])"
  using assms by (auto simp: hub_traced_def live_events_append written_append)

text \<open>A request that does not reach the subscriptions.\<close>

lemma other_requests_hub:
  "sy_hub (restconfHead G req auth s) = sy_hub s" "sy_hub (yangRequest G req auth s) = sy_hub s"
  "sy_hub (authDelayOver G i s) = sy_hub s" "sy_hub (requestClosed i s) = sy_hub s" "sy_hub (nacmChanged G data s) = sy_hub s"
proof -
  show "sy_hub (authDelayOver G i s) = sy_hub s"
    by (simp add: authDelayOver_def Let_def conclude_hub restconfAuthFailed_def plainAuthFailed_def
        keepsD [OF same_subs.keeps_rejectWithError refl] keepsD [OF same_subs.keeps_respond refl])
qed (simp_all add: restconfHead_def yangRequest_def Let_def conclude_hub restconfRoute_subs yangRoute_subs requestClosed_def nacmChanged_def split: sum.split)

lemma restconfData_hub:
  assumes "hub_run (live_of G) htr (sy_hub s)" and "request_ok A (sy_requests s ! i)"
  shows "\<exists>htr'. hub_run (live_of G) (htr @ htr') (sy_hub (restconfData G i chunk s)) \<and> (\<forall>e \<in> set htr'. \<exists>user. A user \<and> requested user e)"
proof (cases "rq_pending (sy_requests s ! i)")
  case Finished
  then show ?thesis using assms(1) by (intro exI [of _ "[]"]) (simp add: restconfData_def)
next
  case (Await_Write rc)
  then show ?thesis using assms(1) by (intro exI [of _ "[]"]) (simp add: restconfData_def Let_def conclude_hub processWrite_subs del: on_data.simps)
next
  case (Await_Rpc rc)
  let ?rq = "sy_requests s ! i" and ?user = "nacmUser (rq_sess (sy_requests s ! i))"
  have "A ?user" using assms(2) Await_Rpc by (simp add: request_ok_def)
  moreover have "(rpc_step (ge_subs G) ?user)\<^sup>*\<^sup>* (hub_subs (sy_hub s))
      (w_subs (snd (on_data (processRpc (env_at G s ?rq) (ge_subs G)) chunk rc (enter s ?rq))))"
    using processRpc_subs [of _ "enter s ?rq"] by simp
  from rpc_steps_hub [OF this assms(1)] Await_Rpc
  have "\<exists>htr'. hub_run (live_of G) (htr @ htr') (sy_hub (restconfData G i chunk s)) \<and> (\<forall>e \<in> set htr'. requested ?user e)"
    by (simp add: restconfData_def Let_def conclude_hub del: on_data.simps)
  ultimately show ?thesis by blast
qed

lemma system_run_hub:
  "system_run G nacm oe tr s \<Longrightarrow> \<exists>htr. hub_run (live_of G) htr (sy_hub s) \<and> hub_traced (authorised_request G nacm oe tr) tr htr"
proof (induction rule: system_run.induct)
  case start
  show ?case by (intro exI [of _ "[]"]) (simp add: system_init_def hub_run.start hub_traced_def live_events_def map_filter_simps)
next
  case (event tr s e)
  let ?A = "authorised_request G nacm oe tr" and ?A' = "authorised_request G nacm oe (tr @ [e])"
  obtain htr where htr: "hub_run (live_of G) htr (sy_hub s)" and t: "hub_traced ?A tr htr" using event.IH by blast
  have t': "hub_traced ?A' tr htr" by (rule hub_traced_mono [OF t]) (rule authorised_request_mono)
  show ?case
  proof (cases "\<exists>l. e = Live_Event l")
    case True
    then obtain l where l: "e = Live_Event l" by blast
    then have en: "hub_enabled l (sy_hub s)" "not_by_request l" using event.hyps(2) by (simp_all add: system_enabled_def)
    show ?thesis
    proof (cases "hub_step (live_of G) l (sy_hub s)")
      case (Inr h)
      have "sy_hub (system_step G e s) = h" using Inr l by (simp add: system_step_def liveEvent_def)
      then show ?thesis using hub_run.event [OF htr en(1) Inr] hub_traced_live [OF t' en(2)] l by (intro exI [of _ "htr @ [l]"]) simp
    next
      case (Inl x)
      have "sy_hub (system_step G e s) = sy_hub s" using Inl l by (simp add: system_step_def liveEvent_def)
      moreover have "written a [l] = []" for a using Inl by (cases l) (auto simp: hub_step_def written_def map_filter_simps)
      then have "hub_traced ?A' (tr @ [e]) htr" using t' l by (auto simp: hub_traced_def live_events_append written_append)
      ultimately show ?thesis using htr by metis
    qed
  next
    case False
    have "\<exists>htr'. hub_run (live_of G) (htr @ htr') (sy_hub (system_step G e s)) \<and> (\<forall>h \<in> set htr'. \<exists>i user. ?A' i user \<and> requested user h)"
    proof (cases e)
      case (Restconf_Data i chunk)
      have i: "i < length (sy_requests s)" using event.hyps(2) Restconf_Data by (simp add: system_enabled_def)
      then have "request_ok (?A i) (sy_requests s ! i)" using system_run_inv [OF event.hyps(1)] by (simp add: system_inv_def)
      then show ?thesis using restconfData_hub [OF htr, of "?A i" i chunk] authorised_request_mono [of G nacm oe tr] Restconf_Data
        unfolding system_step_def by fastforce
    next
      case (Streams_Request req auth now)
      show ?thesis using streamsRequest_hub [OF htr, of req auth now] authorised_request_new [OF event.hyps(1), of e] Streams_Request
        unfolding system_step_def by fastforce
    qed (use False htr in \<open>auto simp: system_step_def other_requests_hub intro!: exI [of _ "[]"]\<close>)
    then show ?thesis using hub_traced_requested [OF t'] False by blast
  qed
qed

section \<open>Where subscriptions and streams come from\<close>

text \<open>Steps of the table that store nothing new.\<close>

lemma table_steps_old:
  assumes "(table_step E)\<^sup>*\<^sup>* s s'" and "subs_inv s" and "ds_heap s' a = Some d'" and "a < ds_next s"
  shows "\<exists>d. ds_heap s a = Some d \<and> same_identity d d'"
proof (cases "ds_heap s a")
  case None
  have "a < ds_next s' \<and> ds_heap s' a = None"
    using assms(1) by (induction rule: rtranclp_induct) (use assms(4) None subs_step_fresh in blast)+
  then show ?thesis using assms(3) by simp
next
  case (Some d)
  then show ?thesis using subs_steps_identity [OF assms(1,2) Some] assms(3) by blast
qed

lemma subs_inv_next: "subs_inv s \<Longrightarrow> ds_heap s a = Some d \<Longrightarrow> a < ds_next s"
  using subs_invD(6) by (fastforce simp: object_ok_def)

lemma timer_expired_next: "ds_next (timer_expired a s) = ds_next s"
  by (simp add: timer_expired_def terminateSubscription_def Let_def update_data_def release_fields split: option.splits inactivity_timer.splits)

lemma fold_terminated_next: "ds_next (fold stream_terminated as s) = ds_next s"
  by (induction as arbitrary: s) (simp_all add: stream_terminated_def update_data_def split: option.split)

lemma deleteSubscription_next: "deleteSubscription ru srt user kill i p s = Inr s' \<Longrightarrow> ds_next s' = ds_next s"
  by (elim deleteSubscription_Inr) (simp add: release_fields)

lemma connect_stream_next: "connect_stream ru u user s = Inr (a, s') \<Longrightarrow> ds_next s' = ds_next s"
  by (auto simp: connect_stream_def update_data_def throw_error_def split: option.splits if_splits)

lemma disconnect_stream_next: "ds_next (disconnect_stream a s) = ds_next s"
  by (simp add: disconnect_stream_def Let_def update_data_def release_fields split: option.split)

lemmas table_next = timer_expired_next fold_terminated_next deleteSubscription_next connect_stream_next disconnect_stream_next

lemma service_step_next:
  assumes "service_step E e sp = Inr sp'" and "\<And>user uid sh enc inp out. e \<noteq> Establish user uid sh enc inp out"
  shows "ds_next (sp_subs sp') = ds_next (sp_subs sp)"
proof (cases e)
  case (Establish user uid sh enc inp out)
  then show ?thesis using assms(2) by blast
qed (use assms(1) in \<open>auto simp: service_step_def open_view_def service_wait_def service_close_def service_stop_def stop_all_def bindE_eq_Inr_iff table_next
      split: stream_source.splits\<close>)

text \<open>An object is there since its owner established the subscription.\<close>

lemma hub_run_owner:
  "hub_run E htr h \<Longrightarrow> ds_heap (hub_subs h) a = Some d \<Longrightarrow> \<exists>sh enc inp out. Establish (Some (sd_user d)) (sd_uuid d) sh enc inp out \<in> set htr"
proof (induction arbitrary: d rule: hub_run.induct)
  case (start oe)
  then show ?case by (simp add: hub_init_def DynamicSubscriptions_init_def)
next
  case (event htr h e h')
  note st = hub_step_service [OF event.hyps] and inv = hub_run_service_inv [OF event.hyps(1)]
  have subs: "subs_inv (hub_subs h)" using inv by (simp add: service_inv_def)
  have steps: "(table_step E)\<^sup>*\<^sup>* (hub_subs h) (hub_subs h')" using service_step_table [OF inv, of e E "service_of h'"] st by simp
  have subs': "subs_inv (hub_subs h')" by (rule table_steps_inv [OF steps subs])
  show ?case
  proof (cases "a < ds_next (hub_subs h)")
    case True
    then show ?thesis using table_steps_old [OF steps subs event.prems True] event.IH by (fastforce simp: same_identity_def)
  next
    case False
    then have "ds_next (hub_subs h') \<noteq> ds_next (hub_subs h)" using subs_inv_next [OF subs' event.prems] by simp
    then obtain user uid sh enc inp out where e: "e = Establish user uid sh enc inp out"
      using service_step_next [of E e "service_of h" "service_of h'"] st by fastforce
    then obtain out' where est: "establishSubscription (le_subscribe E) (le_uuid_string E) (le_streamUri E) user uid sh enc inp out (hub_subs h) = Inr (hub_subs h', out')"
      using event.hyps(3) by (auto simp: hub_step_def bindE_eq_Inr_iff)
    then obtain i f owner where n: "user = Some owner" "hub_subs h' = store_subscription uid (SubscriptionData i f uid owner) (hub_subs h)"
      by (elim establishSubscription_Inr)
    have "ds_next (hub_subs h') = Suc (ds_next (hub_subs h))" using n(2)
      by (simp add: store_subscription_def Let_def release_fields split: option.splits)
    then have "a = ds_next (hub_subs h)" using False subs_inv_next [OF subs' event.prems] by simp
    then have "same_identity (SubscriptionData i f uid owner) d" using event.prems n(2)
      by (auto simp: store_subscription_def Let_def dest!: release_identity split: option.splits)
    then show ?thesis using e n(1) by (auto simp: same_identity_def SubscriptionData_def inactivityStart_def)
  qed
qed

text \<open>A stream is there since a client was connected; to a subscription, one with access to it.\<close>

definition sources :: "'u service \<Rightarrow> stream_source list" where
  "sources sp = map sv_source (sp_views sp)"

lemma sv_source_ops [simp]:
  "sv_source (receive v m) = sv_source v" "sv_source (foldl receive v ms) = sv_source v" "sv_source (end_view v) = sv_source v"
  using view_key_ops [of v] by (simp_all add: view_key_def)

lemma service_step_sources:
  assumes "service_step E e sp = Inr sp'" and "service_enabled e sp"
  shows "sources sp' = sources sp \<or> (\<exists>now. e = Connect_Optics now) \<and> sources sp' = sources sp @ [Optics] \<or>
    e = Connect_Netconf \<and> sources sp' = sources sp @ [Netconf] \<or>
    (\<exists>uid user a. e = Connect_Subscribed uid user \<and> connect_stream (le_recoveryUser E) uid user (sp_subs sp) = Inr (a, sp_subs sp') \<and>
      sources sp' = sources sp @ [Subscribed a])"
proof (cases e)
  case (Wait_Completed i aborted)
  then show ?thesis using assms
    by (cases "sv_source (sp_views sp ! i)") (auto simp: service_step_def service_enabled_def service_wait_def sources_def map_update_same split: if_splits)
qed (use assms in \<open>auto simp: sources_def service_step_def service_enabled_def open_view_def service_close_def service_stop_def bindE_eq_Inr_iff map_update_same split: stream_source.splits\<close>)

lemma connect_stream_access:
  assumes "connect_stream ru uid user s = Inr (a, s')" and "subs_inv s"
  shows "\<exists>d. ds_heap s a = Some d \<and> ds_heap s' a = Some (clientConnected d) \<and> sd_uuid d = uid \<and> may_access ru d user"
proof -
  obtain d where d: "map_of (m_subscriptions s) uid = Some a" "ds_heap s a = Some d" "may_access ru d user"
      "s' = (update_data a (clientConnected d, []) s)\<lparr>ds_streams := a # ds_streams s\<rparr>"
    using assms(1) by (auto simp: connect_stream_def getSubscriptionForUser_def throw_error_def split: option.splits if_splits)
  then show ?thesis using subs_invD(3) [OF assms(2), of uid a] by (auto simp: update_data_def dest: map_of_SomeD)
qed

lemma hub_run_client:
  "hub_run E htr h \<Longrightarrow> Subscribed a \<in> set (sources (service_of h)) \<Longrightarrow> a < ds_next (hub_subs h) \<and>
    (\<forall>d. ds_heap (hub_subs h) a = Some d \<longrightarrow> (\<exists>user. Connect_Subscribed (sd_uuid d) user \<in> set htr \<and> may_access (le_recoveryUser E) d user))"
proof (induction rule: hub_run.induct)
  case (start oe)
  then show ?case by (simp add: hub_init_def sources_def)
next
  case (event htr h e h')
  note st = hub_step_service [OF event.hyps] and inv = hub_run_service_inv [OF event.hyps(1)]
  have subs: "subs_inv (hub_subs h)" using inv by (simp add: service_inv_def)
  have steps: "(table_step E)\<^sup>*\<^sup>* (hub_subs h) (hub_subs h')" using service_step_table [OF inv, of e E "service_of h'"] st by simp
  have "ds_next (hub_subs h) \<le> ds_next (hub_subs h')" using steps
    by (induction rule: rtranclp_induct) (use subs_step_next order.trans in blast)+
  show ?case
  proof (cases "Subscribed a \<in> set (sources (service_of h))")
    case True
    note IH = event.IH [OF True]
    show ?thesis
    proof (intro conjI allI impI)
      show "a < ds_next (hub_subs h')" using IH \<open>ds_next (hub_subs h) \<le> ds_next (hub_subs h')\<close> by simp
      fix d'
      assume "ds_heap (hub_subs h') a = Some d'"
      from table_steps_old [OF steps subs this] IH obtain d where "ds_heap (hub_subs h) a = Some d" "same_identity d d'" by blast
      then show "\<exists>user. Connect_Subscribed (sd_uuid d') user \<in> set (htr @ [e]) \<and> may_access (le_recoveryUser E) d' user"
        using IH by (fastforce simp: same_identity_def may_access_def)
    qed
  next
    case False
    then obtain uid user where e: "e = Connect_Subscribed uid user" and c: "connect_stream (le_recoveryUser E) uid user (hub_subs h) = Inr (a, hub_subs h')"
      using service_step_sources [of E e "service_of h" "service_of h'"] st event.prems by auto
    from connect_stream_access [OF c subs] obtain d where d: "ds_heap (hub_subs h) a = Some d" "ds_heap (hub_subs h') a = Some (clientConnected d)"
        "sd_uuid d = uid" "may_access (le_recoveryUser E) d user" by blast
    then show ?thesis using e subs_inv_next [OF subs d(1)] \<open>ds_next (hub_subs h) \<le> ds_next (hub_subs h')\<close>
      by (auto simp: clientConnected_def inactivityCancel_def may_access_def)
  qed
qed

lemma hub_run_netconf: "hub_run E htr h \<Longrightarrow> Netconf \<in> set (sources (service_of h)) \<Longrightarrow> Connect_Netconf \<in> set htr"
proof (induction rule: hub_run.induct)
  case (event htr h e h')
  then show ?case using service_step_sources [of E e "service_of h" "service_of h'"] hub_step_service [OF event.hyps] by auto
qed (simp add: hub_init_def sources_def)

section \<open>Traceback\<close>

text \<open>Every subscription and every stream of the system goes back to requests that were authorized.\<close>

lemma system_run_owner:
  assumes "system_run G nacm oe tr s" and "ds_heap (hub_subs (sy_hub s)) a = Some d"
  shows "\<exists>i. authorised_request G nacm oe tr i (Some (sd_user d))"
proof -
  obtain htr where htr: "hub_run (live_of G) htr (sy_hub s)" "hub_traced (authorised_request G nacm oe tr) tr htr" using system_run_hub [OF assms(1)] by blast
  obtain sh enc inp out where "Establish (Some (sd_user d)) (sd_uuid d) sh enc inp out \<in> set htr" using hub_run_owner [OF htr(1) assms(2)] by blast
  then show ?thesis using htr(2) unfolding hub_traced_def by (fastforce simp: not_by_request_def requested_def)
qed

lemma system_run_client:
  assumes "system_run G nacm oe tr s" and "hs \<in> set (hub_streams (sy_hub s))" and "hs_source hs = Subscribed a" and "ds_heap (hub_subs (sy_hub s)) a = Some d"
  shows "\<exists>i user. authorised_request G nacm oe tr i user \<and> may_access (se_recoveryUser (ge_subs G)) d user"
proof -
  obtain htr where htr: "hub_run (live_of G) htr (sy_hub s)" "hub_traced (authorised_request G nacm oe tr) tr htr" using system_run_hub [OF assms(1)] by blast
  have "Subscribed a \<in> set (sources (service_of (sy_hub s)))" using assms(2,3) by (force simp: sources_def stream_view_of_def)
  then obtain user where "Connect_Subscribed (sd_uuid d) user \<in> set htr" "may_access (se_recoveryUser (ge_subs G)) d user"
    using hub_run_client [OF htr(1)] assms(4) by (auto simp: live_of_def)
  then show ?thesis using htr(2) unfolding hub_traced_def by (fastforce simp: not_by_request_def requested_def)
qed

lemma system_run_netconf:
  assumes "system_run G nacm oe tr s" and "hs \<in> set (hub_streams (sy_hub s))" and "hs_source hs = Netconf"
  shows "\<exists>i user. authorised_request G nacm oe tr i user"
proof -
  obtain htr where htr: "hub_run (live_of G) htr (sy_hub s)" "hub_traced (authorised_request G nacm oe tr) tr htr" using system_run_hub [OF assms(1)] by blast
  have "Netconf \<in> set (sources (service_of (sy_hub s)))" using assms(2,3) by (force simp: sources_def stream_view_of_def)
  from hub_run_netconf [OF htr(1) this] show ?thesis using htr(2) unfolding hub_traced_def by (fastforce simp: not_by_request_def)
qed

end
