(* ===== verification/Server_System_Answers.thy ===== *)
theory Server_System_Answers
  imports Server_System_Laws Server_Responses
begin

text \<open>Responses to the requests of the running server: none before the body is complete or the delay is over, and one then.\<close>

section \<open>The other routes\<close>

lemma finished_finish: "finished (m w) = finish m w"
  by (simp add: finished_def finish_def bindA_def split: prod.split sum.split)

lemma finish_catchA: "finish (catchA m h) = catchA (finish m) (\<lambda>e. map_option finish (h e))"
  by (auto simp: finish_def catchA_def bindA_def fun_eq_iff split: prod.split sum.split option.split)

lemma routed_plainCatch: "answers m \<Longrightarrow> routed req (finish (catchA m plainCatch))"
  unfolding finish_catchA
  by (rule routed_catchA)
    (auto simp: plainCatch_def plainAuthFailed_def plainError_def intro!: routed_finish routed_rejectAuth response_intros split: exn.splits)

lemma quiet_authorizeSession [response_intros]: "quiet (authorizeSession anonUser auth nacm req)"
  by (simp add: quiet_def authorizeSession_def split: sum.split)

lemma quiet_subscribeModule [response_intros]: "quiet (subscribeModule sr ns m)"
  unfolding subscribeModule_def subscribe_notifications_def
  by (intro response_intros quiet_catchA) (auto intro: response_intros split: exn.splits sr_error_code.splits)

lemma answers_handleStream [response_intros]: "answers (handleStream E SE NE rp)"
proof -
  have "answers (connectStream SE uid)" for uid
    by (rule answersI) (auto simp: connectStream_def respond_def replies_def reply_def split: sum.splits prod.splits)
  moreover have "answers (NotificationStream_create E now fmt f a b)" for now fmt f a b
    unfolding NotificationStream_create_def NotificationStream_activate_def by (intro response_intros)
  ultimately show ?thesis
    unfolding handleStream_def by (auto intro!: response_intros split: stream_request.split)
qed

lemma routed_streamRoute: "routed req' (finish (streamRoute E SE NE uuidOf anonUser auth nacm req))"
proof (cases "http_method req = ''OPTIONS''")
  case False
  then show ?thesis unfolding streamRoute_def if_not_P [OF False] by (intro routed_plainCatch response_intros)
qed (simp add: streamRoute_def routed_finish answers_respond)

lemma routed_yangRoute: "routed req' (finish (yangRoute E gm gs anonUser auth nacm req))"
proof (cases "http_method req = ''OPTIONS'' \<or> (http_method req \<noteq> ''GET'' \<and> http_method req \<noteq> ''HEAD'')")
  case False
  have "quiet (hasAccessToYangSchema sr b m)" for sr b m unfolding hasAccessToYangSchema_def by (intro response_intros)
  then show ?thesis unfolding yangRoute_def if_not_P [OF False]
    by (intro routed_plainCatch response_intros) (auto intro!: response_intros split: option.split module_or_submodule.split)
qed (simp only: yangRoute_def if_True routed_finish answers_respond)

section \<open>The state of a request\<close>

text \<open>\<open>gone\<close>: the client closed the request, or an exception has ended the server.\<close>

definition request_answered :: "bool \<Rightarrow> 'n request_state \<Rightarrow> bool" where
  "request_answered gone rq \<longleftrightarrow> isYangPatch (rq_request rq) \<or> (case rq_pending rq of
      Finished \<Rightarrow> (case rq_authDelay rq of
          None \<Rightarrow> length (rq_responses rq) = 1 \<or> rq_responses rq = [] \<and> gone
        | Some _ \<Rightarrow> rq_responses rq = [])
    | Await_Write rc \<Rightarrow> rq_responses rq = [] \<and> rq_authDelay rq = None \<and> rc_req rc = rq_request rq
    | Await_Rpc rc \<Rightarrow> rq_responses rq = [] \<and> rq_authDelay rq = None \<and> rc_req rc = rq_request rq)"

definition answer_inv :: "'u system_event list \<Rightarrow> ('n, 'u) system \<Rightarrow> bool" where
  "answer_inv tr s \<longleftrightarrow> (\<forall>i < length (sy_requests s). request_answered (Request_Closed i \<in> set tr \<or> sy_crashed s \<noteq> None) (sy_requests s ! i))"

lemma request_answered_mono: "request_answered g rq \<Longrightarrow> (g \<Longrightarrow> g') \<Longrightarrow> request_answered g' rq"
  by (auto simp: request_answered_def split: handler_result.splits option.splits)

lemma outcome_answered:
  assumes "outcome (rq_request rq) ([], None) res w"
  shows "request_answered (isl res \<or> g) (leave rq res w)"
  using assms
  by (cases "(rq_request rq, ([], None) :: 'a http_response list \<times> nat option, res, w)" rule: outcome.cases)
    (auto simp: request_answered_def leave_def reply_def replies_def split: option.split)

lemma conclude_answered:
  assumes "answer_inv tr s" and "i \<le> length (sy_requests s)" and "sy_crashed s = None"
    and "\<And>g. request_answered (isl (fst rw) \<or> g) (leave rq (fst rw) (snd rw))"
  shows "answer_inv (tr @ [e]) (conclude i rq rw s)"
proof -
  obtain res w where rw: "rw = (res, w)" by fastforce
  have "isl res \<longleftrightarrow> sy_crashed (conclude i rq rw s) \<noteq> None" using assms(3) rw by (simp add: conclude_def split: sum.split)
  then have new: "request_answered (Request_Closed i \<in> set (tr @ [e]) \<or> sy_crashed (conclude i rq rw s) \<noteq> None) (leave rq res w)"
    using assms(4) [of "Request_Closed i \<in> set (tr @ [e])"] rw by (simp add: disj_commute)
  have old: "request_answered (Request_Closed j \<in> set (tr @ [e]) \<or> sy_crashed (conclude i rq rw s) \<noteq> None) (sy_requests s ! j)"
    if "j < length (sy_requests s)" for j
    using assms(1,3) that request_answered_mono unfolding answer_inv_def by fastforce
  have "sy_requests (conclude i rq rw s) =
      (if i < length (sy_requests s) then (sy_requests s)[i := leave rq res w] else sy_requests s @ [leave rq res w])"
    using rw by (simp add: conclude_def)
  then show ?thesis unfolding answer_inv_def using new old assms(2)
    by (auto simp: nth_list_update nth_append less_Suc_eq)
qed

text \<open>A handler of a new request.\<close>

lemma new_answered:
  assumes "answer_inv tr s" and "sy_crashed s = None" and "routed req m"
  shows "answer_inv (tr @ [e]) (conclude (length (sy_requests s)) (newRequest req r ds) (m (enter s (newRequest req r ds))) s)"
proof (rule conclude_answered [OF assms(1) order.refl assms(2)])
  fix g
  let ?rq = "newRequest req r ds" and ?w = "enter s (newRequest req r ds)"
  have "outcome req ([], None) (fst (m ?w)) (snd (m ?w))"
    using assms(3) [unfolded routed_def, rule_format, of ?w] by (simp add: reply_def enter_def newRequest_def)
  then show "request_answered (isl (fst (m ?w)) \<or> g) (leave ?rq (fst (m ?w)) (snd (m ?w)))"
    using outcome_answered [of ?rq] by (simp add: newRequest_def)
qed

text \<open>A part of the body.\<close>

lemma data_outcome:
  assumes "answers (handle rc)" and "reply w = ([], None)" and "rc_req rc = req"
    and await: "await = Await_Write \<or> await = Await_Rpc"
  shows "outcome req ([], None) (fst (dataResult await chunk (on_data handle chunk rc w))) (snd (dataResult await chunk (on_data handle chunk rc w)))"
proof (cases "chunk = []")
  case True
  obtain res w' where p: "handle rc w = (res, w')" by fastforce
  then show ?thesis using True assms(2) answers_Inl [OF assms(1), of w] answers_Inr [OF assms(1), of w]
    by (cases res) (auto simp: dataResult_def bindA_def)
qed (use assms(2,3) await in \<open>auto simp: dataResult_def\<close>)

lemma restconfData_answered:
  assumes inv: "answer_inv tr s" and en: "system_enabled (Restconf_Data i chunk) s"
  shows "answer_inv (tr @ [e]) (restconfData G i chunk s)"
proof -
  let ?rq = "sy_requests s ! i" and ?w = "enter s (sy_requests s ! i)" and ?E = "env_at G s (sy_requests s ! i)"
  have i: "i < length (sy_requests s)" and c: "sy_crashed s = None" and p: "rq_pending ?rq \<noteq> Finished"
    using en by (simp_all add: system_enabled_def)
  have ok: "request_answered (Request_Closed i \<in> set tr \<or> sy_crashed s \<noteq> None) ?rq" using inv i by (simp add: answer_inv_def)
  have r: "reply ?w = (rq_responses ?rq, rq_authDelay ?rq)" by (simp add: reply_def enter_def)
  obtain rw where rw: "restconfData G i chunk s = conclude i ?rq rw s"
    and out: "\<not> isYangPatch (rq_request ?rq) \<Longrightarrow> outcome (rq_request ?rq) ([], None) (fst rw) (snd rw)"
  proof (cases "rq_pending ?rq")
    case (Await_Write rc)
    let ?rw = "dataResult Await_Write chunk (on_data (processWrite ?E) chunk rc ?w)"
    show thesis
    proof (rule that)
      show "restconfData G i chunk s = conclude i ?rq ?rw s" using Await_Write by (simp add: restconfData_def Let_def del: on_data.simps)
      assume "\<not> isYangPatch (rq_request ?rq)"
      then show "outcome (rq_request ?rq) ([], None) (fst ?rw) (snd ?rw)"
        using ok Await_Write r by (intro data_outcome answers_processWrite) (simp_all add: request_answered_def)
    qed
  next
    case (Await_Rpc rc)
    let ?rw = "dataResult Await_Rpc chunk (on_data (processRpc ?E (ge_subs G)) chunk rc ?w)"
    show thesis
    proof (rule that)
      show "restconfData G i chunk s = conclude i ?rq ?rw s" using Await_Rpc by (simp add: restconfData_def Let_def del: on_data.simps)
      assume "\<not> isYangPatch (rq_request ?rq)"
      then show "outcome (rq_request ?rq) ([], None) (fst ?rw) (snd ?rw)"
        using ok Await_Rpc r by (intro data_outcome answers_processRpc) (simp_all add: request_answered_def)
    qed
  qed (use p in simp)
  show ?thesis unfolding rw
  proof (rule conclude_answered [OF inv less_imp_le [OF i] c])
    show "request_answered (isl (fst rw) \<or> g) (leave ?rq (fst rw) (snd rw))" for g
      by (cases "isYangPatch (rq_request ?rq)")
        (simp add: request_answered_def leave_def, rule outcome_answered [OF out])
  qed
qed

text \<open>The response that was delayed.\<close>

lemma authDelayOver_answered:
  fixes s :: "('n, 'u) system"
  assumes inv: "answer_inv tr s" and en: "system_enabled (Auth_Delay_Over i) s"
  shows "answer_inv (tr @ [e]) (authDelayOver G i s)"
proof -
  let ?rq = "sy_requests s ! i"
  let ?w = "enter s (?rq\<lparr>rq_authDelay := None\<rparr>)"
  define m :: "('n, 'u, unit) server_action" where "m = (if rq_restconf ?rq then restconfAuthFailed (env_at G s ?rq)
      (case chooseDataEncoding (ge_stod G) (http_header (rq_request ?rq)) of Inr df \<Rightarrow> df_response df | Inl _ \<Rightarrow> JSON) (rq_request ?rq) else plainAuthFailed)"
  have i: "i < length (sy_requests s)" and c: "sy_crashed s = None" and d: "rq_authDelay ?rq \<noteq> None"
    using en by (simp_all add: system_enabled_def)
  have ok: "request_answered (Request_Closed i \<in> set tr \<or> sy_crashed s \<noteq> None) ?rq" using inv i by (simp add: answer_inv_def)
  have "answers m" by (auto simp: m_def restconfAuthFailed_def plainAuthFailed_def intro: response_intros)
  from routedD [OF routed_finish [OF this]] have out: "outcome (rq_request ?rq) (reply ?w) (fst (finish m ?w)) (snd (finish m ?w))"
    by (metis prod.collapse)
  have "authDelayOver G i s = conclude i ?rq (finish m ?w) s" by (simp add: authDelayOver_def Let_def m_def finished_finish)
  moreover have "request_answered (isl (fst (finish m ?w)) \<or> g) (leave ?rq (fst (finish m ?w)) (snd (finish m ?w)))" for g
  proof (cases "isYangPatch (rq_request ?rq)")
    case False
    then have "reply ?w = ([], None)" using ok d
      by (auto simp: request_answered_def reply_def enter_def split: handler_result.splits option.splits)
    then show ?thesis using out by (intro outcome_answered) simp
  qed (simp add: request_answered_def leave_def)
  ultimately show ?thesis using conclude_answered [OF inv less_imp_le [OF i] c] by simp
qed

lemma requestClosed_answered:
  assumes inv: "answer_inv tr s" and i: "i < length (sy_requests s)" and c: "sy_crashed s = None"
  shows "answer_inv (tr @ [Request_Closed i]) (requestClosed i s)"
proof -
  let ?rq = "(sy_requests s ! i)\<lparr>rq_authDelay := None, rq_pending := Finished\<rparr>"
  have ok: "request_answered (Request_Closed j \<in> set tr) (sy_requests s ! j)" if "j < length (sy_requests s)" for j
    using inv that c by (simp add: answer_inv_def)
  have "request_answered True ?rq" using ok [OF i] by (auto simp: request_answered_def split: handler_result.splits option.splits)
  then show ?thesis using i c ok unfolding answer_inv_def requestClosed_def by (auto simp: nth_list_update)
qed

lemma system_run_answered: "system_run G nacm oe tr s \<Longrightarrow> answer_inv tr s"
proof (induction rule: system_run.induct)
  case (event tr s e)
  note inv = event.IH and en = event.hyps(2)
  have c: "sy_crashed s = None" using en by (simp add: system_enabled_def)
  have other: "answer_inv (tr @ [e]) s'" if "sy_requests s' = sy_requests s" for s'
    using inv that request_answered_mono c unfolding answer_inv_def by fastforce
  have attach: "answer_inv t (attachStream opened s')" if "answer_inv t s'" for t opened and s' :: "('a, 'b) system"
    using that by (auto simp: answer_inv_def attachStream_def intro: request_answered_mono split: option.split sum.split)
  show ?case
  proof (cases e)
    case (Restconf_Head req auth)
    show ?thesis using new_answered [OF inv c routed_restconfRoute] Restconf_Head by (simp add: system_step_def restconfHead_def Let_def)
  next
    case (Restconf_Data i chunk)
    show ?thesis using restconfData_answered [OF inv, of i chunk] en Restconf_Data by (simp add: system_step_def)
  next
    case (Streams_Request req auth now)
    show ?thesis using attach [OF new_answered [OF inv c routed_streamRoute]] Streams_Request
      by (simp add: system_step_def streamsRequest_def Let_def finished_finish)
  next
    case (Yang_Request req auth)
    show ?thesis using new_answered [OF inv c routed_yangRoute] Yang_Request by (simp add: system_step_def yangRequest_def Let_def finished_finish)
  next
    case (Auth_Delay_Over i)
    show ?thesis using authDelayOver_answered [OF inv, of i] en Auth_Delay_Over by (simp add: system_step_def)
  next
    case (Request_Closed i)
    show ?thesis using requestClosed_answered [OF inv _ c, of i] en Request_Closed by (simp add: system_step_def system_enabled_def)
  qed (rule other, simp add: system_step_def nacmChanged_def liveEvent_def split: sum.split)+
qed (simp add: answer_inv_def system_init_def)

end
