(* ===== verification/Server_Escapes.thy ===== *)
theory Server_Escapes
  imports Server_System_Streams
begin

text \<open>
  Which exceptions leave a handler, and with it the event loop. What the catch clauses of a route name is answered, provided that libyang can build the
  error document.
\<close>

section \<open>Exceptions of an action\<close>

definition escapes :: "(exn \<Rightarrow> bool) \<Rightarrow> ('s, 'a) action \<Rightarrow> bool" where
  "escapes P m \<longleftrightarrow> (\<forall>w e w'. m w = (Inl e, w') \<longrightarrow> P e)"

lemma escapesD: "escapes P m \<Longrightarrow> m w = (Inl e, w') \<Longrightarrow> P e"
  by (auto simp: escapes_def)

lemma escapes_liftE: "(\<And>e. r = Inl e \<Longrightarrow> P e) \<Longrightarrow> escapes P (liftE r)"
  by (auto simp: escapes_def)

lemma escapes_bindA: "escapes P m \<Longrightarrow> (\<And>a. escapes P (f a)) \<Longrightarrow> escapes P (bindA m f)"
  unfolding escapes_def bindA_def by (fastforce split: prod.splits sum.splits)

lemma escapes_catchA:
  assumes "\<And>e. h e = None \<Longrightarrow> P e" and "\<And>e k. h e = Some k \<Longrightarrow> escapes P k"
  shows "escapes P (catchA m h)"
  using assms unfolding escapes_def catchA_def by (fastforce split: prod.splits sum.splits option.splits)

lemma escapes_respond: "escapes P (respond st hs b)"
  by (simp add: escapes_def respond_def)

lemma escapes_finish: "escapes P m \<Longrightarrow> escapes P (finish m)"
  unfolding finish_def by (rule escapes_bindA) (simp_all add: escapes_def)

lemma escapes_rejectAuth: "escapes P m \<Longrightarrow> escapes P (rejectAuth a m)"
  by (auto simp: rejectAuth_def escapes_def split: auth_failure_state.splits)

section \<open>Routes\<close>

text \<open>Exceptions that the RESTCONF route, the processing of a body and the other routes do not answer.\<close>

fun escapes_route :: "exn \<Rightarrow> bool" where
  "escapes_route (Error_Response r) = False" | "escapes_route (Auth_Error a) = False" | "escapes_route (Sysrepo_Error c w) = False"
| "escapes_route _ = True"

fun escapes_body :: "exn \<Rightarrow> bool" where
  "escapes_body (Error_Response r) = False" | "escapes_body (Sysrepo_Error c w) = False" | "escapes_body _ = True"

fun escapes_plain :: "exn \<Rightarrow> bool" where
  "escapes_plain (Error_Response r) = False" | "escapes_plain (Auth_Error a) = False" | "escapes_plain _ = True"

text \<open>The error document of a response.\<close>

definition documents :: "'n server_env \<Rightarrow> bool" where
  "documents E \<longleftrightarrow> (\<forall>doc. ld_newPaths (env_ly E) doc = Inr ())"

lemma escapes_reject: "documents E \<Longrightarrow> escapes P (rejectWithErrorImpl E container fmt req e)"
  unfolding rejectWithErrorImpl_def Let_def
  by (intro escapes_bindA escapes_liftE escapes_respond) (auto simp: documents_def allowedHttpMethodsForUri_eq split: if_splits)

lemma escapes_restconfCatch: "documents E \<Longrightarrow> escapes escapes_route (catchA m (restconfCatch E fmt req))"
  by (rule escapes_catchA)
    (auto simp: restconfCatch_def restconfAuthFailed_def rejectWithError_def split: exn.splits
      intro!: escapes_finish escapes_rejectAuth escapes_reject)

lemma escapes_restconfRoute: "documents E \<Longrightarrow> escapes escapes_route (restconfRoute E stod lib anonUser auth nacm req)"
  by (simp add: restconfRoute_def escapes_restconfCatch split: sum.split)

lemma escapes_action_path: "escapes escapes_body (liftE (is_action_path ctx path))"
  by (rule escapes_liftE) (auto simp: is_action_path_def split: if_splits sum.splits)

lemma escapes_withRestconfExceptions:
  assumes "documents E"
  shows "escapes escapes_body (withRestconfExceptions E func (rejectWithError E) rc)"
  unfolding withRestconfExceptions_def
proof (rule escapes_catchA)
  let ?h = "restconfExceptions E (rejectWithError E (df_response (rc_dataFormat rc)) (rc_req rc)) rc"
  show "escapes_body e" if "?h e = None" for e
    using that by (cases e) (auto simp: restconfExceptions_def split: sr_error_code.splits)
  show "escapes escapes_body k" if "?h e = Some k" for e k
    using that
    by (auto simp: restconfExceptions_def rejectWithError_def split: exn.splits ly_error.splits option.splits ly_error_code.splits sr_error_code.splits
        intro!: escapes_reject [OF assms] escapes_bindA escapes_action_path)
qed

lemma escapes_bodies:
  assumes "documents E"
  shows "escapes escapes_body (on_data (processWrite E) chunk rc)" "escapes escapes_body (on_data (processRpc E SE) chunk rc)"
  using escapes_withRestconfExceptions [OF assms]
  by (auto simp: processWrite_def processRpc_def intro!: escapes_bindA) (auto simp: escapes_def)

lemma escapes_plainCatch: "escapes escapes_plain (catchA m plainCatch)"
  by (rule escapes_catchA)
    (auto simp: plainCatch_def plainAuthFailed_def plainError_def split: exn.splits intro!: escapes_rejectAuth escapes_respond)

lemma escapes_plainRoutes:
  "escapes escapes_plain (streamRoute E SE NE uuidOf anonUser auth nacm req)" "escapes escapes_plain (yangRoute E gm gs anonUser auth nacm req)"
  by (simp_all add: streamRoute_def yangRoute_def escapes_respond escapes_plainCatch)

text \<open>An error of sysrepo does leave the schema route: the same error is a response of status 500 under the RESTCONF root.\<close>

lemma yang_sysrepo_error_escapes:
  assumes "http_method req = ''GET''" and "authorizeRequest anonUser authenticate nacm (w_sess w) (http_header req) = Inr sess"
    and "asYangModule (env_what E) getModule getSubmodule (http_path req) = Inr (Some (Module nm))"
    and "\<And>calls. sr_data (env_sr E) calls = Inl (Sysrepo_Error c msg)"
  shows "fst (yangRoute E getModule getSubmodule anonUser authenticate nacm req w) = Inl (Sysrepo_Error c msg)"
  using assms
  by (simp add: yangRoute_def catchA_def bindA_def authorizeSession_def hasAccessToYangSchema_def sess_getData_def ask_def Let_def plainCatch_def)

section \<open>The end of the event loop\<close>

text \<open>The exception that an event can end the server with.\<close>

fun crash_cause :: "'u system_event \<Rightarrow> exn \<Rightarrow> bool" where
  "crash_cause (Restconf_Head req auth) e = escapes_route e"
| "crash_cause (Restconf_Data i chunk) e = escapes_body e"
| "crash_cause (Streams_Request req auth now) e = escapes_plain e"
| "crash_cause (Yang_Request req auth) e = escapes_plain e"
| "crash_cause _ e = False"

lemma documents_at [simp]: "documents (env_at G s rq) = documents (ge_server G)"
  by (simp add: documents_def env_at_def)

lemma conclude_crash:
  assumes "sy_crashed (conclude i rq (m w) s) = Some e" and "sy_crashed s = None" and "escapes P m"
  shows "P e"
  using assms escapesD [OF assms(3), of w e] by (auto simp: conclude_def split: prod.splits sum.splits)

lemma escapes_finished:
  assumes "sy_crashed (conclude i rq (finished (m w)) s) = Some e" and "sy_crashed s = None" and "escapes P m"
  shows "P e"
  using assms escapesD [OF assms(3), of w e] by (auto simp: conclude_def finished_def split: prod.splits sum.splits)

lemma data_crash:
  assumes "sy_crashed (conclude i rq (dataResult await chunk (m w)) s) = Some e" and "sy_crashed s = None" and "escapes P m"
  shows "P e"
  using assms escapesD [OF assms(3), of w e] by (auto simp: conclude_def dataResult_def split: prod.splits sum.splits)

lemma attachStream_crash: "sy_crashed (attachStream opened s) = sy_crashed s"
proof -
  have "\<exists>h. addStream src waiting None (sy_hub s) = Inr h" for src waiting using create_inv [of None] by (auto simp: addStream_def)
  then show ?thesis by (auto simp: attachStream_def split: option.split sum.split) (metis sum.distinct(1))+
qed

lemma system_step_crash:
  assumes "documents (ge_server G)" and "sy_crashed s = None" and "sy_crashed (system_step G ev s) = Some e"
  shows "crash_cause ev e"
proof (cases ev)
  case (Restconf_Head req auth)
  have "documents (env_at G s (newRequest req True Operational))" using assms(1) by simp
  from conclude_crash [OF _ assms(2) escapes_restconfRoute [OF this]] show ?thesis
    using assms(3) unfolding Restconf_Head system_step_def restconfHead_def Let_def by (simp del: documents_at) blast
next
  case (Restconf_Data i chunk)
  have E: "documents (env_at G s (sy_requests s ! i))" using assms(1) by simp
  note data = data_crash [OF _ assms(2) escapes_bodies(1) [OF E]] data_crash [OF _ assms(2) escapes_bodies(2) [OF E]]
  show ?thesis using assms(2,3) unfolding Restconf_Data system_step_def restconfData_def Let_def
    by (cases "rq_pending (sy_requests s ! i)") (auto simp del: on_data.simps dest: data)
next
  case (Streams_Request req auth now)
  then show ?thesis using assms(3) escapes_finished [OF _ assms(2) escapes_plainRoutes(1)]
    unfolding Streams_Request system_step_def streamsRequest_def Let_def by (simp add: attachStream_crash)
next
  case (Yang_Request req auth)
  then show ?thesis using assms(3) escapes_finished [OF _ assms(2) escapes_plainRoutes(2)]
    unfolding Yang_Request system_step_def yangRequest_def Let_def by simp
next
  case (Auth_Delay_Over i)
  let ?fmt = "case chooseDataEncoding (ge_stod G) (http_header (rq_request (sy_requests s ! i))) of Inr df \<Rightarrow> df_response df | Inl _ \<Rightarrow> JSON"
  let ?m = "if rq_restconf (sy_requests s ! i) then restconfAuthFailed (env_at G s (sy_requests s ! i)) ?fmt (rq_request (sy_requests s ! i)) else plainAuthFailed"
  have "escapes (\<lambda>_. False) ?m"
    using assms(1) by (simp add: restconfAuthFailed_def rejectWithError_def plainAuthFailed_def escapes_reject escapes_respond)
  from escapes_finished [OF _ assms(2) this] show ?thesis
    using assms(3) unfolding Auth_Delay_Over system_step_def authDelayOver_def Let_def by simp blast
qed (use assms in \<open>simp_all add: system_step_def requestClosed_def nacmChanged_def liveEvent_def split: sum.splits\<close>)

lemma system_run_crash:
  assumes "system_run G nacm oe tr s" and "sy_crashed s = Some e" and "documents (ge_server G)"
  shows "\<exists>tr' ev. tr = tr' @ [ev] \<and> crash_cause ev e"
  using assms(1)
proof cases
  case (event tr' s' ev)
  then show ?thesis using system_step_crash [OF assms(3), of s' ev e] assms(2) by (auto simp: system_enabled_def)
qed (use assms(2) in \<open>simp add: system_init_def\<close>)

end
