(* ===== verification/System_Properties.thy ===== *)
theory System_Properties
  imports Server_System_Streams Server_System_Answers Server_Escapes Request_Properties
begin

text \<open>Properties of the running server as a whole: requests of several clients, streams, timers and configuration changes in any order.\<close>

section \<open>A concrete run\<close>

fun system_exec :: "('n, 'u::linorder, 'd::{linorder, zero, one}) system_env \<Rightarrow> ('n, 'u) system \<Rightarrow> 'u system_event list \<Rightarrow> ('n, 'u) system option" where
  "system_exec G s [] = Some s"
| "system_exec G s (e # es) = (if system_enabled e s then system_exec G (system_step G e s) es else None)"

lemma system_exec_run: "system_exec G s es = Some s' \<Longrightarrow> system_run G nacm oe tr s \<Longrightarrow> system_run G nacm oe (tr @ es) s'"
proof (induction es arbitrary: s tr)
  case (Cons e es)
  then have 1: "system_enabled e s" "system_exec G (system_step G e s) es = Some s'" by (auto split: if_splits)
  from system_run.event [OF Cons.prems(2) 1(1)] Cons.IH [OF 1(2)] show ?case by fastforce
qed simp

text \<open>The example schema with the RPC that establishes a subscription as node 11.\<close>

definition ex_rpc_path :: string where
  "ex_rpc_path = ''/ietf-subscribed-notifications:establish-subscription''"

definition ex_system_ctx :: "nat ly_context" where
  "ex_system_ctx = ex_ctx\<lparr>ly_findPath := (\<lambda>p. if p = ex_rpc_path then Inr 11 else ly_findPath ex_ctx p),
     ly_nodeType := (\<lambda>n. if n = 11 then RPC else ly_nodeType ex_ctx n), ly_path := (\<lambda>n. if n = 11 then ex_rpc_path else ly_path ex_ctx n),
     ly_module := (\<lambda>n. if n = 11 then ''ietf-subscribed-notifications'' else ''m''), ly_name := (\<lambda>n. if n = 11 then ''establish-subscription'' else ly_name ex_ctx n)\<rparr>"

definition ex_system_ly :: "nat ly_data" where
  "ex_system_ly = ex_ly\<lparr>ld_ctx := ex_system_ctx,
     ld_newPath2 := (\<lambda>p. if p = ex_rpc_path then Inr ([DNode 11 False [] [] [leaf 1 ''NETCONF'']], Some [0]) else ex_newPath2 p),
     ld_nodePath := (\<lambda>t p. case node_at t p of None \<Rightarrow> [] | Some n \<Rightarrow> ly_path ex_system_ctx (dn_schema n)),
     ld_findPath := (\<lambda>t p path. if path = ''stream'' then Inr (Some [0, 0]) else if path = ''m:top'' then Inr (Some [0]) else Inr None)\<rparr>"

definition ex_system_env :: "(nat, nat, nat) system_env" where
  "ex_system_env = \<lparr>ge_server = ex_env\<lparr>env_ly := ex_system_ly\<rparr>,
     ge_subs = \<lparr>se_recoveryUser = ''root'', se_subscribe = (\<lambda>_ _ _ _. Inr (7, None)), se_terminate = (\<lambda>_. Inr ()), se_makeUUID = (\<lambda>s. ds_next s), se_uuidString = (\<lambda>_. ''u'')\<rparr>,
     ge_notif = \<lparr>ne_now = 5, ne_fromYangTime = (\<lambda>_. Inr 0), ne_yangTime = (\<lambda>_. ''t''), ne_replaySupport = (\<lambda>_. (False, None))\<rparr>,
     ge_stod = ex_stod, ge_yangLib = None, ge_anonUser = ''anonymous'', ge_anonGroup = ''anonymous'', ge_uuidOf = (\<lambda>_. Some 0),
     ge_getModule = (\<lambda>_ _. None), ge_getSubmodule = (\<lambda>_ _. None), ge_opticsData = (\<lambda>_. Inr None)\<rparr>"

definition ex_user_http :: "string \<Rightarrow> string \<Rightarrow> string \<Rightarrow> http_request" where
  "ex_user_http user method path = \<lparr>http_method = method, http_path = path, http_raw_path = path, http_raw_query = [],
     http_header = [(''authorization'', user), (''content-type'', ''application/yang-data+json''), (''forward'', ''host=h;proto=https'')], http_remote = []\<rparr>"

text \<open>PAM knows two users; the answer for others is delayed.\<close>

definition ex_pam :: "string \<Rightarrow> exn + string" where
  "ex_pam h = (if h \<in> {''alice'', ''bob''} then Inr h else Inl (Auth_Error \<lparr>auth_message = ''no'', auth_delay = Some 3\<rparr>))"

definition ex_system_events :: "nat system_event list" where
  "ex_system_events = [Restconf_Head (ex_user_http ''alice'' ''POST'' (''/restconf/operations'' @ ex_rpc_path)) ex_pam,
     Restconf_Head (ex_user_http ''bob'' ''PUT'' ''/restconf/data/m:top'') ex_pam,
     Restconf_Data 1 ''to'', Restconf_Data 0 [], Restconf_Data 1 ''p'',
     Streams_Request (ex_user_http ''alice'' ''GET'' ''/streams/subscribed/00000000-0000-0000-0000-000000000000'') ex_pam 5,
     Restconf_Head (ex_user_http ''mallory'' ''GET'' ''/restconf/data/m:top'') ex_pam,
     Live_Event (Notification_Written 0 ''first''), Restconf_Data 1 [], Live_Event (Notification_Written 0 ''second''), Live_Event (Wait_Completed 0 False),
     Auth_Delay_Over 3, Live_Event (Notification_Written 0 ''third'')]"

definition ex_system_optics :: optical_events where
  "ex_system_optics = \<lparr>oe_sub = Some ''m'', oe_lastData = ''{}''\<rparr>"

definition ex_system :: "(nat, nat) system" where
  "ex_system = the (system_exec ex_system_env (system_init Nacm_init ex_system_optics) ex_system_events)"

lemma ex_system_summary:
  "map_option (\<lambda>s. (map call_user (sy_log s), map (\<lambda>r. (map status (rq_responses r), rq_pending r = Finished, rq_authDelay r)) (sy_requests s),
      map hs_source (hub_streams (sy_hub s)), map_option sd_user (ds_heap (hub_subs (sy_hub s)) 0), sy_crashed s))
     (system_exec ex_system_env (system_init Nacm_init ex_system_optics) ex_system_events) =
   Some ([Some ''alice'', Some ''alice'', Some ''bob'', Some ''bob'', Some ''bob'', Some ''bob'', Some ''bob''],
     [([200], True, None), ([201], True, None), ([200], True, None), ([401], True, None)], [Subscribed 0], Some ''alice'', None)"
  by code_simp

lemma ex_system_exec: "system_exec ex_system_env (system_init Nacm_init ex_system_optics) ex_system_events = Some ex_system"
  using ex_system_summary by (auto simp: ex_system_def)

lemma ex_system_run: "system_run ex_system_env Nacm_init ex_system_optics ex_system_events ex_system"
  using system_exec_run [OF ex_system_exec system_run.start] by simp

lemma ex_system_state:
  "map call_user (sy_log ex_system) = [Some ''alice'', Some ''alice'', Some ''bob'', Some ''bob'', Some ''bob'', Some ''bob'', Some ''bob'']"
  "map (\<lambda>r. (map status (rq_responses r), rq_pending r = Finished, rq_authDelay r)) (sy_requests ex_system) =
     [([200], True, None), ([201], True, None), ([200], True, None), ([401], True, None)]"
  "map hs_source (hub_streams (sy_hub ex_system)) = [Subscribed 0]" "map_option sd_user (ds_heap (hub_subs (sy_hub ex_system)) 0) = Some ''alice''"
  "sy_crashed ex_system = None"
  using ex_system_summary unfolding ex_system_exec by simp_all

section \<open>Properties\<close>







text \<open>C14. Every request other than a YANG patch is answered once: nothing is sent while its body is incomplete or the delay of a failed authentication
  runs; after that there is exactly one response, unless the client has closed the request or an exception has ended the server.\<close>

theorem system_requests_answered:
  assumes "system_run G nacm oe tr s" and "i < length (sy_requests s)" and "\<not> isYangPatch (rq_request (sy_requests s ! i))"
  shows "let rq = sy_requests s ! i in
    if rq_pending rq \<noteq> Finished \<or> rq_authDelay rq \<noteq> None then rq_responses rq = []
    else length (rq_responses rq) = 1 \<or> rq_responses rq = [] \<and> (Request_Closed i \<in> set tr \<or> sy_crashed s \<noteq> None)"
proof -
  have "request_answered (Request_Closed i \<in> set tr \<or> sy_crashed s \<noteq> None) (sy_requests s ! i)"
    using system_run_answered [OF assms(1)] assms(2) by (simp add: answer_inv_def)
  then show ?thesis using assms(3) unfolding request_answered_def Let_def
    by (cases "rq_pending (sy_requests s ! i)"; cases "rq_authDelay (sy_requests s ! i)") auto
qed

theorem system_requests_answered_witness:
  "map (\<lambda>r. map status (rq_responses r)) (sy_requests ex_system) = [[200], [201], [200], [401]] \<and> length (rq_responses (sy_requests ex_system ! 3)) = 1"
proof -
  have sts: "map (\<lambda>r. map status (rq_responses r)) (sy_requests ex_system) = [[200], [201], [200], [401]]"
    using arg_cong [OF ex_system_state(2), of "map fst"] by (simp add: o_def)
  have len: "length (sy_requests ex_system) = 4" using arg_cong [OF sts, of length] by simp
  have "(\<lambda>r. (map status (rq_responses r), rq_pending r = Finished, rq_authDelay r)) (sy_requests ex_system ! 3) = ([401], True, None)"
    using arg_cong [OF ex_system_state(2), of "\<lambda>xs. xs ! 3"] len by simp
  moreover have "\<not> isYangPatch (rq_request (sy_requests ex_system ! 3))" by code_simp
  moreover have "Request_Closed 3 \<notin> set ex_system_events" by (simp add: ex_system_events_def)
  ultimately show ?thesis using system_requests_answered [OF ex_system_run, of 3] len sts ex_system_state(5) by (simp add: Let_def)
qed

text \<open>C15. The server with its handlers implements the message service, which knows streams and subscriptions only as messages and owners: every run is
  a run of the service in which whatever a user does (establishing, deleting or consuming a subscription) is done by a request that was authorized as this
  user, the notifications written are those that sysrepo wrote, and the service is stopped only if the server is.\<close>

theorem system_refines_service:
  assumes "system_run G nacm oe tr s"
  shows "\<exists>oe' htr. foldE (\<lambda>sp e. service_step (live_of G) e sp) (service_of (hub_init oe')) htr = Inr (service_of (sy_hub s)) \<and>
    (\<forall>e \<in> set htr. not_by_request e \<or> (\<exists>i user. authorised_request G nacm oe tr i user \<and> requested user e)) \<and>
    (\<forall>a. written a htr = written a (live_events tr)) \<and> (Stop \<in> set htr \<longrightarrow> Live_Event Stop \<in> set tr)"
proof -
  obtain htr where htr: "hub_run (live_of G) htr (sy_hub s)" "hub_traced (authorised_request G nacm oe tr) tr htr" using system_run_hub [OF assms] by blast
  from hub_run_live [OF htr(1)] live.run_spec [OF _ hub_init_inv(1)]
  obtain oe' where "foldE (\<lambda>sp e. service_step (live_of G) e sp) (service_of (hub_init oe')) htr = Inr (service_of (sy_hub s))" by blast
  then show ?thesis using htr(2) unfolding hub_traced_def by blast
qed

theorem system_refines_service_witness:
  "\<exists>oe' htr. foldE (\<lambda>sp e. service_step (live_of ex_system_env) e sp) (service_of (hub_init oe')) htr = Inr (service_of (sy_hub ex_system)) \<and>
    written 0 htr = [''first'', ''second'', ''third'']"
proof -
  have "written 0 (live_events ex_system_events) = [''first'', ''second'', ''third'']" by code_simp
  then show ?thesis using system_refines_service [OF ex_system_run] by metis
qed





end
