(* ===== verification/Datastore.thy ===== *)
theory Datastore
  imports Server_Traces
begin

text \<open>
  What a request changes in a datastore, read off the calls of its session and the answers of sysrepo: a change is confirmed when
  sysrepo accepts it, and it consists of the edits that the session had passed before. The laws relate confirmed changes to what the
  client is told: a request is answered with success exactly when its change was confirmed.
\<close>

section \<open>Confirmed changes\<close>

datatype 'n change =
    Edited sr_datastore "string option" "'n dnode list list"
  | Replaced sr_datastore "string option" "'n dnode list"

text \<open>Edits that wait for \<open>applyChanges\<close>, for each datastore, and the changes so far.\<close>

record 'n ledger =
  staged :: "sr_datastore \<Rightarrow> 'n dnode list list"
  confirmed :: "'n change list"

definition no_changes :: "'n ledger" where
  "no_changes = \<lparr>staged = (\<lambda>_. []), confirmed = []\<rparr>"

definition enter_call :: "exn + unit \<Rightarrow> 'n sr_call \<Rightarrow> 'n ledger \<Rightarrow> 'n ledger" where
  "enter_call answer c l = (case answer of Inl _ \<Rightarrow> l | Inr _ \<Rightarrow> (case call_op c of
      Sr_EditBatch edit \<Rightarrow> l\<lparr>staged := (staged l)(call_ds c := staged l (call_ds c) @ [edit])\<rparr>
    | Sr_ApplyChanges \<Rightarrow> l\<lparr>staged := (staged l)(call_ds c := []), confirmed := confirmed l @ [Edited (call_ds c) (call_user c) (staged l (call_ds c))]\<rparr>
    | Sr_ReplaceConfig config \<Rightarrow> l\<lparr>confirmed := confirmed l @ [Replaced (call_ds c) (call_user c) config]\<rparr>
    | _ \<Rightarrow> l))"

text \<open>\<open>answer\<close> gives what sysrepo says to the last of a sequence of calls; \<open>past\<close> are the calls before.\<close>

fun enter_calls :: "('n sr_call list \<Rightarrow> exn + unit) \<Rightarrow> 'n sr_call list \<Rightarrow> 'n ledger \<Rightarrow> 'n sr_call list \<Rightarrow> 'n ledger" where
  "enter_calls answer past l [] = l"
| "enter_calls answer past l (c # cs) = enter_calls answer (past @ [c]) (enter_call (answer (past @ [c])) c l) cs"

lemma enter_calls_append: "enter_calls answer past l (cs @ cs') = enter_calls answer (past @ cs) (enter_calls answer past l cs) cs'"
  by (induction cs arbitrary: past l) simp_all

lemma enter_calls_answers:
  assumes "\<And>ys. answer (past @ ys) = answer' (past' @ ys)"
  shows "enter_calls answer past l cs = enter_calls answer' past' l cs"
  using assms
proof (induction cs arbitrary: past past' l)
  case (Cons c cs)
  have "enter_calls answer (past @ [c]) l' cs = enter_calls answer' (past' @ [c]) l' cs" for l'
    by (rule Cons.IH) (use Cons.prems [of "c # _"] in simp)
  then show ?case using Cons.prems [of "[c]"] by simp
qed simp

text \<open>A call that does not write confirms nothing.\<close>

lemma enter_call_read [simp]: "\<not> is_write (call_op c) \<Longrightarrow> enter_call answer c l = l"
  by (auto simp: enter_call_def split: sum.split sr_operation.split)

lemma enter_calls_read: "list_all (\<lambda>c. \<not> is_write (call_op c)) cs \<Longrightarrow> enter_calls answer past l cs = l"
  by (induction cs arbitrary: past) simp_all

text \<open>A change goes back to a call that writes.\<close>

fun change_ds :: "'n change \<Rightarrow> sr_datastore" where
  "change_ds (Edited ds user edits) = ds" | "change_ds (Replaced ds user config) = ds"

fun change_user :: "'n change \<Rightarrow> string option" where
  "change_user (Edited ds user edits) = user" | "change_user (Replaced ds user config) = user"

definition makes_change :: "'n sr_call \<Rightarrow> 'n change \<Rightarrow> bool" where
  "makes_change c chg \<longleftrightarrow> is_write (call_op c) \<and> change_ds chg = call_ds c \<and> change_user chg = call_user c"

lemma confirmed_calls:
  "chg \<in> set (confirmed (enter_calls answer past l cs)) \<Longrightarrow> chg \<in> set (confirmed l) \<or> (\<exists>c \<in> set cs. makes_change c chg)"
proof (induction cs arbitrary: past l)
  case (Cons c cs)
  have "chg \<in> set (confirmed l) \<or> makes_change c chg" if "chg \<in> set (confirmed (enter_call a c l))" for a
    using that by (auto simp: enter_call_def makes_change_def split: sum.splits sr_operation.splits)
  then show ?case using Cons.IH Cons.prems by fastforce
qed simp

text \<open>The ledger of the session that a handler works with.\<close>

definition ledger_of :: "'n sysrepo \<Rightarrow> ('n, 'u) world \<Rightarrow> 'n ledger" where
  "ledger_of sr w = enter_calls (sr_done sr) [] no_changes (w_calls w)"

lemma ledger_of_call [simp]:
  "ledger_of sr (record_call c w) = enter_call (sr_done sr (w_calls w @ [session_call w c])) (session_call w c) (ledger_of sr w)"
  by (simp add: ledger_of_def enter_calls_append)

lemma ledger_of_other [simp]:
  "ledger_of sr (w\<lparr>w_responses := rs\<rparr>) = ledger_of sr w" "ledger_of sr (w\<lparr>w_sess := sess\<rparr>) = ledger_of sr w"
  "ledger_of sr (w\<lparr>w_authDelay := d\<rparr>) = ledger_of sr w" "ledger_of sr (w\<lparr>w_subs := subs\<rparr>) = ledger_of sr w"
  by (simp_all add: ledger_of_def)

section \<open>Reported changes\<close>

text \<open>The responses by which a client is told that its request has changed the datastore.\<close>

definition reports_status :: "http_request \<Rightarrow> int \<Rightarrow> bool" where
  "reports_status req st \<longleftrightarrow>
     (if http_method req = ''POST'' then st = 201 else http_method req \<in> {''PUT'', ''PATCH'', ''DELETE''} \<and> (st = 201 \<or> st = 204))"

definition reports_change :: "http_request \<Rightarrow> 'n http_response \<Rightarrow> bool" where
  "reports_change req r \<longleftrightarrow> (case body r of No_Body \<Rightarrow> reports_status req (status r) | _ \<Rightarrow> False)"

definition reported :: "http_request \<Rightarrow> ('n, 'u) world \<Rightarrow> 'n http_response list" where
  "reported req w = filter (reports_change req) (w_responses w)"

lemma reported_other [simp]:
  "reported req (record_call c w) = reported req w" "reported req (w\<lparr>w_sess := sess\<rparr>) = reported req w"
  "reported req (w\<lparr>w_authDelay := d\<rparr>) = reported req w" "reported req (w\<lparr>w_subs := subs\<rparr>) = reported req w"
  by (simp_all add: reported_def)

section \<open>Handlers that write\<close>

text \<open>
  A handler commits: if it returns, its change was confirmed and reported, and if it throws, there was no change and no response. \<open>want\<close> is
  the change that the request asks for, on the session it has. It settles, if it is one of both whether it returns or throws.
\<close>

definition idle :: "'n sysrepo \<Rightarrow> ('n, 'u) world \<Rightarrow> bool" where
  "idle sr w \<longleftrightarrow> staged (ledger_of sr w) = (\<lambda>_. [])"

definition untouched :: "'n sysrepo \<Rightarrow> http_request \<Rightarrow> ('n, 'u) world \<Rightarrow> ('n, 'u) world \<Rightarrow> bool" where
  "untouched sr req w w' \<longleftrightarrow> confirmed (ledger_of sr w') = confirmed (ledger_of sr w) \<and> reported req w' = reported req w"

definition committed :: "'n sysrepo \<Rightarrow> http_request \<Rightarrow> (sr_session \<Rightarrow> exn + 'n change) \<Rightarrow> ('n, 'u) world \<Rightarrow> ('n, 'u) world \<Rightarrow> bool" where
  "committed sr req want w w' \<longleftrightarrow> (\<exists>chg r. want (w_sess w) = Inr chg \<and>
     confirmed (ledger_of sr w') = confirmed (ledger_of sr w) @ [chg] \<and> reported req w' = reported req w @ [r])"

definition commits :: "'n sysrepo \<Rightarrow> http_request \<Rightarrow> (sr_session \<Rightarrow> exn + 'n change) \<Rightarrow> ('n, 'u, unit) server_action \<Rightarrow> bool" where
  "commits sr req want m \<longleftrightarrow> (\<forall>w res w'. idle sr w \<longrightarrow> m w = (res, w') \<longrightarrow>
     (if isl res then untouched sr req w w' else committed sr req want w w'))"

definition settles :: "'n sysrepo \<Rightarrow> http_request \<Rightarrow> (sr_session \<Rightarrow> exn + 'n change) \<Rightarrow> ('n, 'u, 'a) server_action \<Rightarrow> bool" where
  "settles sr req want m \<longleftrightarrow> (\<forall>w res w'. idle sr w \<longrightarrow> m w = (res, w') \<longrightarrow> untouched sr req w w' \<or> committed sr req want w w')"

lemma untouched_refl [simp]: "untouched sr req w w"
  by (simp add: untouched_def)

lemma commitsI:
  assumes "\<And>w e w'. idle sr w \<Longrightarrow> m w = (Inl e, w') \<Longrightarrow> untouched sr req w w'"
    and "\<And>w w'. idle sr w \<Longrightarrow> m w = (Inr (), w') \<Longrightarrow> committed sr req want w w'"
  shows "commits sr req want m"
  unfolding commits_def
proof (intro allI impI)
  fix w res w'
  assume "idle sr w" "m w = (res, w')"
  then show "if isl res then untouched sr req w w' else committed sr req want w w'" using assms by (cases res) auto
qed

lemma commits_Inl: "commits sr req want m \<Longrightarrow> idle sr w \<Longrightarrow> m w = (Inl e, w') \<Longrightarrow> untouched sr req w w'"
  unfolding commits_def by fastforce

lemma commits_Inr: "commits sr req want m \<Longrightarrow> idle sr w \<Longrightarrow> m w = (Inr a, w') \<Longrightarrow> committed sr req want w w'"
  unfolding commits_def by fastforce

lemma commits_settles: "commits sr req want m \<Longrightarrow> settles sr req want m"
  unfolding commits_def settles_def by metis

text \<open>The steps a writing handler is made of.\<close>

definition edit_change :: "'n dnode list \<Rightarrow> sr_session \<Rightarrow> exn + 'n change" where
  "edit_change edit s = Inr (Edited (activeDatastore s) (nacmUser s) [edit])"

lemma commits_edit:
  assumes "reports_status req st"
  shows "commits sr req (edit_change edit)
    (bindA (sess_editBatch sr edit) (\<lambda>_. bindA (sess_applyChanges sr) (\<lambda>_. respond st hs No_Body)))"
  using assms
  by (intro commitsI)
    (auto simp: bindA_def sess_editBatch_def sess_applyChanges_def ask_apply respond_def untouched_def committed_def idle_def edit_change_def
      enter_call_def session_call_def reported_def reports_change_def split: sum.splits)

lemma commits_pure:
  assumes "\<And>a. commits sr req (want a) (f a)"
  shows "commits sr req (\<lambda>s. bindE r (\<lambda>a. want a s)) (bindA (liftE r) f)"
  by (rule commitsI)
    (auto simp: bindA_def committed_def split: sum.splits dest: commits_Inl [OF assms] commits_Inr [OF assms])

lemma commits_getData:
  assumes "\<And>a. commits sr req want (f a)"
  shows "commits sr req want (bindA (sess_getData sr p d opts) f)"
proof -
  have "idle sr (record_call (Sr_GetData p d opts) w) = idle sr w" for w :: "('a, 'b) world" by (simp add: idle_def session_call_def)
  moreover have "untouched sr req (record_call (Sr_GetData p d opts) w) w' = untouched sr req w w'"
    "committed sr req want (record_call (Sr_GetData p d opts) w) w' = committed sr req want w w'"
    "untouched sr req w (record_call (Sr_GetData p d opts) w)" for w w' :: "('a, 'b) world"
    by (simp_all add: untouched_def committed_def session_call_def)
  ultimately show ?thesis
    by (intro commitsI)
      (auto simp: bindA_def sess_getData_def ask_apply split: sum.splits dest!: commits_Inl [OF assms, rotated] commits_Inr [OF assms, rotated])
qed

lemma commits_throw: "commits sr req want (liftE (Inl e))"
  by (rule commitsI) auto

lemma commits_with_lock:
  assumes "commits sr req want m"
  shows "commits sr req want (with_lock sr m)"
proof -
  have "idle sr (record_call Sr_Lock w) = idle sr w" for w :: "('a, 'b) world" by (simp add: idle_def session_call_def)
  moreover have "untouched sr req w (record_call Sr_Unlock w') = untouched sr req (record_call Sr_Lock w) w'"
    "committed sr req want w (record_call Sr_Unlock w') = committed sr req want (record_call Sr_Lock w) w'"
    "untouched sr req w (record_call Sr_Lock w)" for w w' :: "('a, 'b) world"
    by (simp_all add: untouched_def committed_def session_call_def)
  ultimately show ?thesis
    by (intro commitsI) (auto dest!: locked_trace commits_Inl [OF assms, rotated] commits_Inr [OF assms, rotated])
qed

section \<open>The writing requests\<close>

text \<open>The change a request with a body asks for, YANG patches apart.\<close>

definition post_edit :: "'n server_env \<Rightarrow> request_context \<Rightarrow> exn + 'n dnode list" where
  "post_edit E rc =
     bindE (deref ''processPost'' (df_request (rc_dataFormat rc))) (\<lambda>fmt.
     bindE (postEdit (env_ly E) (req_path (rc_restconfRequest rc)) (rc_payload rc) fmt) (\<lambda>(edit, node).
       yangInsertRequest (env_ly E) (req_queryParams (rc_restconfRequest rc)) (newMeta ''ietf-netconf'' ''operation'' ''create'' node edit) node))"

definition root_data :: "'n server_env \<Rightarrow> request_context \<Rightarrow> exn + 'n dnode list" where
  "root_data E rc =
     bindE (deref ''processPutOrPlainPatch'' (df_request (rc_dataFormat rc))) (\<lambda>fmt.
     bindE (ld_parseData (env_ly E) (rc_payload rc) fmt) (\<lambda>edit.
       if edit = [] then throw_error 400 ''protocol'' ''malformed-message'' ''Empty data tree received.''
       else bindE (validateInputMetaAttributes (env_ly E) edit) (\<lambda>_. Inr edit)))"

definition root_change :: "request_context \<Rightarrow> 'n dnode list \<Rightarrow> sr_session \<Rightarrow> exn + 'n change" where
  "root_change rc data s =
     (if http_method (rc_req rc) = ''PUT'' then Inr (Replaced (activeDatastore s) (nacmUser s) data) else edit_change data s)"

definition requested_change :: "'n server_env \<Rightarrow> request_context \<Rightarrow> sr_session \<Rightarrow> exn + 'n change" where
  "requested_change E rc s =
     (if req_type (rc_restconfRequest rc) = CreateChildren then bindE (post_edit E rc) (\<lambda>edit. edit_change edit s)
      else if req_path (rc_restconfRequest rc) = ''/'' then bindE (root_data E rc) (\<lambda>data. root_change rc data s)
      else bindE (putOrPatchEdit E rc) (\<lambda>edit. edit_change edit s))"

definition delete_change :: "'n server_env \<Rightarrow> restconf_request \<Rightarrow> sr_session \<Rightarrow> exn + 'n change" where
  "delete_change E r s = bindE (deleteEdit (env_ly E) (req_path r)) (\<lambda>edit.
     edit_change edit (switchDatastore (case req_datastore r of Some ds \<Rightarrow> ds | None \<Rightarrow> Running) s))"

text \<open>A request has the type that its method asks for.\<close>

fun method_of :: "request_type \<Rightarrow> string option" where
  "method_of CreateOrReplaceThisNode = Some ''PUT''"
| "method_of CreateChildren = Some ''POST''"
| "method_of MergeData = Some ''PATCH''"
| "method_of DeleteNode = Some ''DELETE''"
| "method_of Execute = Some ''POST''"
| "method_of ExecuteInternal = Some ''POST''"
| "method_of _ = None"

lemma commits_processPost:
  assumes "http_method (rc_req rc) = ''POST''"
  shows "commits (env_sr E) (rc_req rc) (\<lambda>s. bindE (post_edit E rc) (\<lambda>edit. edit_change edit s)) (processPost E rc)"
  unfolding processPost_def post_edit_def [symmetric] using assms
  by (intro commits_pure commits_edit) (simp add: reports_status_def)

lemma commits_root:
  assumes "http_method (rc_req rc) \<in> {''PUT'', ''PATCH''}"
  shows "commits (env_sr E) (rc_req rc) (\<lambda>s. bindE (root_data E rc) (\<lambda>data. root_change rc data s)) (processRootPutOrPatch E rc)"
proof -
  let ?rest = "\<lambda>data. if http_method (rc_req rc) = ''PUT''
    then bindA (sess_replaceConfig (env_sr E) data) (\<lambda>_. respond 201 [CORS] No_Body)
    else bindA (sess_editBatch (env_sr E) data) (\<lambda>_. bindA (sess_applyChanges (env_sr E)) (\<lambda>_. respond 204 [CORS] No_Body))"
  have replace: "commits (env_sr E) (rc_req rc) (root_change rc data) (bindA (sess_replaceConfig (env_sr E) data) (\<lambda>_. respond 201 [CORS] No_Body))"
    if "http_method (rc_req rc) = ''PUT''" for data
    using that
    by (intro commitsI)
      (auto simp: bindA_def sess_replaceConfig_def ask_apply respond_def untouched_def committed_def root_change_def enter_call_def session_call_def
        reported_def reports_change_def reports_status_def split: sum.splits)
  have "root_change rc data = edit_change data" if "http_method (rc_req rc) \<noteq> ''PUT''" for data :: "'a dnode list"
    using that by (simp add: root_change_def fun_eq_iff)
  moreover have "reports_status (rc_req rc) 204" using assms by (auto simp: reports_status_def)
  ultimately have "commits (env_sr E) (rc_req rc) (root_change rc data) (?rest data)" for data
    by (auto intro: replace commits_edit)
  then show ?thesis unfolding processRootPutOrPatch_def root_data_def [symmetric] by (rule commits_pure)
qed

lemma commits_putOrPatchLocked:
  assumes "http_method (rc_req rc) \<in> {''PUT'', ''PATCH''}"
  shows "commits (env_sr E) (rc_req rc) (\<lambda>s. bindE (putOrPatchEdit E rc) (\<lambda>edit. edit_change edit s)) (putOrPatchLocked E rc)"
  unfolding putOrPatchLocked_def Let_def using assms
  by (intro commits_getData)
    (auto simp: throw_error_def throw_error_at_def reports_status_def intro!: commits_throw commits_pure commits_edit)

lemma commits_putOrPlainPatch:
  assumes "http_method (rc_req rc) \<in> {''PUT'', ''PATCH''}" and "req_type (rc_restconfRequest rc) \<noteq> CreateChildren"
  shows "commits (env_sr E) (rc_req rc) (requested_change E rc) (processPutOrPlainPatch E rc)"
proof (cases "req_path (rc_restconfRequest rc) = ''/''")
  case True
  then show ?thesis using commits_root [OF assms(1), of E] assms(2)
    by (simp add: processPutOrPlainPatch_def requested_change_def [abs_def] cong: if_cong)
next
  case False
  let ?want = "\<lambda>s. bindE (putOrPatchEdit E rc) (\<lambda>edit. edit_change edit s)"
  note m = commits_putOrPatchLocked [OF assms(1), of E]
  have "commits (env_sr E) (rc_req rc) ?want (processPutOrPlainPatch E rc)"
    using False commits_Inl [OF m] commits_Inr [OF m] commits_Inl [OF commits_with_lock [OF m]] commits_Inr [OF commits_with_lock [OF m]]
    by (intro commitsI) (simp_all add: processPutOrPlainPatch_def split: if_splits)
  then show ?thesis using False assms(2) by (simp add: requested_change_def [abs_def])
qed

section \<open>Requests that do not write\<close>

text \<open>Handlers that read leave the ledger as it is, and so do error responses and the RPCs the server handles itself.\<close>

interpretation unchanged: read_frame "\<lambda>w. ledger_of sr w = l" for sr l
  by unfold_locales simp_all

interpretation unchanged_rpc: rpc_frame "\<lambda>w. ledger_of sr w = l" SE for sr l SE
  by unfold_locales
    (simp_all add: rpcEstablish_def rpcDelete_def keeps_bindA keeps_liftE keeps_def bindA_def split: prod.split sum.split)

text \<open>Responses that report no change.\<close>

abbreviation no_report :: "http_request \<Rightarrow> ('n, 'u, 'a) server_action \<Rightarrow> bool" where
  "no_report req m \<equiv> (\<forall>x. keeps (\<lambda>w. reported req w = x) m)"

named_theorems report_intros \<open>actions that do not report a change\<close>

lemma no_report_quiet: "quiet m \<Longrightarrow> no_report req m"
  by (simp add: keeps_def quiet_def reported_def reply_def)

lemma no_report_respond:
  "\<not> reports_status req st \<or> b \<noteq> No_Body \<Longrightarrow> no_report req (respond st hs b)"
  by (auto simp: keeps_def respond_def reported_def reports_change_def split: http_body.split)

lemma no_report_bindA [report_intros]: "no_report req m \<Longrightarrow> (\<And>a. no_report req (f a)) \<Longrightarrow> no_report req (bindA m f)"
  by (auto intro: keeps_bindA)

lemma no_report_basic [report_intros]:
  "no_report req (ret a)" "no_report req (liftE r)" "no_report req (sess_getData sr p d opts)" "no_report req (sess_switchDatastore ds)"
  "no_report req (sess_sendRPC sr t)" "no_report req (sess_checkNacmOperation sr t)" "no_report req (ask f c)"
  by (rule no_report_quiet, rule response_intros)+

lemma no_report_if [report_intros]: "no_report req m \<Longrightarrow> no_report req n \<Longrightarrow> no_report req (if b then m else n)"
  by simp

lemma no_report_case_prod [report_intros]: "(\<And>a b. no_report req (f a b)) \<Longrightarrow> no_report req (case x of (a, b) \<Rightarrow> f a b)"
  by (cases x) simp

lemma no_report_finish [report_intros]: "no_report req m \<Longrightarrow> no_report req (finish m)"
  unfolding finish_def by (intro report_intros)

lemma no_report_catchA: "no_report req m \<Longrightarrow> (\<And>e k. h e = Some k \<Longrightarrow> no_report req k) \<Longrightarrow> no_report req (catchA m h)"
  by (auto intro: keeps_catchA)

lemma no_report_rejectAuth: "no_report req m \<Longrightarrow> no_report req (rejectAuth a m)"
  by (auto simp: rejectAuth_def keeps_def split: auth_failure_state.split)

lemma no_report_reject [report_intros]: "no_report req (rejectWithErrorImpl E container fmt req' e)"
  unfolding rejectWithErrorImpl_def Let_def by (intro report_intros no_report_respond) simp

lemma no_report_rejectWithError [report_intros]: "no_report req (rejectWithError E fmt req' e)"
  unfolding rejectWithError_def by (rule no_report_reject)

lemma no_report_exceptions:
  "restconfExceptions E (rejectWithError E fmt req') rc e = Some k \<Longrightarrow> no_report req k"
  by (auto simp: restconfExceptions_def simp del: all_simps intro!: report_intros [rule_format]
      split: exn.splits ly_error.splits option.splits ly_error_code.splits sr_error_code.splits)

lemma no_report_restconfCatch: "restconfCatch E fmt req' e = Some k \<Longrightarrow> no_report req k"
  unfolding restconfCatch_def restconfAuthFailed_def
  by (auto intro!: report_intros [rule_format] no_report_rejectAuth [rule_format] split: exn.splits)

lemma no_report_handlers:
  "no_report req (handleGetData E df req' r)" "no_report req (handleOptions E req')"
  "no_report req (bindA (liftE doc) (\<lambda>d. respond 200 hs (Paths_Body fmt d)))"
proof -
  show "no_report req (handleGetData E df req' r)"
    unfolding handleGetData_def by (intro report_intros no_report_respond) simp
  show "no_report req (handleOptions E req')"
    unfolding handleOptions_def by (intro report_intros no_report_respond) (simp_all add: reports_status_def)
  show "no_report req (bindA (liftE doc) (\<lambda>d. respond 200 hs (Paths_Body fmt d)))"
    by (intro report_intros no_report_respond) simp
qed

text \<open>An RPC without output is answered with 204, which is no answer to a POST that creates data.\<close>

lemma no_report_processRpc:
  assumes "http_method req = ''POST''"
  shows "no_report req (processRpc E SE rc)"
proof -
  have "no_report req (processActionOrRPC E SE rc)"
    unfolding processActionOrRPC_def Let_def rpcResponse_def using assms
    by (intro report_intros no_report_respond no_report_quiet quiet_processInternalRPC) (simp_all add: reports_status_def)
  then show ?thesis unfolding processRpc_def withRestconfExceptions_def by (rule no_report_catchA) (rule no_report_exceptions)
qed

section \<open>Whole requests\<close>

text \<open>An action without writing calls and reports.\<close>

definition inert :: "'n sysrepo \<Rightarrow> http_request \<Rightarrow> ('n, 'u, 'a) server_action \<Rightarrow> bool" where
  "inert sr req m \<longleftrightarrow> (\<forall>w. ledger_of sr (snd (m w)) = ledger_of sr w \<and> reported req (snd (m w)) = reported req w)"

lemma inertI: "(\<And>l. keeps (\<lambda>w. ledger_of sr w = l) m) \<Longrightarrow> no_report req m \<Longrightarrow> inert sr req m"
  unfolding inert_def keeps_def by blast

lemma inert_untouched: "inert sr req m \<Longrightarrow> m w = (res, w') \<Longrightarrow> untouched sr req w w'"
  unfolding inert_def untouched_def by (metis snd_conv)

lemma inert_settles: "inert sr req m \<Longrightarrow> settles sr req want m"
  unfolding settles_def by (metis inert_untouched)

text \<open>A catch clause answers for a handler that has committed nothing.\<close>

lemma settles_catchA:
  assumes "commits sr req want m" and "\<And>e k. h e = Some k \<Longrightarrow> inert sr req k"
  shows "settles sr req want (catchA m h)"
  unfolding settles_def
proof (intro allI impI)
  fix w res w'
  assume w: "idle sr w" and c: "catchA m h w = (res, w')"
  obtain r w1 where m: "m w = (r, w1)" by fastforce
  show "untouched sr req w w' \<or> committed sr req want w w'"
  proof (cases r)
    case (Inl e)
    then have u: "untouched sr req w w1" using commits_Inl [OF assms(1) w] m by simp
    show ?thesis
    proof (cases "h e")
      case (Some k)
      then have "k w1 = (res, w')" using c m Inl by (simp add: catchA_def)
      from inert_untouched [OF assms(2) [OF Some] this] show ?thesis using u by (simp add: untouched_def)
    qed (use c m Inl u in \<open>simp add: catchA_def\<close>)
  next
    case (Inr a)
    then show ?thesis using commits_Inr [OF assms(1) w] m c by (simp add: catchA_def)
  qed
qed

lemma inert_exceptions:
  assumes "restconfExceptions E (rejectWithError E fmt req') rc e = Some k"
  shows "inert sr req k"
  by (rule inertI [OF unchanged.keeps_restconfExceptions [OF unchanged.keeps_rejectWithError assms] no_report_exceptions [OF assms]])

lemma settles_processWrite:
  assumes "method_of (req_type (rc_restconfRequest rc)) = Some (http_method (rc_req rc))"
    and "req_type (rc_restconfRequest rc) \<in> {CreateOrReplaceThisNode, CreateChildren, MergeData}" and "\<not> isYangPatch (rc_req rc)"
  shows "settles (env_sr E) (rc_req rc) (requested_change E rc) (processWrite E rc)"
proof (cases "req_type (rc_restconfRequest rc) = CreateChildren")
  case True
  then have "commits (env_sr E) (rc_req rc) (requested_change E rc) (processPost E rc)"
    using commits_processPost [of rc E] assms(1) by (simp add: requested_change_def [abs_def])
  then show ?thesis using True unfolding processWrite_def withRestconfExceptions_def
    by (auto intro: settles_catchA inert_exceptions)
next
  case False
  then have "commits (env_sr E) (rc_req rc) (requested_change E rc) (processPutOrPlainPatch E rc)"
    using assms(1,2) by (intro commits_putOrPlainPatch) auto
  then show ?thesis using False assms(3) unfolding processWrite_def withRestconfExceptions_def
    by (auto intro: settles_catchA inert_exceptions)
qed

lemma inert_processRpc: "http_method req = ''POST'' \<Longrightarrow> inert sr req (processRpc E SE rc)"
  by (rule inertI [OF unchanged_rpc.keeps_processRpc no_report_processRpc])

lemma commits_handleDelete:
  assumes "http_method req = ''DELETE''"
  shows "commits (env_sr E) req (delete_change E r) (handleDelete E r)"
  using assms
  by (intro commitsI)
    (auto simp: handleDelete_def bindA_def catchA_def sess_switchDatastore_def sess_editBatch_def sess_applyChanges_def ask_apply respond_def
      throw_error_def throw_error_at_def untouched_def committed_def idle_def delete_change_def edit_change_def enter_call_def session_call_def
      reported_def reports_change_def reports_status_def
      split: sum.splits if_splits exn.splits sr_error_code.splits option.splits)

section \<open>The RESTCONF route\<close>

lemma method_of_read_only [simp]: "method_of (read_only_request t) = None"
  by (cases t) (simp_all add: read_only_request_def)

lemma request_method:
  assumes "asRestconfRequest what ctx m up q = Inr r" and "method_of (req_type r) = Some m'"
  shows "m' = m"
proof -
  obtain uri ps ly node t where t: "request_table m (path_prefix uri) (target_of ctx node) = Some t"
      "RestconfRequest t (request_datastore t uri) (request_path t uri ly) (request_params t ps) = Inr r"
    using assms(1) unfolding asRestconfRequest_Inr_iff request_parts_def by blast
  then have "req_type r = t" by (auto simp: RestconfRequest_def bindE_eq_Inr_iff)
  then have "method_of t = Some m'" using assms(2) by simp
  with t(1) show ?thesis
    by (auto simp: request_table_def operation_request_def data_request_def split: if_splits option.splits prod.splits node_type.splits)
qed

text \<open>What a request waits for fits its method.\<close>

fun awaits :: "http_request \<Rightarrow> handler_result \<Rightarrow> bool" where
  "awaits req Finished = True"
| "awaits req (Await_Write rc) \<longleftrightarrow> rc_req rc = req \<and> method_of (req_type (rc_restconfRequest rc)) = Some (http_method req) \<and>
     req_type (rc_restconfRequest rc) \<in> {CreateOrReplaceThisNode, CreateChildren, MergeData}"
| "awaits req (Await_Rpc rc) \<longleftrightarrow> rc_req rc = req \<and> http_method req = ''POST''"

text \<open>The change that the head of a request asks for: only DELETE has no body.\<close>

definition head_change :: "'n server_env \<Rightarrow> string \<Rightarrow> (string \<Rightarrow> exn + string) \<Rightarrow> nacm \<Rightarrow> http_request \<Rightarrow> sr_session \<Rightarrow> exn + 'n change" where
  "head_change E anonUser authenticate nacm req s =
     bindE (authorizeRequest anonUser authenticate nacm s (http_header req)) (\<lambda>sess.
     bindE (asRestconfRequest (env_what E) (env_ctx E) (http_method req) (http_raw_path req) (http_raw_query req)) (\<lambda>r.
       delete_change E r sess))"

lemma finish_commits:
  assumes "commits sr req want m" and "idle sr w" and "finish m w = (res, w')"
  shows "if isl res then untouched sr req w w' else committed sr req want w w' \<and> res = Inr Finished"
  using assms(3) commits_Inl [OF assms(1,2)] commits_Inr [OF assms(1,2)]
  by (auto simp: finish_def bindA_def split: prod.splits sum.splits)

lemma finish_inert:
  assumes "inert sr req m" and "finish m w = (res, w')"
  shows "untouched sr req w w' \<and> (isl res \<or> res = Inr Finished)"
  using assms(2) inert_untouched [OF assms(1)] by (auto simp: finish_def bindA_def split: prod.splits sum.splits)

text \<open>The head of a request is done without a change, or waits for a body, or has committed.\<close>

definition head_outcome :: "'n sysrepo \<Rightarrow> http_request \<Rightarrow> (sr_session \<Rightarrow> exn + 'n change) \<Rightarrow>
    ('n, 'u) world \<Rightarrow> exn + handler_result \<Rightarrow> ('n, 'u) world \<Rightarrow> bool" where
  "head_outcome sr req want w res w' \<longleftrightarrow>
     untouched sr req w w' \<and> (isl res \<or> (\<exists>h. res = Inr h \<and> awaits req h \<and>
       (h = Finished \<or> w_calls w' = w_calls w \<and> w_responses w' = w_responses w))) \<or>
     committed sr req want w w' \<and> res = Inr Finished"

lemma handleRequest_settles:
  fixes w :: "('n, 'u) world"
  assumes "asRestconfRequest what ctx (http_method req) up q = Inr r" and "idle (env_sr E) w" and "handleRequest E lib df req r w = (res, w')"
  shows "head_outcome (env_sr E) req (delete_change E r) w res w'"
proof -
  let ?handle = "handleRequest E lib df req r :: ('n, 'u, handler_result) server_action"
  note m = request_method [OF assms(1)]
  have reads: "inert (env_sr E) req (handleGetData E df req r)" "inert (env_sr E) req (handleOptions E req)"
    "inert (env_sr E) req (bindA (liftE doc) (\<lambda>d. respond 200 hs (Paths_Body fmt d)))" for doc hs fmt
    by (rule inertI; intro unchanged.keeps_handleGetData unchanged.keeps_handleOptions unchanged.keeps_apiResource no_report_handlers)+
  have writes: ?thesis if "req_type r \<in> {CreateOrReplaceThisNode, CreateChildren, MergeData}" "handleWrite df req r w = (res, w')"
    using that m
    by (auto simp: head_outcome_def handleWrite_def bindA_def sess_switchDatastore_def throw_error_def throw_error_at_def untouched_def requestContext_def split: if_splits)
  have finished: ?thesis if "inert (env_sr E) req h" "?handle = finish h" for h :: "('n, 'u, unit) server_action"
    using finish_inert [OF that(1), of w res w'] assms(3) that(2) by (auto simp: head_outcome_def)
  consider (Write) "?handle = handleWrite df req r" "req_type r \<in> {CreateOrReplaceThisNode, CreateChildren, MergeData}"
    | (Delete) "?handle = finish (handleDelete E r)" "req_type r = DeleteNode"
    | (Rpc) "?handle = ret (Await_Rpc (requestContext req df r))" "req_type r \<in> {Execute, ExecuteInternal}"
    | (Get) "?handle = finish (handleGetData E df req r)"
    | (Options) "?handle = finish (handleOptions E req)"
    | (Api) "?handle = finish (bindA (liftE (apiResource (env_ly E) lib (req_type r) (df_response df))) (\<lambda>doc.
        respond 200 (mm_of_list [contentType (df_response df), CORS]) (Paths_Body (df_response df) doc)))"
    by (cases "req_type r") (simp_all add: handleRequest_def)
  then show ?thesis
  proof cases
    case Write
    then show ?thesis using writes assms(3) by simp
  next
    case Delete
    then have "commits (env_sr E) req (delete_change E r) (handleDelete E r)" using m by (intro commits_handleDelete) simp
    from finish_commits [OF this assms(2)] show ?thesis using assms(3) Delete by (fastforce simp: head_outcome_def split: if_splits)
  next
    case Rpc
    then show ?thesis using assms(3) m by (auto simp: head_outcome_def requestContext_def)
  qed (rule finished, rule reads, assumption)+
qed

lemma restconfCatch_inert:
  assumes "restconfCatch E fmt req' e = Some k" and "k w = (res, w')"
  shows "untouched sr req w w' \<and> (isl res \<or> res = Inr Finished)"
proof -
  obtain m where m: "k = finish m" using assms(1) by (auto simp: restconfCatch_def split: exn.splits)
  have "inert sr req k" by (rule inertI [OF unchanged.keeps_restconfCatch [OF assms(1)] no_report_restconfCatch [OF assms(1)]])
  from inert_untouched [OF this assms(2)] show ?thesis using assms(2) m by (auto simp: finish_def bindA_def split: prod.splits sum.splits)
qed

lemma restconfRoute_settles:
  fixes w :: "('n, 'u) world"
  assumes "idle (env_sr E) w" and "restconfRoute E stod lib anonUser authenticate nacm req w = (res, w')"
  shows "head_outcome (env_sr E) req (head_change E anonUser authenticate nacm req) w res w'"
proof -
  let ?out = "head_outcome (env_sr E) req (head_change E anonUser authenticate nacm req) w"
  let ?parse = "asRestconfRequest (env_what E) (env_ctx E) (http_method req) (http_raw_path req) (http_raw_query req)"
  have catch: "?out res' w2" if "catchA m (restconfCatch E fmt req) w = (res', w2)" "\<And>r v. m w = (r, v) \<Longrightarrow> ?out r v" for m fmt res' w2
  proof (cases "m w")
    case (Pair r v)
    show ?thesis
    proof (cases "\<exists>e. \<exists>k :: ('n, 'u, handler_result) server_action. r = Inl e \<and> restconfCatch E fmt req e = Some k")
      case True
      then obtain e and k :: "('n, 'u, handler_result) server_action" where e: "r = Inl e" "restconfCatch E fmt req e = Some k" by blast
      then have "k v = (res', w2)" using that(1) Pair by (simp add: catchA_def)
      from restconfCatch_inert [OF e(2) this] that(2) [OF Pair] e(1) show ?thesis by (fastforce simp: head_outcome_def untouched_def)
    qed (use that Pair in \<open>auto simp: catchA_def split: sum.splits option.splits\<close>)
  qed
  have body: "?out r v" if "bindA (authorizeSession anonUser authenticate nacm req) (\<lambda>_. bindA (liftE ?parse) (handleRequest E lib df req)) w = (r, v)" for df r v
  proof (cases "authorizeRequest anonUser authenticate nacm (w_sess w) (http_header req)")
    case (Inr sess)
    note auth = this
    show ?thesis
    proof (cases ?parse)
      case (Inr rr)
      then have "head_outcome (env_sr E) req (delete_change E rr) (w\<lparr>w_sess := sess\<rparr>) r v"
        using that auth assms(1) by (intro handleRequest_settles) (auto simp: bindA_def authorizeSession_def idle_def)
      then show ?thesis using auth Inr by (auto simp: head_outcome_def untouched_def committed_def head_change_def)
    qed (use that auth in \<open>auto simp: bindA_def authorizeSession_def head_outcome_def untouched_def\<close>)
  qed (use that in \<open>auto simp: bindA_def authorizeSession_def head_outcome_def\<close>)
  show ?thesis
  proof (cases "chooseDataEncoding stod (http_header req)")
    case (Inl e)
    show ?thesis by (rule catch [where m = "liftE (Inl e)"]) (use assms(2) Inl in \<open>auto simp: restconfRoute_def head_outcome_def\<close>)
  next
    case (Inr df)
    show ?thesis using assms(2) Inr by (auto simp: restconfRoute_def intro: catch body)
  qed
qed

section \<open>YANG patch\<close>

text \<open>A YANG patch changes the datastore once at most, whatever it reports.\<close>

definition at_most :: "nat \<Rightarrow> 'n sysrepo \<Rightarrow> ('n, 'u, 'a) server_action \<Rightarrow> bool" where
  "at_most n sr m \<longleftrightarrow> (\<forall>w. length (confirmed (ledger_of sr (snd (m w)))) \<le> length (confirmed (ledger_of sr w)) + n)"

lemma at_most_unchanged: "(\<And>l. keeps (\<lambda>w. ledger_of sr w = l) m) \<Longrightarrow> at_most 0 sr m"
  by (simp add: at_most_def keeps_def)

lemma at_most_bindA:
  assumes "at_most n sr m" and "\<And>a. at_most k sr (f a)"
  shows "at_most (n + k) sr (bindA m f)"
  unfolding at_most_def
proof
  fix w
  obtain r v where m: "m w = (r, v)" by fastforce
  then have 1: "length (confirmed (ledger_of sr v)) \<le> length (confirmed (ledger_of sr w)) + n" using assms(1) by (metis at_most_def snd_conv)
  have 2: "length (confirmed (ledger_of sr (snd (f a v)))) \<le> length (confirmed (ledger_of sr v)) + k" for a using assms(2) by (simp add: at_most_def)
  show "length (confirmed (ledger_of sr (snd (bindA m f w)))) \<le> length (confirmed (ledger_of sr w)) + (n + k)"
  proof (cases r)
    case (Inr a)
    then show ?thesis using m 1 2 [of a] by (simp add: bindA_def)
  qed (use m 1 in \<open>simp add: bindA_def\<close>)
qed

lemma at_most_after: "at_most 0 sr m \<Longrightarrow> (\<And>a. at_most n sr (f a)) \<Longrightarrow> at_most n sr (bindA m f)"
  using at_most_bindA [of 0 sr m n f] by simp

lemma at_most_before: "at_most n sr m \<Longrightarrow> (\<And>a. at_most 0 sr (f a)) \<Longrightarrow> at_most n sr (bindA m f)"
  using at_most_bindA [of n sr m 0 f] by simp

lemma at_most_catchA:
  assumes "at_most n sr m" and "\<And>e k. h e = Some k \<Longrightarrow> at_most 0 sr k"
  shows "at_most n sr (catchA m h)"
  unfolding at_most_def
proof
  fix w
  obtain r v where m: "m w = (r, v)" by fastforce
  then have "length (confirmed (ledger_of sr v)) \<le> length (confirmed (ledger_of sr w)) + n" using assms(1) by (metis at_most_def snd_conv)
  moreover have "length (confirmed (ledger_of sr (snd (k v)))) \<le> length (confirmed (ledger_of sr v))" if "h e = Some k" for e k
    using assms(2) [OF that] by (simp add: at_most_def)
  ultimately show "length (confirmed (ledger_of sr (snd (catchA m h w)))) \<le> length (confirmed (ledger_of sr w)) + n"
    using m by (auto simp: catchA_def split: sum.split option.split intro: order_trans)
qed

lemma at_most_edit: "at_most 0 sr (sess_editBatch sr edit)" "at_most 1 sr (sess_applyChanges sr)"
  by (simp_all add: at_most_def sess_editBatch_def sess_applyChanges_def ask_apply enter_call_def split: sum.split)

lemma at_most_processYangPatch: "at_most 1 (env_sr E) (processYangPatch E rc)"
proof -
  note reject = unchanged.keeps_restconfExceptions unchanged.keeps_reject
  have loop: "keeps (\<lambda>w. ledger_of sr w = l) (patchLoopBody E rc pid patch merged ec)" for sr l pid patch merged ec
    unfolding patchLoopBody_def
    by (intro keeps_bindA keeps_liftE keeps_catchA) (auto intro!: keeps_bindA keeps_ret dest: keeps_exceptions [rotated, where I = "\<lambda>w. ledger_of sr w = l"])
  have zero: "at_most 0 sr (liftE r)" "at_most 0 sr (ret a)" "at_most 0 sr (respond st hs b)" "at_most 0 sr (foldA (patchLoopBody E rc pid patch) [] es)" for sr r a st hs b pid patch es
    by (intro at_most_unchanged keeps_liftE keeps_ret unchanged.keeps_respond keeps_foldA loop)+
  have impl: "at_most 1 (env_sr E) (processYangPatchImpl E patch pid rc)" for patch pid
  proof -
    have "at_most 1 (env_sr E) (if merged \<noteq> [] then bindA (sess_editBatch (env_sr E) merged) (\<lambda>_. sess_applyChanges (env_sr E)) else ret ())" for merged
      using at_most_bindA [OF at_most_edit] zero(2) by (auto simp: at_most_def)
    then show ?thesis unfolding processYangPatchImpl_def by (intro at_most_after zero)
  qed
  have "at_most 1 (env_sr E) (withRestconfExceptions E (processYangPatchImpl E patch pid) (rejectYangPatch E pid) rc)" for patch pid
    unfolding withRestconfExceptions_def
    by (rule at_most_catchA [OF impl], rule at_most_unchanged, erule reject(1) [rotated]) (simp add: rejectYangPatch_def reject(2))
  then show ?thesis unfolding processYangPatch_def Let_def
    by (intro at_most_after at_most_before) (auto intro: zero at_most_after at_most_before)
qed

lemma at_most_processWrite:
  fixes w :: "('n, 'u) world"
  assumes "isYangPatch (rc_req rc)" and "method_of (req_type (rc_restconfRequest rc)) = Some (http_method (rc_req rc))"
    and "req_type (rc_restconfRequest rc) \<in> {CreateOrReplaceThisNode, CreateChildren, MergeData}"
    and "idle (env_sr E) w" and "processWrite E rc w = (res, w')"
  shows "length (confirmed (ledger_of (env_sr E) w')) \<le> length (confirmed (ledger_of (env_sr E) w)) + 1"
proof (cases "req_type (rc_restconfRequest rc) = MergeData")
  case True
  then have "(processWrite E rc :: ('n, 'u, unit) server_action) = withRestconfExceptions E (processYangPatch E) (rejectWithError E) rc" using assms(1) by (simp add: processWrite_def)
  moreover have "at_most 1 (env_sr E) (withRestconfExceptions E (processYangPatch E) (rejectWithError E) rc :: ('n, 'u, unit) server_action)"
    unfolding withRestconfExceptions_def
    by (rule at_most_catchA [OF at_most_processYangPatch])
      (auto intro!: at_most_unchanged intro: unchanged.keeps_restconfExceptions unchanged.keeps_rejectWithError)
  ultimately have "at_most 1 (env_sr E) (processWrite E rc :: ('n, 'u, unit) server_action)" by simp
  then show ?thesis using assms(5) by (metis at_most_def snd_conv)
next
  case False
  then have "settles (env_sr E) (rc_req rc) (requested_change E rc) (processWrite E rc)"
    using assms(2,3) commits_processPost [of rc E] commits_putOrPlainPatch [of rc E]
    by (auto simp: processWrite_def withRestconfExceptions_def requested_change_def [abs_def] intro!: settles_catchA inert_exceptions)
  then have "untouched (env_sr E) (rc_req rc) w w' \<or> committed (env_sr E) (rc_req rc) (requested_change E rc) w w'"
    using assms(4,5) unfolding settles_def by blast
  then show ?thesis by (auto simp: untouched_def committed_def)
qed

end
