(* ===== verification/Server_System_Store.thy ===== *)
theory Server_System_Store
  imports Server_System_Answers Datastore
begin

text \<open>
  The changes that the running server makes to the datastores, and the responses by which it reports them: for every request other than a
  YANG patch there is one change if one was reported, and none otherwise, however requests interleave.
\<close>

section \<open>Changes of a run\<close>

text \<open>The request that an event belongs to.\<close>

definition event_request :: "'u system_event \<Rightarrow> ('n, 'u) system \<Rightarrow> nat" where
  "event_request e s = (case e of Restconf_Data i _ \<Rightarrow> i | Auth_Delay_Over i \<Rightarrow> i | Request_Closed i \<Rightarrow> i | _ \<Rightarrow> length (sy_requests s))"

text \<open>The changes confirmed by an event, by the number of the request. A session makes all its writing calls in one event.\<close>

definition event_changes :: "('n, 'u::linorder, 'd::{linorder, zero, one}) system_env \<Rightarrow> 'u system_event \<Rightarrow> ('n, 'u) system \<Rightarrow> (nat \<times> 'n change) list" where
  "event_changes G e s = map (Pair (event_request e s))
     (confirmed (enter_calls (sr_done (env_sr (ge_server G))) (sy_log s) no_changes (drop (length (sy_log s)) (sy_log (system_step G e s)))))"

fun system_history :: "('n, 'u::linorder, 'd::{linorder, zero, one}) system_env \<Rightarrow> ('n, 'u) system \<times> (nat \<times> 'n change) list \<Rightarrow> 'u system_event list \<Rightarrow>
    ('n, 'u) system \<times> (nat \<times> 'n change) list" where
  "system_history G sc [] = sc"
| "system_history G (s, chs) (e # es) = system_history G (system_step G e s, chs @ event_changes G e s) es"

definition system_changes :: "('n, 'u::linorder, 'd::{linorder, zero, one}) system_env \<Rightarrow> nacm \<Rightarrow> optical_events \<Rightarrow> 'u system_event list \<Rightarrow> (nat \<times> 'n change) list" where
  "system_changes G nacm oe tr = snd (system_history G (system_init nacm oe, []) tr)"

lemma system_history_append: "system_history G sc (tr @ tr') = system_history G (system_history G sc tr) tr'"
  by (induction G sc tr rule: system_history.induct) simp_all

lemma system_history_run: "system_run G nacm oe tr s \<Longrightarrow> system_history G (system_init nacm oe, []) tr = (s, system_changes G nacm oe tr)"
proof (induction rule: system_run.induct)
  case (event tr s e)
  then obtain chs where "system_history G (system_init nacm oe, []) tr = (s, chs)" by blast
  then show ?case by (simp add: system_history_append system_changes_def)
qed (simp add: system_changes_def)

lemma system_changes_Nil [simp]: "system_changes G nacm oe [] = []"
  by (simp add: system_changes_def)

lemma system_changes_snoc:
  "system_run G nacm oe tr s \<Longrightarrow> system_changes G nacm oe (tr @ [e]) = system_changes G nacm oe tr @ event_changes G e s"
  by (simp add: system_changes_def [of _ _ _ "tr @ [e]"] system_history_append system_history_run)

section \<open>The invariant\<close>

definition changes_of :: "nat \<Rightarrow> (nat \<times> 'n change) list \<Rightarrow> 'n change list" where
  "changes_of i chs = map snd (filter (\<lambda>c. fst c = i) chs)"

lemma changes_of_append [simp]: "changes_of i (chs @ chs') = changes_of i chs @ changes_of i chs'"
  by (simp add: changes_of_def)

lemma changes_of_Pair [simp]: "changes_of i (map (Pair j) l) = (if i = j then l else [])"
  by (auto simp: changes_of_def o_def)

definition request_settled :: "'n change list \<Rightarrow> 'n request_state \<Rightarrow> bool" where
  "request_settled chs rq \<longleftrightarrow> awaits (rq_request rq) (rq_pending rq) \<and>
     (\<forall>chg \<in> set chs. \<exists>c \<in> set (rq_calls rq). makes_change c chg) \<and>
     (rq_pending rq \<noteq> Finished \<longrightarrow> rq_calls rq = [] \<and> rq_responses rq = [] \<and> chs = []) \<and>
     (if isYangPatch (rq_request rq) then length chs \<le> 1 else length chs = length (filter (reports_change (rq_request rq)) (rq_responses rq)))"

definition store_inv :: "(nat \<times> 'n change) list \<Rightarrow> ('n, 'u) system \<Rightarrow> bool" where
  "store_inv chs s \<longleftrightarrow> fst ` set chs \<subseteq> {..<length (sy_requests s)} \<and>
     (\<forall>i < length (sy_requests s). request_settled (changes_of i chs) (sy_requests s ! i))"

lemma store_inv_new: "store_inv chs s \<Longrightarrow> changes_of (length (sy_requests s)) chs = []"
  by (force simp: store_inv_def changes_of_def filter_empty_conv)

lemma conclude_settled:
  assumes "store_inv chs s" and "i \<le> length (sy_requests s)" and "request_settled (changes_of i chs @ l) (leave rq res w)"
  shows "store_inv (chs @ map (Pair i) l) (conclude i rq (res, w) s)"
  using assms by (auto simp: store_inv_def conclude_def nth_list_update nth_append less_Suc_eq)

lemma conclude_log: "sy_log (conclude i rq (res, w) s) = sy_log s @ drop (length (rq_calls rq)) (w_calls w)"
  by (simp add: conclude_def)

text \<open>A request without calls so far: its ledger is the part of the event in the history.\<close>

lemma ledger_at:
  assumes "rq_calls rq = []"
  shows "enter_calls (sr_done (env_sr (ge_server G))) (sy_log s) l (w_calls w) = enter_calls (sr_done (env_sr (env_at G s rq))) [] l (w_calls w)"
  by (rule enter_calls_answers) (simp add: env_at_def sr_after_def assms)

lemma idle_enter:
  assumes "rq_calls rq = []"
  shows "idle sr (enter s rq)" "confirmed (ledger_of sr (enter s rq)) = []"
  using assms by (simp_all add: idle_def ledger_of_def no_changes_def)

section \<open>The routes for streams and schemas\<close>

lemma no_report_plainCatch: "plainCatch e = Some k \<Longrightarrow> no_report req k"
  by (auto simp: plainCatch_def plainAuthFailed_def plainError_def
      intro!: no_report_rejectAuth [rule_format] no_report_respond [rule_format] split: exn.splits)

lemma inert_plain:
  assumes "\<And>l. keeps (\<lambda>w. ledger_of sr w = l) m" and "no_report req m"
  shows "inert sr req (catchA (bindA (authorizeSession anonUser authenticate nacm req') (\<lambda>_. m)) plainCatch)"
proof (rule inertI)
  have "keeps (\<lambda>w. ledger_of sr w = l) (authorizeSession anonUser authenticate nacm req')" for l
    by (rule keepsI) (simp add: authorizeSession_def split: sum.split)
  then show "keeps (\<lambda>w. ledger_of sr w = l) (catchA (bindA (authorizeSession anonUser authenticate nacm req') (\<lambda>_. m)) plainCatch)" for l
    by (intro keeps_catchA keeps_bindA assms(1)) (auto intro: unchanged.keeps_plainCatch)
  have "no_report req (authorizeSession anonUser authenticate nacm req')" by (rule no_report_quiet) (rule quiet_authorizeSession)
  then show "no_report req (catchA (bindA (authorizeSession anonUser authenticate nacm req') (\<lambda>_. m)) plainCatch)"
    by (intro no_report_catchA no_report_bindA assms(2)) (assumption, erule no_report_plainCatch)
qed

lemma no_report_NotificationStream: "no_report req (NotificationStream_create E now fmt f a b)"
  unfolding NotificationStream_create_def NotificationStream_activate_def
  by (intro report_intros no_report_respond no_report_quiet response_intros) simp_all

lemma inert_streamRoute: "inert sr req (streamRoute E SE NE uuidOf anonUser authenticate nacm req')"
proof (cases "http_method req' = ''OPTIONS''")
  case True
  then show ?thesis unfolding streamRoute_def if_P [OF True]
    by (intro inertI unchanged.keeps_respond no_report_respond) (simp add: reports_status_def)
next
  case False
  have "no_report req (connectStream SE uid)" for uid
    by (auto simp: connectStream_def keeps_def respond_def reported_def reports_change_def split: sum.split prod.split)
  then have "no_report req (handleStream E SE NE rp)" for rp
    by (cases rp; cases "fst rp") (auto simp: handleStream_def intro!: report_intros [rule_format] no_report_NotificationStream [rule_format])
  moreover have "keeps (\<lambda>w. ledger_of sr w = l) (connectStream SE uid)" for l uid
    by (rule keepsI) (simp add: connectStream_def respond_def split: sum.split prod.split)
  then have "keeps (\<lambda>w. ledger_of sr w = l) (handleStream E SE NE rp)" for l rp
    by (cases rp; cases "fst rp") (auto simp: handleStream_def intro!: keeps_intros unchanged.keeps_NotificationStream)
  ultimately show ?thesis unfolding streamRoute_def if_not_P [OF False]
    by (intro inert_plain keeps_bindA keeps_liftE report_intros)
qed

lemma inert_yangRoute: "inert sr req (yangRoute E gm gs anonUser authenticate nacm req')"
proof (cases "http_method req' = ''OPTIONS'' \<or> (http_method req' \<noteq> ''GET'' \<and> http_method req' \<noteq> ''HEAD'')")
  case True
  then show ?thesis unfolding yangRoute_def if_P [OF True]
    by (intro inertI unchanged.keeps_respond no_report_respond) (simp add: reports_status_def)
next
  case False
  have "no_report req (hasAccessToYangSchema sr' b m)" for sr' b m
    unfolding hasAccessToYangSchema_def by (intro report_intros)
  then show ?thesis unfolding yangRoute_def if_not_P [OF False]
    by (intro inert_plain keeps_bindA keeps_liftE report_intros)
      (auto intro!: keeps_intros unchanged.keeps_hasAccessToYangSchema unchanged.keeps_respond report_intros [rule_format] no_report_respond [rule_format]
        split: option.split module_or_submodule.split)
qed

section \<open>Events\<close>

text \<open>The request after an action that is done, waits or has committed.\<close>

lemma leave_settled:
  assumes "rq_calls rq = []" and "rq_responses rq = []" and "awaits (rq_request rq) (rq_pending (leave rq res w))"
    and "rq_pending (leave rq res w) = Finished \<or> w_calls w = [] \<and> w_responses w = []"
    and "isYangPatch (rq_request rq) \<and> length (confirmed (ledger_of sr w)) \<le> 1 \<or>
      untouched sr (rq_request rq) (enter s rq) w \<or> committed sr (rq_request rq) want (enter s rq) w"
  shows "request_settled (confirmed (ledger_of sr w)) (leave rq res w)"
proof -
  have "length (confirmed (ledger_of sr w)) = length (reported (rq_request rq) w) \<and> length (confirmed (ledger_of sr w)) \<le> 1"
    if "untouched sr (rq_request rq) (enter s rq) w \<or> committed sr (rq_request rq) want (enter s rq) w"
    using that idle_enter(2) [OF assms(1), of sr s] assms(2) by (auto simp: untouched_def committed_def reported_def enter_def)
  moreover have "w_calls w = [] \<Longrightarrow> confirmed (ledger_of sr w) = []" by (simp add: ledger_of_def no_changes_def)
  moreover have "\<exists>c \<in> set (w_calls w). makes_change c chg" if "chg \<in> set (confirmed (ledger_of sr w))" for chg
    using confirmed_calls [OF that [unfolded ledger_of_def]] by (simp add: no_changes_def)
  ultimately show ?thesis using assms(3-5) by (auto simp: request_settled_def leave_def reported_def)
qed

lemma conclude_store:
  assumes "store_inv chs s" and "i \<le> length (sy_requests s)" and "changes_of i chs = []" and "rq_calls rq = []"
    and "system_step G e s = s'" and "event_request e s = i" and "sy_log s' = sy_log (conclude i rq (res, w) s)"
    and "sy_requests s' = sy_requests (conclude i rq (res, w) s)"
    and "request_settled (confirmed (ledger_of (env_sr (env_at G s rq)) w)) (leave rq res w)"
  shows "store_inv (chs @ event_changes G e s) s'"
proof -
  have "event_changes G e s = map (Pair i) (confirmed (ledger_of (env_sr (env_at G s rq)) w))"
    using assms(4-7) ledger_at [OF assms(4), of G s no_changes w] by (simp add: event_changes_def conclude_log ledger_of_def)
  then show ?thesis using conclude_settled [OF assms(1,2), of "confirmed (ledger_of (env_sr (env_at G s rq)) w)" rq res w] assms(3,8,9)
    by (simp add: store_inv_def)
qed

lemma newRequest_other [simp]: "rq_request (newRequest req r ds) = req" "rq_responses (newRequest req r ds) = []"
  by (simp_all add: newRequest_def)

lemma restconfHead_store:
  assumes "store_inv chs s"
  shows "store_inv (chs @ event_changes G (Restconf_Head req auth) s) (restconfHead G req auth s)"
proof -
  let ?rq = "newRequest req True Operational"
  let ?E = "env_at G s ?rq"
  obtain res w where r: "restconfRoute ?E (ge_stod G) (ge_yangLib G) (ge_anonUser G) auth (sy_nacm s) req (enter s ?rq) = (res, w)" by fastforce
  have step: "restconfHead G req auth s = conclude (length (sy_requests s)) ?rq (res, w) s" by (simp add: restconfHead_def r)
  from restconfRoute_settles [OF idle_enter(1) r]
  have out: "head_outcome (env_sr ?E) req (head_change ?E (ge_anonUser G) auth (sy_nacm s) req) (enter s ?rq) res w" by simp
  then have "request_settled (confirmed (ledger_of (env_sr ?E) w)) (leave ?rq res w)"
    by (intro leave_settled [where s = s and want = "head_change ?E (ge_anonUser G) auth (sy_nacm s) req"])
      (auto simp: head_outcome_def leave_def enter_def split: sum.split)
  then show ?thesis unfolding step
    by (intro conclude_store [OF assms order.refl store_inv_new [OF assms]]) (simp_all add: system_step_def step event_request_def)
qed

text \<open>A request of another route.\<close>

lemma plain_store:
  assumes "store_inv chs s" and "inert (env_sr (env_at G s (newRequest req r ds))) req m" and "event_request e s = length (sy_requests s)"
    and "system_step G e s = s'" and "s1 = conclude (length (sy_requests s)) (newRequest req r ds) (finished (m (enter s (newRequest req r ds)))) s"
    and "sy_log s' = sy_log s1" and "sy_requests s' = sy_requests s1"
  shows "store_inv (chs @ event_changes G e s) s'"
proof -
  let ?rq = "newRequest req r ds"
  obtain res w where m: "m (enter s ?rq) = (res, w)" by fastforce
  obtain res' where f: "finished (res, w) = (res', w)" "rq_pending (leave ?rq res' w) = Finished"
    by (cases res) (auto simp: finished_def leave_def)
  have "request_settled (confirmed (ledger_of (env_sr (env_at G s ?rq)) w)) (leave ?rq res' w)"
    using f(2) inert_untouched [OF assms(2) m] by (intro leave_settled [where s = s]) simp_all
  then show ?thesis
    using assms(3-7) f(1) m by (intro conclude_store [OF assms(1) order.refl store_inv_new [OF assms(1)]]) simp_all
qed

text \<open>A part of a body.\<close>

lemma data_settled:
  assumes "rq_calls rq = []" and "rq_responses rq = []" and "awaits (rq_request rq) (await rc)"
    and await: "await = Await_Write \<or> await = Await_Rpc"
    and "\<And>v r. handle rc (enter s rq) = (r, v) \<Longrightarrow> isYangPatch (rq_request rq) \<and> length (confirmed (ledger_of sr v)) \<le> 1 \<or>
      untouched sr (rq_request rq) (enter s rq) v \<or> committed sr (rq_request rq) want (enter s rq) v"
    and "dataResult await chunk (on_data handle chunk rc (enter s rq)) = (res, w)"
  shows "request_settled (confirmed (ledger_of sr w)) (leave rq res w)"
proof (cases "chunk = []")
  case True
  obtain r v where p: "handle rc (enter s rq) = (r, v)" by fastforce
  then have w: "w = v" "rq_pending (leave rq res w) = Finished"
    using assms(6) True by (auto simp: dataResult_def bindA_def leave_def split: sum.splits)
  from assms(5) [OF p] w show ?thesis by (intro leave_settled [OF assms(1,2)]) simp_all
next
  case False
  then have w: "w = enter s rq" "res = Inr (await (rc\<lparr>rc_payload := rc_payload rc @ chunk\<rparr>))"
    using assms(6) by (auto simp: dataResult_def)
  have "awaits (rq_request rq) (await (rc\<lparr>rc_payload := rc_payload rc @ chunk\<rparr>))" using assms(3) await by auto
  then show ?thesis using w assms(1,2)
    by (intro leave_settled [OF assms(1,2), where s = s]) (auto simp: leave_def enter_def)
qed

lemma restconfData_store:
  assumes inv: "store_inv chs s" and i: "i < length (sy_requests s)" and p: "rq_pending (sy_requests s ! i) \<noteq> Finished"
  shows "store_inv (chs @ event_changes G (Restconf_Data i chunk) s) (restconfData G i chunk s)"
proof -
  let ?rq = "sy_requests s ! i" and ?E = "env_at G s (sy_requests s ! i)"
  have ok: "request_settled (changes_of i chs) ?rq" using inv i by (simp add: store_inv_def)
  then have fresh: "rq_calls ?rq = []" "rq_responses ?rq = []" "awaits (rq_request ?rq) (rq_pending ?rq)" "changes_of i chs = []"
    using p by (auto simp: request_settled_def)
  note idle = idle_enter [OF fresh(1), of _ s]
  obtain res w where step: "restconfData G i chunk s = conclude i ?rq (res, w) s"
    and settled: "request_settled (confirmed (ledger_of (env_sr ?E) w)) (leave ?rq res w)"
  proof (cases "rq_pending ?rq")
    case (Await_Write rc)
    obtain res w where r: "dataResult Await_Write chunk (on_data (processWrite ?E) chunk rc (enter s ?rq)) = (res, w)" by fastforce
    have "isYangPatch (rq_request ?rq) \<and> length (confirmed (ledger_of (env_sr ?E) v)) \<le> 1 \<or>
        untouched (env_sr ?E) (rq_request ?rq) (enter s ?rq) v \<or> committed (env_sr ?E) (rq_request ?rq) (requested_change ?E rc) (enter s ?rq) v"
      if p: "processWrite ?E rc (enter s ?rq) = (r, v)" for r v
    proof (cases "isYangPatch (rq_request ?rq)")
      case True
      then show ?thesis using at_most_processWrite [of rc ?E "enter s ?rq" r v] fresh(3) Await_Write p idle [of "env_sr ?E"] by auto
    next
      case False
      then show ?thesis using settles_processWrite [of rc ?E] fresh(3) Await_Write p idle(1) [of "env_sr ?E"] unfolding settles_def by auto
    qed
    then have "request_settled (confirmed (ledger_of (env_sr ?E) w)) (leave ?rq res w)"
      using fresh(3) Await_Write by (intro data_settled [OF fresh(1,2) _ _ _ r]) simp_all
    then show thesis using Await_Write r by (intro that) (simp_all add: restconfData_def Let_def del: on_data.simps)
  next
    case (Await_Rpc rc)
    obtain res w where r: "dataResult Await_Rpc chunk (on_data (processRpc ?E (ge_subs G)) chunk rc (enter s ?rq)) = (res, w)" by fastforce
    have "isYangPatch (rq_request ?rq) \<and> length (confirmed (ledger_of (env_sr ?E) v)) \<le> 1 \<or>
        untouched (env_sr ?E) (rq_request ?rq) (enter s ?rq) v \<or> committed (env_sr ?E) (rq_request ?rq) (requested_change ?E rc) (enter s ?rq) v"
      if "processRpc ?E (ge_subs G) rc (enter s ?rq) = (r, v)" for r v
      using inert_untouched [OF inert_processRpc that] fresh(3) Await_Rpc by simp
    then have "request_settled (confirmed (ledger_of (env_sr ?E) w)) (leave ?rq res w)"
      using fresh(3) Await_Rpc by (intro data_settled [OF fresh(1,2) _ _ _ r]) simp_all
    then show thesis using Await_Rpc r by (intro that) (simp_all add: restconfData_def Let_def del: on_data.simps)
  qed (use p in simp)
  show ?thesis unfolding step using i settled
    by (intro conclude_store [OF inv less_imp_le [OF i] fresh(4,1)]) (simp_all add: system_step_def step event_request_def)
qed

text \<open>Events without calls.\<close>

lemma silent_store:
  assumes "store_inv chs s" and "sy_log (system_step G e s) = sy_log s" and "length (sy_requests (system_step G e s)) = length (sy_requests s)"
    and "\<And>i. i < length (sy_requests s) \<Longrightarrow> request_settled (changes_of i chs) (sy_requests s ! i) \<Longrightarrow>
      request_settled (changes_of i chs) (sy_requests (system_step G e s) ! i)"
  shows "store_inv (chs @ event_changes G e s) (system_step G e s)"
proof -
  have "event_changes G e s = []" using assms(2) by (simp add: event_changes_def no_changes_def)
  then show ?thesis using assms(1,3,4) by (simp add: store_inv_def)
qed

lemma authDelayOver_store:
  fixes s :: "('n, 'u::linorder) system"
  assumes inv: "store_inv chs s" and i: "i < length (sy_requests s)"
  shows "store_inv (chs @ event_changes G (Auth_Delay_Over i) s) (system_step G (Auth_Delay_Over i) s)"
proof -
  let ?rq = "sy_requests s ! i"
  let ?w = "enter s (?rq\<lparr>rq_authDelay := None\<rparr>)"
  define m :: "('n, 'u, unit) server_action" where "m = (if rq_restconf ?rq then restconfAuthFailed (env_at G s ?rq)
      (case chooseDataEncoding (ge_stod G) (http_header (rq_request ?rq)) of Inr df \<Rightarrow> df_response df | Inl _ \<Rightarrow> JSON) (rq_request ?rq) else plainAuthFailed)"
  have "no_report (rq_request ?rq) m"
    by (auto simp: m_def restconfAuthFailed_def plainAuthFailed_def intro!: report_intros [rule_format] no_report_respond [rule_format])
  then have report: "reported (rq_request ?rq) (snd (m ?w)) = reported (rq_request ?rq) ?w" by (simp add: keeps_def)
  have "keeps (\<lambda>w. w_calls w = w_calls ?w) m"
    unfolding m_def restconfAuthFailed_def rejectWithError_def plainAuthFailed_def
    by (intro keeps_if keeps_rejectImpl) (simp_all add: keeps_def respond_def)
  from keepsD [OF this] have calls: "w_calls (snd (m ?w)) = rq_calls ?rq" by (simp add: enter_def)
  obtain res where f: "finished (m ?w) = (res, snd (m ?w))" "rq_pending (leave ?rq res (snd (m ?w))) = Finished"
    by (cases "m ?w"; cases "fst (m ?w)") (auto simp: finished_def leave_def)
  have step: "system_step G (Auth_Delay_Over i) s = conclude i ?rq (res, snd (m ?w)) s"
    using f(1) by (simp add: system_step_def authDelayOver_def Let_def m_def)
  show ?thesis
  proof (rule silent_store [OF inv])
    show "sy_log (system_step G (Auth_Delay_Over i) s) = sy_log s" unfolding step by (simp add: conclude_log calls)
    show "length (sy_requests (system_step G (Auth_Delay_Over i) s)) = length (sy_requests s)" unfolding step using i by (simp add: conclude_def)
    show "request_settled (changes_of j chs) (sy_requests (system_step G (Auth_Delay_Over i) s) ! j)"
      if "j < length (sy_requests s)" "request_settled (changes_of j chs) (sy_requests s ! j)" for j
      using that i f(2) report calls unfolding step
      by (auto simp: conclude_def nth_list_update request_settled_def leave_def reported_def enter_def split: if_splits)
  qed
qed

lemma system_run_store: "system_run G nacm oe tr s \<Longrightarrow> store_inv (system_changes G nacm oe tr) s"
proof (induction rule: system_run.induct)
  case (event tr s e)
  note inv = event.IH and en = event.hyps(2)
  have attach: "sy_log (attachStream opened s') = sy_log s'" "sy_requests (attachStream opened s') = sy_requests s'" for opened and s' :: "('a, 'b) system"
    by (simp_all add: attachStream_def split: option.split sum.split)
  have "store_inv (system_changes G nacm oe tr @ event_changes G e s) (system_step G e s)"
  proof (cases e)
    case (Restconf_Head req auth)
    then show ?thesis
      using restconfHead_store [OF inv, of G req auth] by (simp add: system_step_def)
  next
    case (Restconf_Data i chunk)
    then show ?thesis
      using restconfData_store [OF inv, of i G chunk] en by (simp add: system_step_def system_enabled_def)
  next
    case (Streams_Request req auth now)
    show ?thesis unfolding Streams_Request
      by (rule plain_store [OF inv inert_streamRoute _ refl refl]) (simp_all add: event_request_def system_step_def streamsRequest_def Let_def attach)
  next
    case (Yang_Request req auth)
    show ?thesis unfolding Yang_Request
      by (rule plain_store [OF inv inert_yangRoute _ refl refl]) (simp_all add: event_request_def system_step_def yangRequest_def Let_def)
  next
    case (Auth_Delay_Over i)
    then show ?thesis
      using authDelayOver_store [OF inv, of i G] en by (simp add: system_enabled_def)
  next
    case (Request_Closed i)
    then show ?thesis
      using en by (intro silent_store [OF inv])
        (auto simp: system_step_def system_enabled_def requestClosed_def nth_list_update request_settled_def)
  qed (rule silent_store [OF inv]; simp add: system_step_def nacmChanged_def liveEvent_def split: sum.split)+
  then show ?case by (simp add: system_changes_snoc [OF event.hyps(1)])
qed (simp add: store_inv_def system_init_def)

end
