(* ===== verification/Store_Properties.thy ===== *)
theory Store_Properties
  imports Server_System_Store System_Properties
begin

text \<open>Properties that relate what the server tells its clients to what it has changed in the datastores.\<close>

text \<open>C3. Clients are told the truth about their changes: however requests interleave, a request that is not a YANG patch has changed a datastore exactly once
  if it was answered with success (201, or 204 where the method writes), and not at all if it was answered otherwise or not yet. A YANG patch changes a
  datastore once at most. Each change was made as the user that this request was authorized as, on a datastore that can be written.\<close>

theorem system_changes_reported:
  assumes "system_run G nacm oe tr s" and "i < length (sy_requests s)"
  shows "let rq = sy_requests s ! i; chs = changes_of i (system_changes G nacm oe tr) in
    (if isYangPatch (rq_request rq) then length chs \<le> 1
     else length chs = (if \<exists>r \<in> set (rq_responses rq). reports_change (rq_request rq) r then 1 else 0)) \<and>
    (\<forall>chg \<in> set chs. authorised_request G nacm oe tr i (change_user chg) \<and> change_ds chg \<notin> {Operational, FactoryDefault})"
proof -
  let ?rq = "sy_requests s ! i" and ?chs = "changes_of i (system_changes G nacm oe tr)"
  have settled: "request_settled ?chs ?rq" using system_run_store [OF assms(1)] assms(2) by (simp add: store_inv_def)
  have ok: "request_ok (authorised_request G nacm oe tr i) ?rq" using system_run_inv [OF assms(1)] assms(2) by (simp add: system_inv_def)
  have "request_answered (Request_Closed i \<in> set tr \<or> sy_crashed s \<noteq> None) ?rq"
    using system_run_answered [OF assms(1)] assms(2) by (simp add: answer_inv_def)
  then have "length (rq_responses ?rq) \<le> 1" if "\<not> isYangPatch (rq_request ?rq)"
    using that by (auto simp: request_answered_def split: handler_result.splits option.splits)
  then have "length (filter (reports_change (rq_request ?rq)) (rq_responses ?rq)) = (if \<exists>r \<in> set (rq_responses ?rq). reports_change (rq_request ?rq) r then 1 else 0)"
    if "\<not> isYangPatch (rq_request ?rq)"
    using that by (cases "rq_responses ?rq") (auto simp: le_Suc_eq)
  moreover have "authorised_request G nacm oe tr i (change_user chg) \<and> change_ds chg \<notin> {Operational, FactoryDefault}" if "chg \<in> set ?chs" for chg
    using settled ok that by (auto simp: request_settled_def request_ok_def makes_change_def authorised_call_def)
  ultimately show ?thesis using settled by (auto simp: request_settled_def Let_def)
qed

definition ex_put_events :: "nat system_event list" where
  "ex_put_events = [Restconf_Head (ex_user_http ''bob'' ''PUT'' ''/restconf/data/m:top'') ex_pam, Restconf_Data 0 ''top'', Restconf_Data 0 []]"

theorem system_changes_reported_witness:
  "\<exists>s chg. system_run ex_system_env Nacm_init ex_system_optics ex_put_events s \<and>
    changes_of 0 (system_changes ex_system_env Nacm_init ex_system_optics ex_put_events) = [chg] \<and>
    authorised_request ex_system_env Nacm_init ex_system_optics ex_put_events 0 (change_user chg)"
proof -
  have "map_option (\<lambda>s. map (\<lambda>r. (isYangPatch (rq_request r), list_ex (reports_change (rq_request r)) (rq_responses r))) (sy_requests s))
      (system_exec ex_system_env (system_init Nacm_init ex_system_optics) ex_put_events) = Some [(False, True)]"
    by code_simp
  then obtain s where s: "system_exec ex_system_env (system_init Nacm_init ex_system_optics) ex_put_events = Some s"
      "map (\<lambda>r. (isYangPatch (rq_request r), list_ex (reports_change (rq_request r)) (rq_responses r))) (sy_requests s) = [(False, True)]" by auto
  have run: "system_run ex_system_env Nacm_init ex_system_optics ex_put_events s" using system_exec_run [OF s(1) system_run.start] by simp
  have "length (sy_requests s) = 1" "\<not> isYangPatch (rq_request (sy_requests s ! 0))"
    "\<exists>r \<in> set (rq_responses (sy_requests s ! 0)). reports_change (rq_request (sy_requests s ! 0)) r"
    using s(2) by (auto simp: map_eq_Cons_conv list_ex_iff)
  then show ?thesis using system_changes_reported [OF run, of 0] run by (auto simp: Let_def length_Suc_conv)
qed

text \<open>C7. A POST, PUT or plain PATCH makes the change that it asks for or none: if it is answered with success, then sysrepo has confirmed one change, which is
  the edit computed from the request and its body (for a PUT of a whole datastore, its replacement), in the datastore and as the user of its session;
  otherwise it has confirmed none.\<close>

theorem write_commits_requested:
  assumes "processWrite E rc w = (res, w')" and "w_calls w = []" and "\<not> isYangPatch (rc_req rc)"
    and "asRestconfRequest what ctx (http_method (rc_req rc)) path query = Inr (rc_restconfRequest rc)"
    and "req_type (rc_restconfRequest rc) \<in> {CreateOrReplaceThisNode, CreateChildren, MergeData}"
  shows "(\<exists>chg r. requested_change E rc (w_sess w) = Inr chg \<and> confirmed (ledger_of (env_sr E) w') = [chg] \<and>
      w_responses w' = w_responses w @ [r] \<and> reports_change (rc_req rc) r) \<or>
    confirmed (ledger_of (env_sr E) w') = [] \<and> filter (reports_change (rc_req rc)) (w_responses w') = filter (reports_change (rc_req rc)) (w_responses w)"
proof -
  have start: "idle (env_sr E) w" "confirmed (ledger_of (env_sr E) w) = []" using assms(2) by (simp_all add: idle_def ledger_of_def no_changes_def)
  have "method_of (req_type (rc_restconfRequest rc)) = Some (http_method (rc_req rc))"
    using request_method [OF assms(4)] assms(5) by auto
  from settles_processWrite [OF this assms(5,3), of E] start(1) assms(1)
  consider "untouched (env_sr E) (rc_req rc) w w'" | "committed (env_sr E) (rc_req rc) (requested_change E rc) w w'"
    unfolding settles_def by blast
  then show ?thesis
  proof cases
    case 2
    then obtain chg r where c: "requested_change E rc (w_sess w) = Inr chg" "confirmed (ledger_of (env_sr E) w') = [chg]"
        "reported (rc_req rc) w' = reported (rc_req rc) w @ [r]" using start(2) by (auto simp: committed_def)
    have "reply w' = reply w \<or> replies w' (reply w)"
      using assms(1) answers_Inl [OF answers_processWrite [OF assms(3)]] answers_Inr [OF answers_processWrite [OF assms(3)]] by (cases res) blast+
    then obtain r' where "w_responses w' = w_responses w @ [r']" using c(3) by (auto simp: reply_def replies_def reported_def)
    then show ?thesis using c by (auto simp: reported_def split: if_splits)
  qed (use start(2) in \<open>auto simp: untouched_def reported_def\<close>)
qed

theorem write_commits_requested_witness:
  "\<exists>w' chg. processWrite ex_env (ex_request ''PUT'' ''/restconf/data/m:top'' ''/m:top'' CreateOrReplaceThisNode ''top'') ex_world = (Inr (), w') \<and>
    confirmed (ledger_of (env_sr ex_env) w') = [chg] \<and>
    requested_change ex_env (ex_request ''PUT'' ''/restconf/data/m:top'' ''/m:top'' CreateOrReplaceThisNode ''top'') (w_sess ex_world) = Inr chg"
proof -
  let ?rc = "ex_request ''PUT'' ''/restconf/data/m:top'' ''/m:top'' CreateOrReplaceThisNode ''top''"
  obtain res w' where r: "processWrite ex_env ?rc ex_world = (res, w')" by fastforce
  have "fst (processWrite ex_env ?rc ex_world) = Inr ()" "map status (w_responses (snd (processWrite ex_env ?rc ex_world))) = [201]"
    "list_all (reports_change (rc_req ?rc)) (w_responses (snd (processWrite ex_env ?rc ex_world)))" by code_simp+
  then have ok: "res = Inr ()" "w_responses w' \<noteq> []" "list_all (reports_change (rc_req ?rc)) (w_responses w')" using r by auto
  have "asRestconfRequest (env_what ex_env) ex_ctx (http_method (rc_req ?rc)) ''/restconf/data/m:top'' [] = Inr (rc_restconfRequest ?rc)" by code_simp
  note law = write_commits_requested [OF r _ _ this]
  have "filter (reports_change (rc_req ?rc)) (w_responses w') \<noteq> []" using ok(2,3) by (cases "w_responses w'") simp_all
  then show ?thesis using law r ok(1) by (auto simp: ex_world_def new_request_def ex_request_def isYangPatch_def)
qed

end
