(* ===== verification/Program_Main.thy ===== *)
theory Program_Main
  imports Server_System Server_Life "HOL-Library.Word"
begin

text \<open>
  \<open>restconf/main.cpp\<close>: the options, the choice of the log, the start of the server, its event loop with the signals that end it, and the end
  of the program. The parser of options (docopt), sysrepo's connection and the operating system are parameters.
\<close>

section \<open>Is the log journald?\<close>

text \<open>
  The conversion \<open>%ju\<close> of \<open>sscanf\<close>: white space, a sign, digits; a negative number is negated in the unsigned type, a
  number that is too large is undefined behaviour. \<open>None\<close>: nothing could be converted.
\<close>

definition scan_sign :: "string \<Rightarrow> bool \<times> string" where
  "scan_sign s = (case s of c # s' \<Rightarrow> if c = CHR ''-'' then (True, s') else if c = CHR ''+'' then (False, s') else (False, s) | [] \<Rightarrow> (False, s))"

definition scan_umax :: "string \<Rightarrow> exn + (64 word \<times> string) option" where
  "scan_umax s = (let (neg, s') = scan_sign (dropWhile is_space s); ds = takeWhile is_digit s' in
     if ds = [] then Inr None
     else if 2 ^ 64 \<le> int (decimal_val ds) then Inl (Undefined ''sscanf: number out of range'')
     else Inr (Some (let v = of_nat (decimal_val ds) in if neg then - v else v, dropWhile is_digit s')))"

text \<open>\<open>sscanf(stream, "%ju:%ju", &dev, &inode)\<close>, \<open>None\<close> if it does not return 2.\<close>

definition scan_stream :: "string \<Rightarrow> exn + (64 word \<times> 64 word) option" where
  "scan_stream s = bindE (scan_umax s) (\<lambda>r. case r of
      Some (dev, CHR '':'' # rest) \<Rightarrow> bindE (scan_umax rest) (\<lambda>r. Inr (map_option (\<lambda>(inode, _). (dev, inode)) r))
    | _ \<Rightarrow> Inr None)"

text \<open>The environment variable, and device and inode of stderr if \<open>fstat\<close> succeeds.\<close>

definition is_journald_active :: "string option \<Rightarrow> (64 word \<times> 64 word) option \<Rightarrow> exn + bool" where
  "is_journald_active journal_stream fstat = (case journal_stream of
      None \<Rightarrow> Inr False
    | Some stream \<Rightarrow> bindE (scan_stream stream) (\<lambda>r. case r of
        None \<Rightarrow> Inr False
      | Some (dev, inode) \<Rightarrow> (case fstat of
          None \<Rightarrow> Inr False
        | Some (st_dev, st_ino) \<Rightarrow> Inr (st_dev = dev \<and> st_ino = inode))))"

text \<open>The levels of spdlog and the priorities of syslog, as their numbers.\<close>

datatype log_level = Level_Trace | Level_Debug | Level_Info | Level_Warn | Level_Err | Level_Critical | Level_Off

fun spdlog_level :: "log_level \<Rightarrow> nat" where
  "spdlog_level Level_Trace = 0" | "spdlog_level Level_Debug = 1" | "spdlog_level Level_Info = 2" | "spdlog_level Level_Warn = 3"
| "spdlog_level Level_Err = 4" | "spdlog_level Level_Critical = 5" | "spdlog_level Level_Off = 6"

definition journald_levels :: "nat list" where
  "journald_levels = [7, 6, 5, 4, 3, 2, 1]"

definition journald_priority :: "log_level \<Rightarrow> nat" where
  "journald_priority l = journald_levels ! spdlog_level l"

section \<open>Options\<close>

record main_args =
  arg_timeout :: "string option"
  arg_syslog :: bool

datatype log_sink = Syslog_Sink | Journald_Sink | Stdout_Sink

text \<open>Seconds as milliseconds in 64 bits.\<close>

definition main_timeout :: "(string \<Rightarrow> exn + int) \<Rightarrow> main_args \<Rightarrow> exn + int" where
  "main_timeout asLong args = (case arg_timeout args of
      None \<Rightarrow> Inr 0
    | Some t \<Rightarrow> bindE (asLong t) (\<lambda>n.
        if - (2 ^ 63) \<le> n * 1000 \<and> n * 1000 < 2 ^ 63 then Inr (n * 1000) else Inl (Undefined ''--timeout: signed overflow'')))"

definition main_sink :: "bool \<Rightarrow> string option \<Rightarrow> (64 word \<times> 64 word) option \<Rightarrow> main_args \<Rightarrow> exn + log_sink" where
  "main_sink have_systemd journal_stream fstat args =
     (if arg_syslog args then Inr Syslog_Sink
      else if have_systemd then bindE (is_journald_active journal_stream fstat) (\<lambda>j. Inr (if j then Journald_Sink else Stdout_Sink))
      else Inr Stdout_Sink)"

section \<open>The event loop\<close>

text \<open>What the single thread of the HTTP server handles: events of the system and the completion of the wait for a signal, with or without an error.\<close>

datatype 'u loop_event = Handled "'u system_event" | Signalled bool

record ('n, 'u) event_loop =
  lp_waiting :: bool
  lp_stopped :: bool
  lp_system :: "('n, 'u) system"

definition is_stop :: "'u system_event \<Rightarrow> bool" where
  "is_stop e = (case e of Live_Event h \<Rightarrow> (case h of Stop \<Rightarrow> True | _ \<Rightarrow> False) | _ \<Rightarrow> False)"

text \<open>The server is stopped by the handler of the signal only; what cannot happen does nothing, as does everything after an exception.\<close>

definition loop_step :: "('n, 'u::linorder, 'd::{linorder, zero, one}) system_env \<Rightarrow> 'u loop_event \<Rightarrow> ('n, 'u) event_loop \<Rightarrow> ('n, 'u) event_loop" where
  "loop_step G e lp = (case e of
      Handled e \<Rightarrow> if system_enabled e (lp_system lp) \<and> \<not> is_stop e then lp\<lparr>lp_system := system_step G e (lp_system lp)\<rparr> else lp
    | Signalled failed \<Rightarrow>
        if \<not> lp_waiting lp \<or> sy_crashed (lp_system lp) \<noteq> None then lp
        else if failed then lp\<lparr>lp_waiting := False\<rparr>
        else lp\<lparr>lp_waiting := False, lp_stopped := True, lp_system := system_step G (Live_Event Stop) (lp_system lp)\<rparr>)"

section \<open>The program\<close>

text \<open>\<open>docopt\<close> ends the program for \<open>--help\<close> and for wrong options. sysrepo's calls depend on the timeout.\<close>

record ('n, 'u, 'd) main_env =
  me_docopt :: "string list \<Rightarrow> int + main_args"
  me_asLong :: "string \<Rightarrow> exn + int"
  me_have_systemd :: bool
  me_journal_stream :: "string option"
  me_fstat :: "(64 word \<times> 64 word) option"
  me_setlocale :: bool
  me_connect :: "exn + unit"
  me_start :: start_env
  me_system :: "int \<Rightarrow> ('n, 'u, 'd) system_env"

text \<open>Everything before the event loop.\<close>

definition main_start :: "('n, 'u, 'd) main_env \<Rightarrow> main_args \<Rightarrow> exn + int \<times> log_sink \<times> 'u server_object" where
  "main_start E args =
     bindE (main_timeout (me_asLong E) args) (\<lambda>timeout.
     bindE (main_sink (me_have_systemd E) (me_journal_stream E) (me_fstat E) args) (\<lambda>sink.
     bindE (if me_setlocale E then Inr () else Inl (Runtime_Error ''Could not set locale C.UTF-8'')) (\<lambda>_.
     bindE (me_connect E) (\<lambda>_.
     bindE (Server_construct (me_start E) ''::1'' ''10080'') (\<lambda>(server, _).
       Inr (timeout, sink, server))))))"

definition loop_init :: "'u server_object \<Rightarrow> ('n, 'u) event_loop" where
  "loop_init server = \<lparr>lp_waiting = True, lp_stopped = False,
     lp_system = \<lparr>sy_hub = so_hub server, sy_nacm = so_nacm server, sy_log = [], sy_requests = [], sy_crashed = None\<rparr>\<rparr>"

datatype ('n, 'u) main_result =
    Exited int
  | Uncaught exn
  | Serving "('n, 'u) system"
  | Returned int "'u server_object"

text \<open>
  \<open>join\<close> returns when the loop has been stopped and rethrows the exception of a handler, which \<open>main\<close> does not catch. At the end of \<open>main\<close> the
  server is destroyed.
\<close>

definition main_program :: "('n, 'u::linorder, 'd::{linorder, zero, one}) main_env \<Rightarrow> string list \<Rightarrow> 'u loop_event list \<Rightarrow> ('n, 'u) main_result" where
  "main_program E argv es = (case me_docopt E argv of
      Inl n \<Rightarrow> Exited n
    | Inr args \<Rightarrow> (case main_start E args of
        Inl e \<Rightarrow> Uncaught e
      | Inr (timeout, sink, server) \<Rightarrow>
          (let lp = fold (loop_step (me_system E timeout)) es (loop_init server) in
           case sy_crashed (lp_system lp) of
             Some e \<Rightarrow> Uncaught e
           | None \<Rightarrow>
               if \<not> lp_stopped lp then Serving (lp_system lp)
               else (case Server_destroy (Server_join (server\<lparr>so_hub := sy_hub (lp_system lp), so_nacm := sy_nacm (lp_system lp),
                        so_transport := so_transport server @ [Post_Stop]\<rparr>)) of
                   Inl e \<Rightarrow> Uncaught e
                 | Inr server \<Rightarrow> Returned 0 server))))"

end
