(* ===== verification/Program_Properties.thy ===== *)
theory Program_Properties
  imports Program_Main System_Properties
begin

text \<open>Properties of the program from its start to its end.\<close>

section \<open>The log\<close>

lemma digit_not_special: "is_digit c \<Longrightarrow> \<not> is_space c \<and> c \<noteq> CHR ''-'' \<and> c \<noteq> CHR ''+''"
  by (auto simp: is_digit_def is_space_def less_eq_char_def)

lemma to_string_Cons: "\<exists>c cs. to_string n = c # cs \<and> is_digit c"
  using to_string_digits [of n] by (cases "to_string n") (auto simp: to_string.simps [of n] split: if_splits)

text \<open>A printed number is read back.\<close>

lemma scan_umax_print:
  assumes "n < 2 ^ 64" and "\<And>c cs. s = c # cs \<Longrightarrow> \<not> is_digit c"
  shows "scan_umax (to_string n @ s) = Inr (Some (of_nat n, s))"
proof -
  obtain c cs where c: "to_string n = c # cs" "is_digit c" using to_string_Cons by blast
  have ds: "\<And>x. x \<in> set (to_string n) \<Longrightarrow> is_digit x" using to_string_digits by blast
  have rest: "takeWhile is_digit s = []" "dropWhile is_digit s = s" using assms(2) by (cases s; simp)+
  have "takeWhile is_digit (to_string n @ s) = to_string n" "dropWhile is_digit (to_string n @ s) = s"
    using rest ds by (simp_all add: takeWhile_append2 dropWhile_append2)
  moreover have "scan_sign (dropWhile is_space (to_string n @ s)) = (False, to_string n @ s)"
    using c digit_not_special [of c] by (simp add: scan_sign_def)
  moreover have "to_string n \<noteq> []" using c(1) by simp
  moreover have "\<not> 2 ^ 64 \<le> int (decimal_val (to_string n))" using assms(1) by simp
  ultimately show ?thesis unfolding scan_umax_def by (simp add: Let_def)
qed

lemma not_digits: "\<not> is_digit (CHR '':'')"
  by (simp add: is_digit_def less_eq_char_def)

lemma scan_stream_print:
  "scan_stream (to_string (unat dev) @ '':'' @ to_string (unat inode)) = Inr (Some (dev, inode))"
proof -
  have lt: "unat w < 2 ^ 64" for w :: "64 word" using unsigned_less [of w] by simp
  have "scan_umax (to_string (unat dev) @ '':'' @ to_string (unat inode)) = Inr (Some (dev, '':'' @ to_string (unat inode)))"
    using scan_umax_print [OF lt [of dev], of "'':'' @ to_string (unat inode)"] not_digits by simp
  moreover have "scan_umax (to_string (unat inode)) = Inr (Some (inode, []))"
    using scan_umax_print [OF lt [of inode], of "[]"] by simp
  ultimately show ?thesis by (simp add: scan_stream_def)
qed

text \<open>The log goes to journald exactly when stderr is the stream that \<open>JOURNAL_STREAM\<close> names: for the device and the inode
  that systemd prints, over the whole range of 64 bits, the check succeeds if and only if \<open>fstat\<close> gives the same two numbers.\<close>

theorem journald_detected:
  "is_journald_active (Some (to_string (unat dev) @ '':'' @ to_string (unat inode))) fstat = Inr (fstat = Some (dev, inode))"
  using scan_stream_print [of dev inode] by (auto simp: is_journald_active_def split: option.split)

text \<open>A more severe message has a more urgent priority in the journal.\<close>

lemma journald_priority_mono: "journald_priority l' < journald_priority l \<longleftrightarrow> spdlog_level l < spdlog_level l'"
  by (cases l; cases l') (simp_all add: journald_priority_def journald_levels_def)

section \<open>The event loop\<close>

fun first_signal :: "'u loop_event list \<Rightarrow> bool option" where
  "first_signal [] = None"
| "first_signal (Signalled failed # es) = Some failed"
| "first_signal (Handled e # es) = first_signal es"

lemma first_signal_snoc: "first_signal (es @ [e]) = (case first_signal es of None \<Rightarrow> first_signal [e] | Some b \<Rightarrow> Some b)"
  by (induction es rule: first_signal.induct) simp_all

lemma loop_step_crashed: "sy_crashed (lp_system lp) \<noteq> None \<Longrightarrow> loop_step G e lp = lp"
  by (auto simp: loop_step_def system_enabled_def split: loop_event.split)

lemma loop_step_run:
  assumes "system_run G nacm oe tr (lp_system lp)"
  shows "\<exists>tr. system_run G nacm oe tr (lp_system (loop_step G e lp))"
proof -
  have "system_enabled (Live_Event Stop) (lp_system lp)" if "sy_crashed (lp_system lp) = None"
    using that by (simp add: system_enabled_def hub_enabled_def not_by_request_def)
  then show ?thesis using system_run.event [OF assms] assms by (cases e) (auto simp: loop_step_def)
qed

text \<open>The loop runs the system; it is stopped if the first wait for a signal has completed without an error.\<close>

definition loop_follows where
  "loop_follows G nacm oe es lp \<longleftrightarrow> (\<exists>tr. system_run G nacm oe tr (lp_system lp)) \<and>
    (sy_crashed (lp_system lp) = None \<longrightarrow> (lp_waiting lp \<longleftrightarrow> first_signal es = None) \<and> (lp_stopped lp \<longleftrightarrow> first_signal es = Some False))"

lemma event_loop_run:
  assumes "so_hub server = hub_init oe"
  shows "loop_follows G (so_nacm server) oe es (fold (loop_step G) es (loop_init server))"
proof (induction es rule: rev_induct)
  case Nil
  have "system_run G (so_nacm server) oe [] (lp_system (loop_init server))"
    using system_run.start [of G "so_nacm server" oe] assms by (simp add: loop_init_def system_init_def)
  then show ?case by (auto simp: loop_follows_def loop_init_def)
next
  case (snoc e es)
  let ?lp = "fold (loop_step G) es (loop_init server)"
  have "\<exists>tr. system_run G (so_nacm server) oe tr (lp_system (loop_step G e ?lp))" using snoc loop_step_run unfolding loop_follows_def by blast
  moreover have "(lp_waiting (loop_step G e ?lp) \<longleftrightarrow> first_signal (es @ [e]) = None) \<and> (lp_stopped (loop_step G e ?lp) \<longleftrightarrow> first_signal (es @ [e]) = Some False)"
    if c: "sy_crashed (lp_system (loop_step G e ?lp)) = None"
  proof -
    have live: "sy_crashed (lp_system ?lp) = None" using c loop_step_crashed [of ?lp G e] by metis
    then have IH: "lp_waiting ?lp \<longleftrightarrow> first_signal es = None" "lp_stopped ?lp \<longleftrightarrow> first_signal es = Some False"
      using snoc by (simp_all add: loop_follows_def)
    show ?thesis
    proof (cases e)
      case (Handled e')
      then have "lp_waiting (loop_step G e ?lp) = lp_waiting ?lp" "lp_stopped (loop_step G e ?lp) = lp_stopped ?lp" by (simp_all add: loop_step_def)
      then show ?thesis using IH Handled by (simp add: first_signal_snoc split: option.split)
    next
      case (Signalled failed)
      then show ?thesis using IH live by (cases "first_signal es") (simp_all add: loop_step_def first_signal_snoc)
    qed
  qed
  ultimately show ?case by (simp add: loop_follows_def)
qed

lemma main_start_server:
  assumes "main_start E args = Inr (timeout, sink, server)"
  shows "(\<exists>oe. so_hub server = hub_init oe) \<and> so_transport server = [] \<and> \<not> so_joined server"
  using assms by (auto simp: main_start_def Server_construct_def bindE_eq_Inr_iff split: option.splits prod.splits)

section \<open>The end of the program\<close>

text \<open>C16. A program that has started and whose handlers throw nothing serves until the wait for a signal completes without an error, and then
  always returns 0: the threads are joined exactly once, every stream is ending or closed, and every subscription is
  terminating. If a handler lets an exception escape, the program ends with that exception, before or after a signal.\<close>

theorem program_ends:
  assumes "me_docopt E argv = Inr args" and "main_start E args = Inr (timeout, sink, server)"
  shows "let s = lp_system (fold (loop_step (me_system E timeout)) es (loop_init server)) in
    case sy_crashed s of
      Some e \<Rightarrow> main_program E argv es = Uncaught e
    | None \<Rightarrow>
        if first_signal es \<noteq> Some False then main_program E argv es = Serving s
        else (\<exists>so. main_program E argv es = Returned 0 so \<and> count_list (so_transport so) Join_Threads = 1 \<and>
          (\<forall>hs \<in> set (hub_streams (so_hub so)). closing (hs_stream hs)) \<and> (\<forall>a d. ds_heap (hub_subs (so_hub so)) a = Some d \<longrightarrow> sd_state d = Terminating))"
proof -
  let ?G = "me_system E timeout"
  let ?lp = "fold (loop_step ?G) es (loop_init server)"
  let ?s = "lp_system ?lp"
  obtain oe where so: "so_hub server = hub_init oe" "so_transport server = []" "\<not> so_joined server" using main_start_server [OF assms(2)] by blast
  note run = event_loop_run [OF so(1), of ?G es, unfolded loop_follows_def]
  obtain tr htr where htr: "hub_run (live_of ?G) htr (sy_hub ?s)" using run system_run_hub by blast
  from hub_stop_ends [OF htr] obtain h where h: "Server_stop (sy_hub ?s) = Inr h" "\<forall>hs \<in> set (hub_streams h). closing (hs_stream hs)"
      "\<forall>a d. ds_heap (hub_subs h) a = Some d \<longrightarrow> sd_state d = Terminating" by blast
  show ?thesis
  proof (cases "sy_crashed ?s")
    case None
    then have "lp_stopped ?lp \<longleftrightarrow> first_signal es = Some False" using run by blast
    then show ?thesis using None assms so h
      by (auto simp: main_program_def Let_def Server_destroy_def Server_stop_object_def Server_join_def)
  qed (simp add: main_program_def assms Let_def)
qed

section \<open>A concrete run\<close>

definition ex_main_env :: "(nat, nat, nat) main_env" where
  "ex_main_env = \<lparr>me_docopt = (\<lambda>_. Inr \<lparr>arg_timeout = Some ''2'', arg_syslog = False\<rparr>), me_asLong = (\<lambda>_. Inr 2), me_have_systemd = True,
     me_journal_stream = Some ''8:42'', me_fstat = Some (8, 42), me_setlocale = True, me_connect = Inr (),
     me_start = \<lparr>st_nacm = Inr Nacm_init, st_subscribe = (\<lambda>_. Inr ()), st_getData = (\<lambda>_. Inr (Some ''{}'')),
       st_features = (\<lambda>_. Some [''encode-xml'', ''encode-json'', ''xpath'', ''subtree'', ''replay'']), st_sysrepo = (\<lambda>_. Inr ()), st_listen = (\<lambda>_ _. None)\<rparr>,
     me_system = (\<lambda>_. ex_system_env)\<rparr>"

definition ex_main_events :: "nat loop_event list" where
  "ex_main_events = map Handled (take 6 ex_system_events) @ [Signalled False, Handled (Live_Event (Wait_Completed 0 False))]"

definition ex_server :: "nat server_object" where
  "ex_server = \<lparr>so_nacm = Nacm_init, so_hub = hub_init \<lparr>oe_sub = Some ''czechlight-roadm-device'', oe_lastData = ''{}''\<rparr>, so_joined = False, so_transport = []\<rparr>"

definition ex_args :: main_args where
  "ex_args = \<lparr>arg_timeout = Some ''2'', arg_syslog = False\<rparr>"

lemma ex_main_start: "main_start ex_main_env ex_args = Inr (2000, Journald_Sink, ex_server)"
proof -
  have "main_sink (me_have_systemd ex_main_env) (me_journal_stream ex_main_env) (me_fstat ex_main_env) ex_args = Inr Journald_Sink" by code_simp
  moreover have "foldE (start_ask (me_start ex_main_env)) [] startCalls = Inr startCalls"
    by (simp add: foldE_start_ask ex_main_env_def)
  moreover have "checkRequiredModules (st_features (me_start ex_main_env)) = Inr ()" by code_simp
  moreover have "OpticalEvents (st_subscribe (me_start ex_main_env)) (st_getData (me_start ex_main_env)) = Inr \<lparr>oe_sub = Some ''czechlight-roadm-device'', oe_lastData = ''{}''\<rparr>"
    by code_simp
  ultimately show ?thesis
    by (simp add: main_start_def main_timeout_def Server_construct_def ex_server_def ex_args_def ex_main_env_def)
qed

lemma ex_main_loop: "sy_crashed (lp_system (fold (loop_step ex_system_env) ex_main_events (loop_init ex_server))) = None"
  by code_simp

theorem program_ends_witness:
  "\<exists>so. main_program ex_main_env [''--timeout'', ''2''] ex_main_events = Returned 0 so \<and> count_list (so_transport so) Join_Threads = 1 \<and>
    (\<forall>hs \<in> set (hub_streams (so_hub so)). closing (hs_stream hs))"
proof -
  have "me_docopt ex_main_env [''--timeout'', ''2''] = Inr ex_args" and "me_system ex_main_env 2000 = ex_system_env"
    by (simp_all add: ex_main_env_def ex_args_def)
  moreover have "first_signal ex_main_events = Some False" by code_simp
  ultimately show ?thesis using program_ends [OF _ ex_main_start, of "[''--timeout'', ''2'']" ex_main_events] ex_main_loop by (auto simp: Let_def)
qed

end
