(* ===== verification/Spec2Isabelle.thy ===== *)
theory Spec2Isabelle
  imports Uri_Properties Http_Properties Auth_Properties Stream_Properties Subscription_Properties
    Server_Properties Request_Properties Route_Properties Live_Properties System_Properties Store_Properties Program_Properties
begin

text \<open>
  \<^bold>\<open>rousette\<close>, a RESTCONF server (RFC 8040) on top of the datastore sysrepo, the YANG library libyang and the HTTP/2
  server of nghttp2-asio. This library models the program under \<open>src/src\<close> and proves what makes it correct.

  \<^bold>\<open>The program.\<close> \<open>restconf/Server.cpp\<close> registers handlers for the routes \<open>/restconf/\<close>, \<open>/streams/\<close>, \<open>/yang/\<close> and a few plain ones. A RESTCONF
  request passes through the choice of encodings (\<open>restconf/utils/dataformat.cpp\<close>, \<open>http/utils.cpp\<close>), authentication by PAM and
  authorization by NACM (\<open>auth/\<close>), and the parser of \<open>restconf/uri.cpp\<close>, which resolves the path in the YANG schema and classifies the request;
  its body arrives in chunks and is then turned into an edit for sysrepo, an RPC or an action. \<open>restconf/DynamicSubscriptions.cpp\<close> keeps
  subscriptions that an RPC creates and a GET on \<open>/streams/subscribed/\<close> consumes; \<open>http/EventStream.cpp\<close> is the state machine of
  such an endless response, \<open>restconf/NotificationStream.cpp\<close> the stream of all NETCONF notifications, and \<open>sr/\<close> turns
  changes of the operational datastore into telemetry events.

  \<^bold>\<open>Theories and sources.\<close>
  \<^item> \<open>Prelude\<close>: the exception monad \<open>bindE\<close>/\<open>foldE\<close> on \<open>exn + 'a\<close>, ordered multimaps and maps, stable sorting, decimal numbers, lists.
  \<^item> \<open>X3\<close>: the part of Boost.Spirit X3 that the grammars use, with backtracking and expectation points; the locales \<open>x3_parser\<close> and
    \<open>x3_consuming\<close> are the contract of a parser (what it leaves is a suffix, error positions lie inside the input) and are interpreted on the rules.
  \<^item> \<open>Exceptions\<close>: \<open>restconf/Exceptions.*\<close>, \<open>auth/Error.h\<close> and the exceptions that cross the code. \<open>Undefined\<close> is undefined behaviour as a value.
  \<^item> \<open>Uri_Grammar\<close>, \<open>Uri_Query\<close>, \<open>Uri_Request\<close>, \<open>Uri_Fields\<close>: \<open>restconf/uri.cpp\<close>, \<open>uri.h\<close>, \<open>uri_impl.h\<close>; with \<open>Uri_Roundtrip\<close>, \<open>Uri_Path_Laws\<close>, \<open>Uri_Request_Laws\<close> and
    \<open>Uri_Request_Table\<close> (the table of RFC 8040 as a reference definition) as their laws.
  \<^item> \<open>Yang_Utils\<close>: \<open>restconf/utils/yang.cpp\<close>, \<open>utils/sysrepo.cpp\<close>. \<open>Http_Utils\<close>, \<open>Data_Format\<close>: \<open>http/utils.cpp\<close>, \<open>restconf/utils/dataformat.cpp\<close>.
  \<^item> \<open>Auth_Pam\<close>, \<open>Auth_Nacm\<close>: \<open>auth/PAM.cpp\<close>, \<open>auth/Nacm.cpp\<close>, \<open>auth/Http.cpp\<close>.
  \<^item> \<open>Event_Stream\<close>: the state of a stream as a record, each callback as a function, and a step relation over posted tasks, pings and closing;
    \<open>Event_Stream_Laws\<close> has its invariants. \<open>Dynamic_Subscriptions\<close>: subscription objects in a heap with the table of
    shared pointers, timers and streams; \<open>Dynamic_Subscriptions_Laws\<close> has the invariant over all interleavings of its operations.
  \<^item> \<open>Data_Tree\<close>: libyang's data trees, with nodes as positions. \<open>Server_State\<close>: what a handler reads and changes (session, calls to sysrepo, responses,
    subscriptions) and actions on it, which keep the state when they throw. \<open>Server_Errors\<close>, \<open>Server_Edit\<close>, \<open>Server_Write\<close>, \<open>Server_Rpc\<close>,
    \<open>Server_Handlers\<close>: \<open>restconf/Server.cpp\<close> in its order, from error documents to routes. \<open>Notification_Stream\<close>, \<open>Locations\<close>:
    \<open>restconf/NotificationStream.cpp\<close>, \<open>YangSchemaLocations.cpp\<close>. \<open>Sr_Events\<close>: \<open>sr/AllEvents.cpp\<close>, \<open>sr/OpticalEvents.cpp\<close>, \<open>restconf/utils/io.cpp\<close>.
  \<^item> \<open>Server_Laws\<close> (edits and keys), \<open>Server_Responses\<close> (how many responses), \<open>Server_Frame\<close> (what a handler keeps), \<open>Server_Policy\<close> (which calls), \<open>Server_Traces\<close> (in which order),
    \<open>Location_Laws\<close>, \<open>Route_Laws\<close>: the laws of the handlers. The locales of \<open>Server_Frame\<close> lift an invariant from calls, responses and sessions to whole handlers and routes; they are interpreted on
    the table of subscriptions, on the growing history of calls and on the policies. The locales \<open>call_policy\<close>, \<open>write_policy\<close> and \<open>read_policy\<close> of \<open>Server_Policy\<close> state what may be assumed
    of the session while handlers run and which calls they may make; they are interpreted for a reading and a writing session of the
    authorized user, for a request before authorization and for requests with safe methods. \<open>Server_Example\<close> is a small schema to run handlers on.
  \<^item> \<open>Live_Streams\<close>: all streams of a running server in one state with the table of subscriptions, the pipes sysrepo writes to, the telemetry signal and
    the shutdown (\<open>DynamicSubscriptionHttpStream\<close> of \<open>restconf/DynamicSubscriptions.cpp\<close>, \<open>Server::stop\<close> and the telemetry route of \<open>restconf/Server.cpp\<close>); every callback is one event of \<open>hub_step\<close>.
    \<open>Live_Streams_Laws\<close> has the locale \<open>event_refinement\<close> and its interpretation: the streams implement an abstract message service (\<open>service_step\<close>).
    \<open>Live_Service_Laws\<close> has the invariants of the service. \<open>Server_Life\<close>: constructor, \<open>stop\<close>, \<open>join\<close> and destructor of the server object.
  \<^item> \<open>Server_System\<close>: the running server as one state (requests with what they wait for, the history of calls to sysrepo, the NACM configuration, streams and subscriptions) and
    one step function: the head of a request, a chunk of its body, a request for a stream or a schema, the end of the delay of \<open>processAuthError\<close> (\<open>auth/Http.cpp\<close>), the closing of a
    request, a change of NACM (\<open>auth/Nacm.cpp\<close>) and the events of \<open>Live_Streams\<close>. \<open>Server_System_Laws\<close>: which request a call goes back to.
    \<open>Server_System_Streams\<close>: requests as events of the streams, and which request a stream or subscription goes back to. \<open>Server_System_Answers\<close>: responses. \<open>Server_Escapes\<close>: which exceptions leave a handler and end the server.
  \<^item> \<open>Datastore\<close>: the changes of the datastores that sysrepo has confirmed, read off the calls of a session and their answers (\<open>ledger\<close>), the change that a request asks for
    (\<open>requested_change\<close>) and the responses that report one; a handler \<open>commits\<close> if it makes its change and reports it or does neither. \<open>Server_System_Store\<close> has the changes of a whole run.
  \<^item> \<open>Program_Main\<close>: \<open>restconf/main.cpp\<close>, with the event loop that runs the system until a signal or an exception ends it.
  \<^item> \<open>Uri_Properties\<close>, \<open>Http_Properties\<close>, \<open>Auth_Properties\<close>, \<open>Stream_Properties\<close>, \<open>Subscription_Properties\<close>, \<open>Server_Properties\<close>, \<open>Request_Properties\<close>, \<open>Route_Properties\<close>, \<open>Live_Properties\<close>, \<open>System_Properties\<close>, \<open>Store_Properties\<close>, \<open>Program_Properties\<close> and this
    theory: the properties, each with a witness where it has hypotheses.

  \<^bold>\<open>What is shown.\<close> URIs: parsing inverts printing, a path for libyang means the segments and keys of the URI whatever bytes the keys hold,
  requests are classified by the table of RFC 8040, and no URI makes the parser fail with anything but an error response. Authorization:
  the anonymous user gets only what the NACM rules of the start-up check allow, a PAM user only after every step of the
  transaction. Requests: no call reaches sysrepo before authorization, every call is made as the authorized user, nothing is
  written to read-only datastores or by safe methods; PUT and PATCH read, edit and apply under one lock that is
  always released; data and URI agree on the keys; a request is answered exactly once. Streams: events reach the client in order and without
  loss, a stream never fails and drains; a subscription has one client, its owner, and is neither leaked nor used after its end.
  All streams together implement a message service without queues and chunks; the notifications of a subscription reach its successive clients
  without loss, and a shutdown ends every stream and subscription. The whole server: however requests of different clients, parts of bodies, timers, streams and configuration changes interleave, every call
  to sysrepo, every subscription and every stream goes back to a request that was authorized as its user, requests are answered once,
  the system implements the message service, and only an exception that no catch clause of a route names can end it.
  Changes: a request is answered with success exactly if sysrepo has confirmed one change for it, which is the edit that its URI and body ask for; a YANG patch makes one change at most.
  The program: it serves until a signal, then returns with its threads joined once and everything ended; the log goes to journald exactly when stderr is its stream.
  Several theorems state behaviour that contradicts the intention of the code (a YANG patch that is not atomic, an attribute loop that
  never ends, optionals dereferenced when data is missing, exceptions that no clause catches); they are the findings of the development.

  \<^bold>\<open>Parameters.\<close> libyang's schema is the record \<open>'n ly_context\<close> and its data operations are \<open>'n ly_data\<close>; sysrepo's answers are \<open>'n sysrepo\<close>, functions of all calls made
  so far, so that no theorem depends on what sysrepo does; PAM, \<open>std::stod\<close>, UUIDs and time conversion are arguments too. A
  response is recorded when it is written: after the first one nghttp2 ignores further ones.

  \<^bold>\<open>Fuel and bounds.\<close> The recursive rules of the \<open>fields\<close> grammar take fuel, the length of the input plus one; each recursion consumes input, so the
  fuel never decides a result (\<open>fieldsExpr_recursive\<close>). The attribute loop of \<open>AllEvents\<close> is a partial function into options, where \<open>None\<close> is
  divergence. Other loops are structural recursion or have a termination proof. Poll events are 16-bit words, delays registered by PAM 32-bit words, device and inode numbers 64-bit words, and the timeout in milliseconds is checked
  against the range of 64 bits; YANG times are natural numbers.

  \<^bold>\<open>Not modelled.\<close> Logging beyond the choice of its sink, the HTTP/2 transport, printing of data trees (libyang's) and of notifications beyond their envelope, and the interleaving of threads: the server runs one
  thread, so handlers are atomic and interleave only at callbacks, as the step relations have it; the callbacks of sysrepo's own threads (NACM, telemetry, operational data) are events between them.
  How sysrepo stores data is not modelled, only what it is asked and what it answers: the changes of \<open>Datastore\<close> are the ones that it has accepted. What is left of the sources are declarations,
  members that only hold references, and log messages.
\<close>

section \<open>Subscriptions reached over HTTP\<close>

text \<open>A request on the stream route changes the table of subscriptions only by connecting a client, and then it was
  authorized, its path names a subscription by its UUID, and the user it was authorized for is the owner of
  that subscription or the recovery user; the subscription had no client before.\<close>

theorem stream_route_owner:
  assumes "streamRoute E SE NE uuidOf anonUser authenticate nacm req w = (res, w')" and "w_subs w' \<noteq> w_subs w"
  shows "\<exists>sess uid ps a d. authorizeRequest anonUser authenticate nacm (w_sess w) (http_header req) = Inr sess \<and>
    asRestconfStreamRequest (env_what E) uuidOf (http_method req) (http_path req) (http_raw_query req) = Inr (SubscribedStreamRequest uid, ps) \<and>
    map_of (m_subscriptions (w_subs w)) uid = Some a \<and> ds_heap (w_subs w) a = Some d \<and>
    nacmUser sess \<in> {Some (sd_user d), Some (se_recoveryUser SE)} \<and> isReadyToAcceptClient d"
proof -
  obtain sess uid ps a d where s: "authorizeRequest anonUser authenticate nacm (w_sess w) (http_header req) = Inr sess"
      "asRestconfStreamRequest (env_what E) uuidOf (http_method req) (http_path req) (http_raw_query req) = Inr (SubscribedStreamRequest uid, ps)"
      "getSubscriptionForUser (se_recoveryUser SE) uid (nacmUser sess) (w_subs w) = Some (a, d)" "isReadyToAcceptClient d"
    using streamRoute_change [OF assms] by blast
  have "map_of (m_subscriptions (w_subs w)) uid = Some a \<and> ds_heap (w_subs w) a = Some d \<and> nacmUser sess \<in> {Some (sd_user d), Some (se_recoveryUser SE)}"
    using s(3) by (auto simp: getSubscriptionForUser_def may_access_def split: option.splits if_splits)
  then show ?thesis using s by blast
qed

definition ex_subscribed_request :: http_request where
  "ex_subscribed_request = \<lparr>http_method = ''GET'', http_path = ''/streams/subscribed/00000000-0000-0000-0000-000000000003'',
     http_raw_path = ''/streams/subscribed/00000000-0000-0000-0000-000000000003'', http_raw_query = [],
     http_header = [(''authorization'', ''alice'')], http_remote = []\<rparr>"

definition ex_subscribed_world :: "(nat, nat) world" where
  "ex_subscribed_world = ex_world\<lparr>w_subs := example_table\<rparr>"

theorem stream_route_owner_witness:
  "\<exists>res w' a d. streamRoute ex_env ex_subs_env ex_notif (\<lambda>_. Some 3) ''anonymous'' Inr Nacm_init ex_subscribed_request ex_subscribed_world = (res, w') \<and>
    w_subs w' \<noteq> w_subs ex_subscribed_world \<and> ds_heap (w_subs ex_subscribed_world) a = Some d \<and> isReadyToAcceptClient d"
proof -
  let ?run = "streamRoute ex_env ex_subs_env ex_notif (\<lambda>_. Some 3) ''anonymous'' Inr Nacm_init ex_subscribed_request ex_subscribed_world"
  obtain res w' where r: "?run = (res, w')" by fastforce
  have "length (ds_streams (w_subs (snd ?run))) = 1" by code_simp
  moreover have "length (ds_streams (w_subs ex_subscribed_world)) = 0" by code_simp
  ultimately have c: "w_subs w' \<noteq> w_subs ex_subscribed_world" using r by auto
  show ?thesis using stream_route_owner [OF r c] r c by blast
qed

end
